(* ===== verification/Kavach_Prelude.thy ===== *)
theory Kavach_Prelude
  imports Main "HOL-Library.Word"
begin

unbundle bit_operations_syntax

section \<open>Shared types, byte codecs and rolling buffers\<close>

text \<open>
  What every component shares: Rust's unsigned integers as words, \<open>Result\<close> as a sum
  (\<open>Err\<close> is \<open>Inl\<close>, \<open>Ok\<close> is \<open>Inr\<close>), \<open>String\<close> as the list of its UTF-8
  bytes (a HOL \<open>char\<close> is exactly one byte), the big-endian conversions
  \<open>to_be_bytes\<close> and \<open>from_be_bytes\<close>, slices, \<open>saturating_sub\<close> and \<open>abs_diff\<close>,
  the decimal and hexadecimal output of \<open>format!\<close>, and the contract of a bounded
  buffer that drops its oldest entry. Arithmetic on words wraps, as it does in the
  release profile the repository ships; a property that depends on the absence of
  overflow says so.
\<close>

type_synonym u8 = "8 word"
type_synonym u16 = "16 word"
type_synonym u32 = "32 word"
type_synonym u64 = "64 word"
type_synonym i64 = int
type_synonym bytes = "u8 list"

abbreviation Ok :: "'a \<Rightarrow> 'e + 'a" where
  "Ok \<equiv> Inr"

abbreviation Err :: "'e \<Rightarrow> 'e + 'a" where
  "Err \<equiv> Inl"

definition is_ok :: "'e + 'a \<Rightarrow> bool" where
  "is_ok r = (case r of Err _ \<Rightarrow> False | Ok _ \<Rightarrow> True)"

definition map_err :: "('e \<Rightarrow> 'f) \<Rightarrow> 'e + 'a \<Rightarrow> 'f + 'a" where
  "map_err f r = (case r of Err e \<Rightarrow> Err (f e) | Ok a \<Rightarrow> Ok a)"

lemma is_ok_simps [simp]: "is_ok (Ok a)" "\<not> is_ok (Err e)"
  by (simp_all add: is_ok_def)

lemma is_okE: "is_ok r \<Longrightarrow> (\<And>a. r = Ok a \<Longrightarrow> P) \<Longrightarrow> P"
  by (cases r) auto

lemma map_err_simps [simp]: "map_err f (Ok a) = Ok a" "map_err f (Err e) = Err (f e)"
  by (simp_all add: map_err_def)

lemma map_err_eq_Ok [simp]: "map_err f r = Ok a \<longleftrightarrow> r = Ok a"
  by (cases r) auto

named_theorems wire_simps \<open>evaluation of byte layouts: slices, puts and lengths\<close>
named_theorems kavach_const \<open>definitions of the constants of the sources\<close>

subsection \<open>Slices and subslice assignment\<close>

definition subslice :: "nat \<Rightarrow> nat \<Rightarrow> 'a list \<Rightarrow> 'a list" where
  \<comment> \<open>\<open>xs[i..j]\<close>; every use has \<open>i \<le> j \<le> xs.len()\<close>\<close>
  "subslice i j xs = take (j - i) (drop i xs)"

definition copy_at :: "nat \<Rightarrow> 'a list \<Rightarrow> 'a list \<Rightarrow> 'a list" where
  \<comment> \<open>\<open>buf[i..i + src.len()].copy_from_slice(src)\<close>\<close>
  "copy_at i src buf = take i buf @ src @ drop (i + length src) buf"

lemma length_subslice [simp]: "j \<le> length xs \<Longrightarrow> length (subslice i j xs) = j - i"
  by (simp add: subslice_def)

lemma subslice_append_skip [wire_simps]:
  "length xs \<le> i \<Longrightarrow> subslice i j (xs @ ys) = subslice (i - length xs) (j - length xs) ys"
  by (simp add: subslice_def)

lemma subslice_Cons_skip [wire_simps]:
  "0 < i \<Longrightarrow> subslice i j (x # xs) = subslice (i - 1) (j - 1) xs"
  by (cases i) (auto simp: subslice_def)

lemma subslice_append_hit [wire_simps]:
  "j = length xs \<Longrightarrow> subslice 0 j (xs @ ys) = xs"
  by (simp add: subslice_def)

lemma subslice_whole [wire_simps]: "length xs \<le> j \<Longrightarrow> subslice 0 j xs = xs"
  by (simp add: subslice_def)

lemma subslice_join: "i \<le> j \<Longrightarrow> j \<le> k \<Longrightarrow> subslice i j xs @ subslice j k xs = subslice i k xs"
proof -
  assume "i \<le> j" "j \<le> k"
  then have "take (j - i) (drop i xs) @ take (k - j) (drop (j - i) (drop i xs))
      = take ((j - i) + (k - j)) (drop i xs)"
    by (simp only: take_add)
  with \<open>i \<le> j\<close> \<open>j \<le> k\<close> show ?thesis by (simp add: subslice_def)
qed

lemma subslice_join_more:
  "i \<le> j \<Longrightarrow> j \<le> k \<Longrightarrow> subslice i j xs @ subslice j k xs @ ys = subslice i k xs @ ys"
  using subslice_join [of i j k xs] by (metis append_assoc)

lemma subslice_to_drop: "i \<le> length xs \<Longrightarrow> subslice i (length xs) xs = drop i xs"
  by (simp add: subslice_def)

lemma length_copy_at [simp]:
  "i + length src \<le> length buf \<Longrightarrow> length (copy_at i src buf) = length buf"
  by (simp add: copy_at_def)

lemma copy_at_append [wire_simps]:
  "length pre = i \<Longrightarrow> copy_at i src (pre @ zs) = pre @ src @ drop (length src) zs"
  by (simp add: copy_at_def)

lemma copy_at_start [wire_simps]: "copy_at 0 src zs = src @ drop (length src) zs"
  by (simp add: copy_at_def)

text \<open>
  The contract of a strict codec: decoding inverts encoding on valid values, and whatever
  it accepts is valid and re-encodes to the same bytes. Clients get injectivity both ways
  and the exact set of accepted inputs.
\<close>

locale strict_codec =
  fixes enc :: "'a \<Rightarrow> 'e + bytes"
    and dec :: "bytes \<Rightarrow> 'f + 'a"
    and valid :: "'a \<Rightarrow> bool"
  assumes dec_enc: "valid x \<Longrightarrow> \<exists>b. enc x = Ok b \<and> dec b = Ok x"
    and enc_dec: "dec b = Ok x \<Longrightarrow> valid x \<and> enc x = Ok b"
begin

lemma enc_inj: "valid x \<Longrightarrow> valid y \<Longrightarrow> enc x = enc y \<Longrightarrow> x = y"
  using dec_enc [of x] dec_enc [of y] by auto

lemma dec_inj: "dec a = Ok x \<Longrightarrow> dec b = Ok x \<Longrightarrow> a = b"
  using enc_dec [of a x] enc_dec [of b x] by simp

lemma dec_iff: "dec b = Ok x \<longleftrightarrow> valid x \<and> enc x = Ok b"
  using dec_enc [of x] enc_dec [of b x] by auto

end

lemma byte_eqI:
  fixes x y :: u8
  assumes "bit x 0 = bit y 0" "bit x 1 = bit y 1" "bit x 2 = bit y 2" "bit x 3 = bit y 3"
    "bit x 4 = bit y 4" "bit x 5 = bit y 5" "bit x 6 = bit y 6" "bit x 7 = bit y 7"
  shows "x = y"
proof (rule bit_word_eqI)
  fix n assume "n < LENGTH(8)"
  then have "n \<in> {0, 1, 2, 3, 4, 5, 6, 7}" by auto
  with assms show "bit x n = bit y n" by auto
qed

subsection \<open>Big-endian integers\<close>

lemma unat_bound: "unat w < 2 ^ LENGTH('a)" for w :: "'a::len word"
  by (rule unsigned_less)

fun be_bytes :: "nat \<Rightarrow> nat \<Rightarrow> bytes" where
  "be_bytes 0 v = []"
| "be_bytes (Suc n) v = be_bytes n (v div 256) @ [word_of_nat (v mod 256)]"

definition be_val :: "bytes \<Rightarrow> nat" where
  "be_val bs = foldl (\<lambda>acc b. 256 * acc + unat b) 0 bs"

lemma be_val_Nil [simp]: "be_val [] = 0"
  by (simp add: be_val_def)

lemma be_val_snoc [simp]: "be_val (bs @ [b]) = 256 * be_val bs + unat b"
  by (simp add: be_val_def)

lemma length_be_bytes [simp]: "length (be_bytes n v) = n"
  by (induction n arbitrary: v) simp_all

lemma be_val_bound: "be_val bs < 256 ^ length bs"
proof (induction bs rule: rev_induct)
  case Nil
  then show ?case by simp
next
  case (snoc b bs)
  have "unat b < 256" using unat_bound [of b] by simp
  with snoc show ?case by simp
qed

lemma be_val_be_bytes: "be_val (be_bytes n v) = v mod 256 ^ n"
proof (induction n arbitrary: v)
  case 0
  then show ?case by simp
next
  case (Suc n)
  have "unat (word_of_nat (v mod 256) :: u8) = v mod 256"
    by (simp add: unat_of_nat)
  with Suc show ?case
    by (simp add: mod_mult2_eq)
qed

lemma be_bytes_be_val: "be_bytes (length bs) (be_val bs) = bs"
proof (induction bs rule: rev_induct)
  case Nil
  then show ?case by simp
next
  case (snoc b bs)
  have "unat b < 256" using unat_bound [of b] by simp
  with snoc show ?case by simp
qed

definition u16_to_be_bytes :: "u16 \<Rightarrow> bytes" where
  "u16_to_be_bytes w = be_bytes 2 (unat w)"

definition u32_to_be_bytes :: "u32 \<Rightarrow> bytes" where
  "u32_to_be_bytes w = be_bytes 4 (unat w)"

definition u64_to_be_bytes :: "u64 \<Rightarrow> bytes" where
  "u64_to_be_bytes w = be_bytes 8 (unat w)"

definition u16_from_be_bytes :: "bytes \<Rightarrow> u16" where
  "u16_from_be_bytes bs = word_of_nat (be_val bs)"

definition u32_from_be_bytes :: "bytes \<Rightarrow> u32" where
  "u32_from_be_bytes bs = word_of_nat (be_val bs)"

definition u64_from_be_bytes :: "bytes \<Rightarrow> u64" where
  "u64_from_be_bytes bs = word_of_nat (be_val bs)"

lemma length_to_be_bytes [simp, wire_simps]:
  "length (u16_to_be_bytes a) = 2" "length (u32_to_be_bytes b) = 4"
  "length (u64_to_be_bytes c) = 8"
  by (simp_all add: u16_to_be_bytes_def u32_to_be_bytes_def u64_to_be_bytes_def)

lemma u16_from_to [simp]: "u16_from_be_bytes (u16_to_be_bytes w) = w"
  using unat_bound [of w]
  by (simp add: u16_from_be_bytes_def u16_to_be_bytes_def be_val_be_bytes)

lemma u32_from_to [simp]: "u32_from_be_bytes (u32_to_be_bytes w) = w"
  using unat_bound [of w]
  by (simp add: u32_from_be_bytes_def u32_to_be_bytes_def be_val_be_bytes)

lemma u64_from_to [simp]: "u64_from_be_bytes (u64_to_be_bytes w) = w"
  using unat_bound [of w]
  by (simp add: u64_from_be_bytes_def u64_to_be_bytes_def be_val_be_bytes)

lemma u16_to_from: "length bs = 2 \<Longrightarrow> u16_to_be_bytes (u16_from_be_bytes bs) = bs"
  using be_val_bound [of bs] be_bytes_be_val [of bs]
  by (simp add: u16_from_be_bytes_def u16_to_be_bytes_def unat_of_nat)

lemma u32_to_from: "length bs = 4 \<Longrightarrow> u32_to_be_bytes (u32_from_be_bytes bs) = bs"
  using be_val_bound [of bs] be_bytes_be_val [of bs]
  by (simp add: u32_from_be_bytes_def u32_to_be_bytes_def unat_of_nat)

lemma u64_to_from: "length bs = 8 \<Longrightarrow> u64_to_be_bytes (u64_from_be_bytes bs) = bs"
  using be_val_bound [of bs] be_bytes_be_val [of bs]
  by (simp add: u64_from_be_bytes_def u64_to_be_bytes_def unat_of_nat)

lemmas be_to_from = u16_to_from u32_to_from u64_to_from

subsection \<open>Saturating and absolute differences\<close>

definition saturating_sub :: "'a::len word \<Rightarrow> 'a word \<Rightarrow> 'a word" where
  "saturating_sub a b = (if b \<le> a then a - b else 0)"

definition abs_diff :: "'a::len word \<Rightarrow> 'a word \<Rightarrow> 'a word" where
  "abs_diff a b = (if a < b then b - a else a - b)"

lemma unat_minus_le: "b \<le> a \<Longrightarrow> unat (a - b) = unat a - unat b" for a b :: "'a::len word"
  by (simp add: unat_sub)

lemma uint_minus_le: "b \<le> a \<Longrightarrow> uint (a - b) = uint a - uint b" for a b :: "'a::len word"
  by (simp add: uint_sub_if' word_le_def)

lemma uint_of_int_id: "0 \<le> k \<Longrightarrow> k < 2 ^ LENGTH('a) \<Longrightarrow> uint (word_of_int k :: 'a::len word) = k"
  by (simp add: unsigned_of_int take_bit_int_eq_self)

lemma unat_of_nat_small: "k < 2 ^ LENGTH('a) \<Longrightarrow> unat (word_of_nat k :: 'a::len word) = k"
  by (simp add: unat_of_nat)

lemma unat_saturating_sub: "unat (saturating_sub a b) = unat a - unat b"
  by (auto simp: saturating_sub_def unat_minus_le word_le_nat_alt)

lemma abs_diff_commute: "abs_diff a b = abs_diff b a"
  by (auto simp: abs_diff_def)

lemma unat_abs_diff: "unat (abs_diff a b) = (unat a - unat b) + (unat b - unat a)"
  by (auto simp: abs_diff_def unat_minus_le word_less_nat_alt word_le_nat_alt)

lemma uint_abs_diff: "uint (abs_diff a b) = abs (uint a - uint b)"
  by (auto simp: abs_diff_def uint_minus_le word_less_def word_le_def)

lemma unat_add_no_wrap:
  fixes a b :: "'a::len word"
  shows "unat a + unat b < 2 ^ LENGTH('a) \<Longrightarrow> unat (a + b) = unat a + unat b"
  by (simp add: unat_word_ariths)

lemma unat_succ:
  fixes n :: "'a::len word"
  assumes "n \<noteq> - 1"
  shows "unat (n + 1) = Suc (unat n)"
proof -
  have "unat n \<noteq> 2 ^ LENGTH('a) - 1"
    using assms by (metis unsigned_minus_1_eq_mask mask_eq_exp_minus_1 word_unat_eq_iff)
  with unat_bound [of n] have "Suc (unat n) < 2 ^ LENGTH('a)" by arith
  then show ?thesis by (simp add: unat_word_ariths)
qed

lemma less_succ: "n \<noteq> - 1 \<Longrightarrow> k \<le> n \<Longrightarrow> k < n + 1" for k n :: "'a::len word"
  by (simp add: word_less_nat_alt word_le_nat_alt unat_succ)

text \<open>An \<open>i64\<close> is the integer it denotes; \<open>as_i64\<close> is the wrap-around of a cast or of an
  overflowing operation.\<close>

definition as_i64 :: "int \<Rightarrow> i64" where
  "as_i64 x = (x + 2 ^ 63) mod 2 ^ 64 - 2 ^ 63"

lemma as_i64_id: "- (2 ^ 63) \<le> x \<Longrightarrow> x < 2 ^ 63 \<Longrightarrow> as_i64 x = x"
  by (simp add: as_i64_def)

lemma as_i64_near:
  "abs (x - c) \<le> e \<Longrightarrow> abs c < 2 ^ 62 \<Longrightarrow> e \<le> 2 ^ 62 \<Longrightarrow> as_i64 x = x"
  by (rule as_i64_id) simp_all

lemma as_i64_range: "- (2 ^ 63) \<le> as_i64 x" "as_i64 x < 2 ^ 63"
  by (simp_all add: as_i64_def)

definition i64_unsigned_abs :: "i64 \<Rightarrow> u64" where
  "i64_unsigned_abs x = word_of_int (abs x)"

lemma uint_unsigned_abs: "abs x < 2 ^ 64 \<Longrightarrow> uint (i64_unsigned_abs x) = abs x"
  by (simp add: i64_unsigned_abs_def unsigned_of_int take_bit_int_eq_self)

lemma unat_unsigned_abs: "abs x < 2 ^ 64 \<Longrightarrow> unat (i64_unsigned_abs x) = nat (abs x)"
  by (simp only: uint_unsigned_abs flip: nat_uint_eq)

subsection \<open>Strings\<close>

definition byte_of :: "char \<Rightarrow> u8" where
  "byte_of c = word_of_nat (of_char c)"

definition as_bytes :: "string \<Rightarrow> bytes" where
  "as_bytes s = map byte_of s"

definition string_of_bytes :: "bytes \<Rightarrow> string" where
  "string_of_bytes bs = map (\<lambda>b. char_of (unat b)) bs"

lemma length_as_bytes [simp, wire_simps]: "length (as_bytes s) = length s"
  by (simp add: as_bytes_def)

lemma length_string_of_bytes [simp]: "length (string_of_bytes bs) = length bs"
  by (simp add: string_of_bytes_def)

lemma unat_byte_of: "unat (byte_of c) = of_char c"
  by (simp add: byte_of_def unat_of_nat)

lemma string_of_as_bytes [simp]: "string_of_bytes (as_bytes s) = s"
  by (simp add: string_of_bytes_def as_bytes_def unat_byte_of comp_def)

lemma as_bytes_string_of [simp]: "as_bytes (string_of_bytes bs) = bs"
proof -
  have "byte_of (char_of (unat b)) = b" for b :: u8
    using unat_bound [of b] by (simp add: byte_of_def)
  then show ?thesis by (simp add: as_bytes_def string_of_bytes_def comp_def)
qed

lemma char_of_eval: "char_of n = Char (bit n 0) (bit n 1) (bit n 2) (bit n 3) (bit n 4) (bit n 5) (bit n 6) (bit n 7)"
    "bit (Suc 0) 0"
  for n :: nat
  by (simp_all add: char_of_def bit_0)

definition to_ascii_lowercase_char :: "char \<Rightarrow> char" where
  "to_ascii_lowercase_char c =
     (let n = (of_char c :: nat) in if 65 \<le> n \<and> n \<le> 90 then char_of (n + 32) else c)"

definition to_ascii_uppercase_char :: "char \<Rightarrow> char" where
  "to_ascii_uppercase_char c =
     (let n = (of_char c :: nat) in if 97 \<le> n \<and> n \<le> 122 then char_of (n - 32) else c)"

lemma of_char_Char_92: "of_char (CHR 0x5C) = (92 :: nat)"
  by simp

lemma uppercase_not_backslash:
  assumes "c \<noteq> CHR 0x5C"
  shows "to_ascii_uppercase_char c \<noteq> CHR 0x5C"
proof (cases "97 \<le> (of_char c :: nat) \<and> (of_char c :: nat) \<le> 122")
  case True
  then have "of_char (to_ascii_uppercase_char c) = (of_char c :: nat) - 32"
    by (auto simp: to_ascii_uppercase_char_def Let_def)
  with True have "(of_char (to_ascii_uppercase_char c) :: nat) \<noteq> 92" by auto
  then show ?thesis by (metis of_char_Char_92)
next
  case False
  then show ?thesis using assms by (auto simp: to_ascii_uppercase_char_def Let_def)
qed

definition to_ascii_lowercase :: "string \<Rightarrow> string" where
  "to_ascii_lowercase s = map to_ascii_lowercase_char s"

definition eq_ignore_ascii_case :: "string \<Rightarrow> string \<Rightarrow> bool" where
  "eq_ignore_ascii_case a b = (to_ascii_lowercase a = to_ascii_lowercase b)"

definition starts_with :: "string \<Rightarrow> string \<Rightarrow> bool" where
  "starts_with s p = (take (length p) s = p)"

fun split_on :: "char \<Rightarrow> string \<Rightarrow> string list" where
  \<comment> \<open>\<open>str::split\<close> on a character: one segment more than there are separators\<close>
  "split_on c [] = [[]]"
| "split_on c (x # xs) =
     (if x = c then [] # split_on c xs
      else (x # hd (split_on c xs)) # tl (split_on c xs))"

fun join_with :: "char \<Rightarrow> string list \<Rightarrow> string" where
  "join_with c [] = []"
| "join_with c [s] = s"
| "join_with c (s # ss) = s @ c # join_with c ss"

definition replace_char :: "char \<Rightarrow> char \<Rightarrow> string \<Rightarrow> string" where
  "replace_char a b s = map (\<lambda>c. if c = a then b else c) s"

lemma split_on_ne [simp]: "split_on c s \<noteq> []"
  by (cases s) auto

lemma join_with_Cons: "ss \<noteq> [] \<Longrightarrow> join_with c (s # ss) = s @ c # join_with c ss"
  by (cases ss) auto

lemma join_with_map_hd:
  "ss \<noteq> [] \<Longrightarrow> join_with c ((x # hd ss) # tl ss) = x # join_with c ss"
  by (cases ss rule: list.exhaust; cases "tl ss") (auto simp: join_with_Cons)

lemma join_split [simp]: "join_with c (split_on c s) = s"
  by (induction s) (simp_all add: join_with_Cons join_with_map_hd)

lemma split_on_no_sep: "seg \<in> set (split_on c s) \<Longrightarrow> c \<notin> set seg"
proof (induction s arbitrary: seg)
  case Nil
  then show ?case by simp
next
  case (Cons x s)
  have "set (tl (split_on c s)) \<subseteq> set (split_on c s)"
    by (cases "split_on c s") auto
  moreover have "hd (split_on c s) \<in> set (split_on c s)" by simp
  ultimately show ?case using Cons by (auto split: if_splits)
qed

lemma split_on_absent: "c \<notin> set s \<Longrightarrow> split_on c s = [s]"
  by (induction s) auto

lemma split_on_append: "c \<notin> set a \<Longrightarrow> split_on c (a @ c # b) = a # split_on c b"
  by (induction a) auto

lemma split_on_replace:
  "b \<notin> set s \<Longrightarrow> split_on b (replace_char a b s) = split_on a s"
  by (induction s) (auto simp: replace_char_def)

text \<open>\<open>str::trim\<close> on UTF-8: the encodings of the Unicode white space characters.\<close>

definition utf8_char :: "nat list \<Rightarrow> string" where
  "utf8_char = map char_of"

definition white_space :: "string list" where
  "white_space = map utf8_char ([[9], [10], [11], [12], [13], [32], [0xC2, 0x85], [0xC2, 0xA0],
     [0xE1, 0x9A, 0x80]] @ map (\<lambda>k. [0xE2, 0x80, k]) ([0x80 ..< 0x8B] @ [0xA8, 0xA9, 0xAF])
     @ [[0xE2, 0x81, 0x9F], [0xE3, 0x80, 0x80]])"

function strip_prefixes :: "string list \<Rightarrow> string \<Rightarrow> string" where
  "strip_prefixes ws s = (case find (\<lambda>w. w \<noteq> [] \<and> take (length w) s = w) ws of
     None \<Rightarrow> s | Some w \<Rightarrow> strip_prefixes ws (drop (length w) s))"
  by auto
termination
proof (relation "measure (\<lambda>(ws, s). length s)")
  show "wf (measure (\<lambda>(ws, s). length s))" by simp
  fix ws :: "string list" and s w
  assume "find (\<lambda>w. w \<noteq> [] \<and> take (length w) s = w) ws = Some w"
  then have "w \<noteq> [] \<and> take (length w) s = w" by (auto simp: find_Some_iff)
  then have "s \<noteq> []" "0 < length w" by auto
  then show "((ws, drop (length w) s), ws, s) \<in> measure (\<lambda>(ws, s). length s)" by simp
qed

declare strip_prefixes.simps [simp del]

definition trim :: "string \<Rightarrow> string" where
  "trim s = rev (strip_prefixes (map rev white_space) (rev (strip_prefixes white_space s)))"

text \<open>\<open>u32::from_str\<close>: an optional plus sign, then decimal digits, without overflow.\<close>

definition digit_value :: "char \<Rightarrow> nat option" where
  "digit_value c = (let n = of_char c in if 48 \<le> n \<and> n \<le> 57 then Some (n - 48) else None)"

fun parse_digits :: "nat \<Rightarrow> string \<Rightarrow> nat option" where
  "parse_digits acc [] = Some acc"
| "parse_digits acc (c # cs) = (case digit_value c of
     None \<Rightarrow> None | Some d \<Rightarrow> parse_digits (10 * acc + d) cs)"

definition parse_unsigned :: "nat \<Rightarrow> string \<Rightarrow> nat option" where
  "parse_unsigned bound s =
    (let ds = (case s of CHR ''+'' # t \<Rightarrow> t | _ \<Rightarrow> s) in
     if ds = [] then None
     else (case parse_digits 0 ds of None \<Rightarrow> None | Some n \<Rightarrow> if n < bound then Some n else None))"

definition parse_u32 :: "string \<Rightarrow> u32 option" where
  "parse_u32 s = map_option word_of_nat (parse_unsigned (2 ^ 32) s)"

definition parse_u64 :: "string \<Rightarrow> u64 option" where
  "parse_u64 s = map_option word_of_nat (parse_unsigned (2 ^ 64) s)"

lemma eq_ignore_ascii_case_equivp: "equivp eq_ignore_ascii_case"
  by (rule equivpI) (auto simp: reflp_def symp_def transp_def eq_ignore_ascii_case_def)

text \<open>\<open>std::str::from_utf8\<close>: the well-formed byte sequences of the Unicode standard.\<close>

definition utf8_cont :: "u8 \<Rightarrow> bool" where
  "utf8_cont b = (0x80 \<le> b \<and> b \<le> 0xBF)"

fun valid_utf8 :: "bytes \<Rightarrow> bool" where
  "valid_utf8 [] = True"
| "valid_utf8 (b # bs) =
     (if b < 0x80 then valid_utf8 bs
      else if 0xC2 \<le> b \<and> b \<le> 0xDF then
        (case bs of c1 # r \<Rightarrow> utf8_cont c1 \<and> valid_utf8 r | _ \<Rightarrow> False)
      else if 0xE0 \<le> b \<and> b \<le> 0xEF then
        (case bs of c1 # c2 # r \<Rightarrow>
            (if b = 0xE0 then 0xA0 \<le> c1 \<and> c1 \<le> 0xBF
             else if b = 0xED then 0x80 \<le> c1 \<and> c1 \<le> 0x9F else utf8_cont c1)
            \<and> utf8_cont c2 \<and> valid_utf8 r
          | _ \<Rightarrow> False)
      else if 0xF0 \<le> b \<and> b \<le> 0xF4 then
        (case bs of c1 # c2 # c3 # r \<Rightarrow>
            (if b = 0xF0 then 0x90 \<le> c1 \<and> c1 \<le> 0xBF
             else if b = 0xF4 then 0x80 \<le> c1 \<and> c1 \<le> 0x8F else utf8_cont c1)
            \<and> utf8_cont c2 \<and> utf8_cont c3 \<and> valid_utf8 r
          | _ \<Rightarrow> False)
      else False)"

definition from_utf8 :: "bytes \<Rightarrow> string option" where
  "from_utf8 bs = (if valid_utf8 bs then Some (string_of_bytes bs) else None)"

lemma valid_utf8_ascii: "\<forall>b \<in> set bs. b < 0x80 \<Longrightarrow> valid_utf8 bs"
  by (induction bs) auto

lemma from_utf8_as_bytes: "valid_utf8 (as_bytes s) \<Longrightarrow> from_utf8 (as_bytes s) = Some s"
  by (simp add: from_utf8_def)

lemma from_utf8_SomeD: "from_utf8 bs = Some s \<Longrightarrow> as_bytes s = bs \<and> valid_utf8 bs"
  by (auto simp: from_utf8_def split: if_splits)

subsection \<open>Formatting of integers\<close>

definition digit_char :: "nat \<Rightarrow> char" where
  "digit_char d = (if d < 10 then char_of (48 + d) else char_of (87 + d))"

fun show_nat :: "nat \<Rightarrow> string" where
  "show_nat n = (if n < 10 then [digit_char n] else show_nat (n div 10) @ [digit_char (n mod 10)])"

declare show_nat.simps [simp del]

definition show_word :: "'a::len word \<Rightarrow> string" where
  "show_word w = show_nat (unat w)"

fun show_hex_width :: "nat \<Rightarrow> nat \<Rightarrow> string" where
  \<comment> \<open>\<open>{:0nx}\<close> of a value of at most \<open>n\<close> hexadecimal digits\<close>
  "show_hex_width 0 v = []"
| "show_hex_width (Suc n) v = show_hex_width n (v div 16) @ [digit_char (v mod 16)]"

fun show_hex :: "nat \<Rightarrow> string" where
  \<comment> \<open>\<open>{:x}\<close>: no leading zeros\<close>
  "show_hex n = (if n < 16 then [digit_char n] else show_hex (n div 16) @ [digit_char (n mod 16)])"

declare show_hex.simps [simp del]

subsection \<open>Bounded buffers that drop the oldest entry\<close>

definition last_n :: "nat \<Rightarrow> 'a list \<Rightarrow> 'a list" where
  "last_n n xs = drop (length xs - n) xs"

lemma length_last_n [simp]: "length (last_n n xs) = min n (length xs)"
  by (simp add: last_n_def)

lemma last_n_all: "length xs \<le> n \<Longrightarrow> last_n n xs = xs"
  by (simp add: last_n_def)

lemma set_last_n: "set (last_n n xs) \<subseteq> set xs"
  by (simp add: last_n_def set_drop_subset)

lemma last_n_last_n_snoc: "last_n n (last_n n xs @ [x]) = last_n n (xs @ [x])"
  by (cases "length xs \<le> n") (simp_all add: last_n_def Suc_diff_le)

text \<open>
  The contract of a bounded buffer: pushing onto a buffer within its capacity keeps the
  newest \<open>cap\<close> entries in arrival order. Its clients get, once, that a buffer filled
  from empty always holds exactly the last \<open>cap\<close> entries pushed.
\<close>

locale rolling_buffer =
  fixes cap :: nat
    and push :: "'a list \<Rightarrow> 'a \<Rightarrow> 'a list"
  assumes cap_pos: "0 < cap"
    and push_spec: "length xs \<le> cap \<Longrightarrow> push xs x = last_n cap (xs @ [x])"
begin

lemma length_push: "length xs \<le> cap \<Longrightarrow> length (push xs x) = min cap (Suc (length xs))"
  by (simp add: push_spec)

lemma push_bounded: "length xs \<le> cap \<Longrightarrow> length (push xs x) \<le> cap"
  by (simp add: length_push)

lemma push_newest: "length xs \<le> cap \<Longrightarrow> push xs x \<noteq> [] \<and> last (push xs x) = x"
  using cap_pos by (simp add: push_spec last_n_def)

lemma set_push: "length xs \<le> cap \<Longrightarrow> set (push xs x) \<subseteq> insert x (set xs)"
  using set_last_n [of cap "xs @ [x]"] by (simp add: push_spec)

lemma push_all: "foldl push [] ys = last_n cap ys"
proof (induction ys rule: rev_induct)
  case Nil
  show ?case by (simp add: last_n_def)
next
  case (snoc y ys)
  then show ?case by (simp add: push_spec last_n_last_n_snoc)
qed

end

text \<open>The two shapes the sources use: drop before the push, or push and then trim.\<close>

definition push_drop_first :: "nat \<Rightarrow> 'a list \<Rightarrow> 'a \<Rightarrow> 'a list" where
  "push_drop_first n xs x = (if length xs = n then tl xs else xs) @ [x]"

definition push_then_trim :: "nat \<Rightarrow> 'a list \<Rightarrow> 'a \<Rightarrow> 'a list" where
  "push_then_trim n xs x = (let ys = xs @ [x] in if length ys > n then tl ys else ys)"

lemma push_drop_first_spec:
  "0 < n \<Longrightarrow> length xs \<le> n \<Longrightarrow> push_drop_first n xs x = last_n n (xs @ [x])"
  by (cases xs) (auto simp: push_drop_first_def last_n_def)

lemma push_then_trim_spec:
  "0 < n \<Longrightarrow> length xs \<le> n \<Longrightarrow> push_then_trim n xs x = last_n n (xs @ [x])"
  by (cases "length xs = n"; cases xs) (auto simp: push_then_trim_def last_n_def Let_def)

end
