(* ===== verification/Kavach_Verdict.thy ===== *)
theory Kavach_Verdict
  imports Kavach_Prelude
begin

section \<open>The verdict contract and its wire codec\<close>

text \<open>
  Models \<open>crates/kavach-core/src/lib.rs\<close> (the shared contract types) and
  \<open>crates/kavach-core/src/wire.rs\<close> (the 139-byte big-endian encoding). A fixed array
  \<open>[u8; n]\<close> is a byte list whose length is part of \<open>wf_verdict\<close>. The codec laws:
  decoding is total on buffers of the right size, strict (what it accepts re-encodes to
  the very same bytes) and exact (it accepts exactly the encodings of valid verdicts).
\<close>

record ArtifactVersion =
  major :: u16
  minor :: u16

datatype EnforcementAction = Alert | SuspendAndAlert | HardKill

definition action_as_u8 :: "EnforcementAction \<Rightarrow> u8" where
  "action_as_u8 a = (case a of Alert \<Rightarrow> 0 | SuspendAndAlert \<Rightarrow> 1 | HardKill \<Rightarrow> 2)"

definition show_action :: "EnforcementAction \<Rightarrow> string" where
  \<comment> \<open>the derived \<open>Debug\<close> output\<close>
  "show_action a = (case a of Alert \<Rightarrow> ''Alert'' | SuspendAndAlert \<Rightarrow> ''SuspendAndAlert''
     | HardKill \<Rightarrow> ''HardKill'')"

record Verdict =
  protocol_version :: ArtifactVersion
  request_id :: bytes
  issued_at_unix_ms :: u64
  expires_at_unix_ms :: u64
  detector_instance_id :: bytes
  requested_action :: EnforcementAction
  evidence_digest :: bytes
  model_bundle_sha256 :: bytes
  policy_generation :: u64
  target_process_id :: u32
  target_process_start_filetime :: u64
  corroborating_evidence_count :: u8
  flags :: u8

datatype DispatchError =
    BrokerUnreachable
  | VersionMismatch
  | ReplayDetected
  | MalformedMessage
  | AuthenticationFailed
  | Expired
  | ActionDenied

definition VERDICT_WIRE_SIZE :: nat where
  [kavach_const]: "VERDICT_WIRE_SIZE = 139"

definition SUPPORTED_PROTOCOL_MAJOR :: u16 where
  [kavach_const]: "SUPPORTED_PROTOCOL_MAJOR = 1"

definition MAX_EXPIRY_WINDOW_MS :: u64 where
  [kavach_const]: "MAX_EXPIRY_WINDOW_MS = 30000"

datatype WireError =
    InvalidLength nat nat \<comment> \<open>expected, actual\<close>
  | UnsupportedMajorVersion u16
  | InvalidAction u8
  | NonzeroFlags u8
  | TimestampOrderViolation u64 u64 \<comment> \<open>issued, expires\<close>
  | ExcessiveExpiryWindow u64
  | ZeroTargetProcessId EnforcementAction

definition show_WireError :: "WireError \<Rightarrow> string" where
  "show_WireError err = (case err of
     InvalidLength expected actual \<Rightarrow>
       ''invalid wire length: expected '' @ show_nat expected @ '', got '' @ show_nat actual
   | UnsupportedMajorVersion m \<Rightarrow>
       ''unsupported major protocol version '' @ show_word m @ ''; expected ''
         @ show_word SUPPORTED_PROTOCOL_MAJOR
   | InvalidAction a \<Rightarrow> ''invalid requested action byte: '' @ show_word a
   | NonzeroFlags f \<Rightarrow> ''nonzero reserved flags byte: 0x'' @ show_hex_width 2 (unat f)
   | TimestampOrderViolation i e \<Rightarrow>
       ''timestamp order violation: issued_at ('' @ show_word i @ '') > expires_at (''
         @ show_word e @ '')''
   | ExcessiveExpiryWindow d \<Rightarrow>
       ''expiry window ('' @ show_word d @ '' ms) exceeds maximum allowed ''
         @ show_word MAX_EXPIRY_WINDOW_MS @ '' ms''
   | ZeroTargetProcessId a \<Rightarrow>
       ''invalid zero target_process_id for action '' @ show_action a)"

definition dispatch_error_of_wire :: "WireError \<Rightarrow> DispatchError" where
  "dispatch_error_of_wire err = (case err of
     UnsupportedMajorVersion _ \<Rightarrow> VersionMismatch
   | _ \<Rightarrow> MalformedMessage)"

subsection \<open>Encoding and decoding\<close>

definition to_wire :: "Verdict \<Rightarrow> bytes" where
  "to_wire v =
    (let buf = replicate VERDICT_WIRE_SIZE 0;
         buf = copy_at 0 (u16_to_be_bytes (major (protocol_version v))) buf;
         buf = copy_at 2 (u16_to_be_bytes (minor (protocol_version v))) buf;
         buf = copy_at 4 (request_id v) buf;
         buf = copy_at 20 (u64_to_be_bytes (issued_at_unix_ms v)) buf;
         buf = copy_at 28 (u64_to_be_bytes (expires_at_unix_ms v)) buf;
         buf = copy_at 36 (detector_instance_id v) buf;
         buf = buf[52 := action_as_u8 (requested_action v)];
         buf = copy_at 53 (evidence_digest v) buf;
         buf = copy_at 85 (model_bundle_sha256 v) buf;
         buf = copy_at 117 (u64_to_be_bytes (policy_generation v)) buf;
         buf = copy_at 125 (u32_to_be_bytes (target_process_id v)) buf;
         buf = copy_at 129 (u64_to_be_bytes (target_process_start_filetime v)) buf;
         buf = buf[137 := corroborating_evidence_count v];
         buf = buf[138 := flags v]
     in buf)"

definition action_of_u8 :: "u8 \<Rightarrow> WireError + EnforcementAction" where
  "action_of_u8 b =
    (if b = 0 then Ok Alert else if b = 1 then Ok SuspendAndAlert
     else if b = 2 then Ok HardKill else Err (InvalidAction b))"

definition from_wire :: "bytes \<Rightarrow> WireError + Verdict" where
  "from_wire buf =
    (let maj = u16_from_be_bytes (subslice 0 2 buf) in
     if maj \<noteq> SUPPORTED_PROTOCOL_MAJOR then Err (UnsupportedMajorVersion maj) else
     let mnr = u16_from_be_bytes (subslice 2 4 buf);
         rid = subslice 4 20 buf;
         issued = u64_from_be_bytes (subslice 20 28 buf);
         expires = u64_from_be_bytes (subslice 28 36 buf) in
     if issued > expires then Err (TimestampOrderViolation issued expires) else
     let delta = expires - issued in
     if delta > MAX_EXPIRY_WINDOW_MS then Err (ExcessiveExpiryWindow delta) else
     let detector = subslice 36 52 buf in
     case action_of_u8 (buf ! 52) of Err e \<Rightarrow> Err e | Ok action \<Rightarrow>
     let evidence = subslice 53 85 buf;
         model = subslice 85 117 buf;
         policy = u64_from_be_bytes (subslice 117 125 buf);
         pid = u32_from_be_bytes (subslice 125 129 buf) in
     if pid = 0 \<and> action \<noteq> Alert then Err (ZeroTargetProcessId action) else
     let filetime = u64_from_be_bytes (subslice 129 137 buf);
         corroborating = buf ! 137;
         fl = buf ! 138 in
     if fl \<noteq> 0 then Err (NonzeroFlags fl) else
     Ok \<lparr>protocol_version = \<lparr>major = maj, minor = mnr\<rparr>, request_id = rid,
         issued_at_unix_ms = issued, expires_at_unix_ms = expires,
         detector_instance_id = detector, requested_action = action,
         evidence_digest = evidence, model_bundle_sha256 = model,
         policy_generation = policy, target_process_id = pid,
         target_process_start_filetime = filetime,
         corroborating_evidence_count = corroborating, flags = fl\<rparr>)"

definition from_slice :: "bytes \<Rightarrow> WireError + Verdict" where
  "from_slice s =
    (if length s \<noteq> VERDICT_WIRE_SIZE then Err (InvalidLength VERDICT_WIRE_SIZE (length s))
     else from_wire s)"

subsection \<open>Well-formedness and validity\<close>

definition wf_verdict :: "Verdict \<Rightarrow> bool" where
  \<comment> \<open>what the Rust types \<open>[u8; 16]\<close> and \<open>[u8; 32]\<close> guarantee\<close>
  "wf_verdict v \<longleftrightarrow> length (request_id v) = 16 \<and> length (detector_instance_id v) = 16
     \<and> length (evidence_digest v) = 32 \<and> length (model_bundle_sha256 v) = 32"

definition valid_verdict :: "Verdict \<Rightarrow> bool" where
  \<comment> \<open>the validity column of \<open>docs/schemas/verdict-v1.md\<close>\<close>
  "valid_verdict v \<longleftrightarrow> major (protocol_version v) = SUPPORTED_PROTOCOL_MAJOR
     \<and> issued_at_unix_ms v \<le> expires_at_unix_ms v
     \<and> expires_at_unix_ms v - issued_at_unix_ms v \<le> MAX_EXPIRY_WINDOW_MS
     \<and> (requested_action v \<noteq> Alert \<longrightarrow> target_process_id v \<noteq> 0)
     \<and> flags v = 0"

lemma action_of_as_u8 [simp]: "action_of_u8 (action_as_u8 a) = Ok a"
  by (cases a) (simp_all add: action_of_u8_def action_as_u8_def)

lemma action_of_u8_OkD: "action_of_u8 b = Ok a \<Longrightarrow> action_as_u8 a = b"
  by (auto simp: action_of_u8_def action_as_u8_def split: if_splits)

definition verdict_layout :: "Verdict \<Rightarrow> bytes" where
  "verdict_layout v = u16_to_be_bytes (major (protocol_version v))
     @ u16_to_be_bytes (minor (protocol_version v)) @ request_id v
     @ u64_to_be_bytes (issued_at_unix_ms v) @ u64_to_be_bytes (expires_at_unix_ms v)
     @ detector_instance_id v @ [action_as_u8 (requested_action v)] @ evidence_digest v
     @ model_bundle_sha256 v @ u64_to_be_bytes (policy_generation v)
     @ u32_to_be_bytes (target_process_id v)
     @ u64_to_be_bytes (target_process_start_filetime v)
     @ [corroborating_evidence_count v] @ [flags v]"

lemma list_update_append_at:
  "length pre = i \<Longrightarrow> zs \<noteq> [] \<Longrightarrow> (pre @ zs)[i := x] = pre @ x # tl zs"
  by (cases zs) (auto simp: list_update_append)

lemma to_wire_layout:
  assumes "wf_verdict v"
  shows "to_wire v = verdict_layout v"
proof -
  have put: "copy_at i src (pre @ replicate n 0) = (pre @ src) @ replicate (n - length src) 0"
    if "length pre = i" for i n and src pre :: bytes
    using that by (simp add: copy_at_append)
  have set: "(pre @ replicate n 0)[i := x] = (pre @ [x]) @ replicate (n - 1) 0"
    if "length pre = i" "0 < n" for i n x and pre :: bytes
    using that by (cases n) (simp_all add: list_update_append_at)
  have fin: "(pre @ [0])[i := x] = pre @ [x]" if "length pre = i" for i x and pre :: bytes
    using that by (simp add: list_update_append_at)
  have start: "copy_at 0 src (replicate n 0) = src @ replicate (n - length src) 0"
    for src :: bytes and n
    by (simp add: copy_at_start)
  show ?thesis
    using assms
    by (simp add: to_wire_def verdict_layout_def wf_verdict_def Let_def kavach_const put set fin start
        del: append_assoc)
qed

lemma length_to_wire: "wf_verdict v \<Longrightarrow> length (to_wire v) = VERDICT_WIRE_SIZE"
  by (simp add: to_wire_layout verdict_layout_def wf_verdict_def kavach_const)

lemma verdict_layout_slices:
  assumes "wf_verdict v"
  shows "subslice 0 2 (verdict_layout v) = u16_to_be_bytes (major (protocol_version v))"
    "subslice 2 4 (verdict_layout v) = u16_to_be_bytes (minor (protocol_version v))"
    "subslice 4 20 (verdict_layout v) = request_id v"
    "subslice 20 28 (verdict_layout v) = u64_to_be_bytes (issued_at_unix_ms v)"
    "subslice 28 36 (verdict_layout v) = u64_to_be_bytes (expires_at_unix_ms v)"
    "subslice 36 52 (verdict_layout v) = detector_instance_id v"
    "verdict_layout v ! 52 = action_as_u8 (requested_action v)"
    "subslice 53 85 (verdict_layout v) = evidence_digest v"
    "subslice 85 117 (verdict_layout v) = model_bundle_sha256 v"
    "subslice 117 125 (verdict_layout v) = u64_to_be_bytes (policy_generation v)"
    "subslice 125 129 (verdict_layout v) = u32_to_be_bytes (target_process_id v)"
    "subslice 129 137 (verdict_layout v) = u64_to_be_bytes (target_process_start_filetime v)"
    "verdict_layout v ! 137 = corroborating_evidence_count v"
    "verdict_layout v ! 138 = flags v"
  using assms by (simp_all add: verdict_layout_def wf_verdict_def wire_simps nth_append)

lemma from_wire_to_wire:
  assumes "wf_verdict v" and "valid_verdict v"
  shows "from_wire (to_wire v) = Ok v"
  using assms
  by (auto simp: to_wire_layout from_wire_def verdict_layout_slices valid_verdict_def Let_def not_less)

lemma from_wire_OkD:
  assumes "length buf = VERDICT_WIRE_SIZE" and "from_wire buf = Ok v"
  shows "wf_verdict v" and "valid_verdict v" and "to_wire v = buf"
proof -
  from assms(1) have len: "length buf = 139" by (simp add: kavach_const)
  from assms(2) obtain act where act: "action_of_u8 (buf ! 52) = Ok act"
    by (auto simp: from_wire_def Let_def split: if_splits sum.splits)
  with assms(2) have v: "v = \<lparr>protocol_version = \<lparr>major = u16_from_be_bytes (subslice 0 2 buf),
         minor = u16_from_be_bytes (subslice 2 4 buf)\<rparr>, request_id = subslice 4 20 buf,
         issued_at_unix_ms = u64_from_be_bytes (subslice 20 28 buf),
         expires_at_unix_ms = u64_from_be_bytes (subslice 28 36 buf),
         detector_instance_id = subslice 36 52 buf, requested_action = act,
         evidence_digest = subslice 53 85 buf, model_bundle_sha256 = subslice 85 117 buf,
         policy_generation = u64_from_be_bytes (subslice 117 125 buf),
         target_process_id = u32_from_be_bytes (subslice 125 129 buf),
         target_process_start_filetime = u64_from_be_bytes (subslice 129 137 buf),
         corroborating_evidence_count = buf ! 137, flags = buf ! 138\<rparr>" and valid: "valid_verdict v"
    by (auto simp: from_wire_def Let_def valid_verdict_def split: if_splits)
  show "valid_verdict v" by (rule valid)
  show wf: "wf_verdict v" using len v by (simp add: wf_verdict_def)
  have one: "[buf ! i] = subslice i (Suc i) buf" if "i < 139" for i
    using that len by (simp add: subslice_def take_Suc_conv_app_nth hd_drop_conv_nth take_Suc)
  have "verdict_layout v = subslice 0 139 buf"
    using len act v
    by (simp add: verdict_layout_def be_to_from action_of_u8_OkD one subslice_join subslice_join_more
        del: append.simps)
  then show "to_wire v = buf"
    using wf len by (simp add: to_wire_layout wire_simps)
qed

interpretation verdict_codec: strict_codec
  "\<lambda>v. Ok (to_wire v)" from_slice "\<lambda>v. wf_verdict v \<and> valid_verdict v"
proof unfold_locales
  fix v assume "wf_verdict v \<and> valid_verdict v"
  then show "\<exists>b. Ok (to_wire v) = Ok b \<and> from_slice b = Ok v"
    by (simp add: from_slice_def length_to_wire from_wire_to_wire)
next
  fix b v assume "from_slice b = Ok v"
  then show "(wf_verdict v \<and> valid_verdict v) \<and> Ok (to_wire v) = Ok b"
    using from_wire_OkD [of b v] by (auto simp: from_slice_def split: if_splits)
qed

lemma from_slice_Ok:
  "from_slice b = Ok v \<longleftrightarrow> wf_verdict v \<and> valid_verdict v \<and> b = to_wire v"
  using verdict_codec.dec_iff [of b v] by auto

subsection \<open>Properties\<close>

definition sample_verdict :: "EnforcementAction \<Rightarrow> u32 \<Rightarrow> Verdict" where
  "sample_verdict action pid =
    \<lparr>protocol_version = \<lparr>major = 1, minor = 0\<rparr>, request_id = replicate 16 0x42,
     issued_at_unix_ms = 1000, expires_at_unix_ms = 5000,
     detector_instance_id = replicate 16 0xAA, requested_action = action,
     evidence_digest = replicate 32 0xBB, model_bundle_sha256 = replicate 32 0x78,
     policy_generation = 7, target_process_id = pid, target_process_start_filetime = 12345,
     corroborating_evidence_count = 3, flags = 0\<rparr>"

text \<open>C5: decoding is exactly the inverse of encoding: \<open>from_slice\<close> returns a verdict on a
  byte string if and only if that verdict is well-formed and valid and the bytes are its
  encoding. So the encoding is injective on valid verdicts and no two byte strings decode
  to the same verdict (a request cannot be re-encoded to evade replay detection).\<close>

theorem from_slice_iff_to_wire:
  "from_slice b = Ok v \<longleftrightarrow> wf_verdict v \<and> valid_verdict v \<and> to_wire v = b"
  by (auto simp: from_slice_Ok)

text \<open>Decoding the encoding of any well-formed verdict, valid or not, returns it unchanged
  or names its first defect in the order version, timestamp order, expiry window (over 30
  seconds, compared without wrap-around), zero process id, reserved flags.\<close>

theorem from_slice_to_wire_outcome:
  assumes "wf_verdict v"
  shows "from_slice (to_wire v) =
    (if major (protocol_version v) \<noteq> 1
       then Err (UnsupportedMajorVersion (major (protocol_version v)))
     else if unat (expires_at_unix_ms v) < unat (issued_at_unix_ms v)
       then Err (TimestampOrderViolation (issued_at_unix_ms v) (expires_at_unix_ms v))
     else if unat (expires_at_unix_ms v) - unat (issued_at_unix_ms v) > 30000
       then Err (ExcessiveExpiryWindow (expires_at_unix_ms v - issued_at_unix_ms v))
     else if target_process_id v = 0 \<and> requested_action v \<noteq> Alert
       then Err (ZeroTargetProcessId (requested_action v))
     else if flags v \<noteq> 0 then Err (NonzeroFlags (flags v))
     else Ok v)"
proof -
  let ?i = "issued_at_unix_ms v" and ?e = "expires_at_unix_ms v"
  have window: "unat (?e - ?i) = unat ?e - unat ?i" if "\<not> unat ?e < unat ?i"
    using that by (simp add: unat_minus_le word_le_nat_alt)
  have slices: "from_slice (to_wire v) = from_wire (verdict_layout v)"
    using assms length_to_wire [OF assms] by (simp add: from_slice_def to_wire_layout)
  show ?thesis
    using assms unfolding slices
    by (cases "unat ?e < unat ?i")
      (simp_all add: from_wire_def verdict_layout_slices Let_def window word_less_nat_alt kavach_const)
qed

theorem from_slice_to_wire_outcome_witness:
  "from_slice (to_wire (sample_verdict SuspendAndAlert 0))
     = Err (ZeroTargetProcessId SuspendAndAlert)"
  using from_slice_to_wire_outcome [of "sample_verdict SuspendAndAlert 0"]
  by (simp add: wf_verdict_def sample_verdict_def)

end
