(* ===== verification/Kavach_Float.thy ===== *)
theory Kavach_Float
  imports Complex_Main Kavach_Prelude
begin

section \<open>IEEE 754 arithmetic\<close>

text \<open>
  The \<open>f32\<close> and \<open>f64\<close> operations the detectors use, executable on exact rationals: a finite
  non-zero float is its rational value, and every operation computes exactly and rounds once
  to nearest, ties to even, with gradual underflow and overflow to infinity. The transcendental
  functions \<open>log2\<close> and \<open>log10\<close>, whose results Rust leaves to the platform, are parameters of the
  definitions that call them.
\<close>

datatype fl = Fin rat | NegZero | PosInf | NegInf | NaN

record float_format =
  prec :: nat \<comment> \<open>bits of the significand\<close>
  qmin :: int \<comment> \<open>exponent of the smallest positive float\<close>
  emax :: int

definition b32 :: float_format where
  "b32 = \<lparr>prec = 24, qmin = - 149, emax = 127\<rparr>"

definition b64 :: float_format where
  "b64 = \<lparr>prec = 53, qmin = - 1074, emax = 1023\<rparr>"

subsection \<open>Powers of two and the binade of a rational\<close>

definition rpow2 :: "int \<Rightarrow> rat" where
  "rpow2 e = (if 0 \<le> e then 2 ^ nat e else 1 / 2 ^ nat (- e))"

fun bitlen :: "nat \<Rightarrow> nat" where
  "bitlen n = (if n = 0 then 0 else Suc (bitlen (n div 2)))"

declare bitlen.simps [simp del]

definition ilog2 :: "rat \<Rightarrow> int" where
  \<comment> \<open>the exponent of the binade of a positive rational\<close>
  "ilog2 x = (let (n, d) = quotient_of x;
                  e = int (bitlen (nat n)) - int (bitlen (nat d))
              in if rpow2 e \<le> x then e else e - 1)"

definition round_even :: "rat \<Rightarrow> int" where
  "round_even x = (let f = floor x; r = x - of_int f in
     if r < 1 / 2 then f else if r > 1 / 2 then f + 1 else if even f then f else f + 1)"

definition quantum :: "float_format \<Rightarrow> rat \<Rightarrow> int" where
  "quantum f a = max (ilog2 a - int (prec f) + 1) (qmin f)"

definition fround :: "float_format \<Rightarrow> rat \<Rightarrow> fl" where
  "fround f x =
    (if x = 0 then Fin 0
     else let a = abs x; q = quantum f a; m = round_even (a / rpow2 q); y = of_int m * rpow2 q in
       if y \<ge> rpow2 (emax f + 1) then (if x > 0 then PosInf else NegInf)
       else if m = 0 then (if x > 0 then Fin 0 else NegZero)
       else Fin (if x > 0 then y else - y))"

subsection \<open>Operations\<close>

definition fval :: "fl \<Rightarrow> rat" where
  "fval a = (case a of Fin r \<Rightarrow> r | _ \<Rightarrow> 0)"

definition is_neg :: "fl \<Rightarrow> bool" where
  "is_neg a = (case a of Fin r \<Rightarrow> r < 0 | NegZero \<Rightarrow> True | NegInf \<Rightarrow> True | _ \<Rightarrow> False)"

definition is_finite :: "fl \<Rightarrow> bool" where
  "is_finite a = (case a of Fin _ \<Rightarrow> True | NegZero \<Rightarrow> True | _ \<Rightarrow> False)"

definition signed_zero :: "bool \<Rightarrow> fl" where
  "signed_zero neg = (if neg then NegZero else Fin 0)"

definition signed_inf :: "bool \<Rightarrow> fl" where
  "signed_inf neg = (if neg then NegInf else PosInf)"

definition fneg :: "fl \<Rightarrow> fl" where
  "fneg a = (case a of Fin r \<Rightarrow> if r = 0 then NegZero else Fin (- r)
     | NegZero \<Rightarrow> Fin 0 | PosInf \<Rightarrow> NegInf | NegInf \<Rightarrow> PosInf | NaN \<Rightarrow> NaN)"

definition fabs :: "fl \<Rightarrow> fl" where
  "fabs a = (if is_neg a then fneg a else a)"

definition fadd :: "float_format \<Rightarrow> fl \<Rightarrow> fl \<Rightarrow> fl" where
  "fadd f a b =
    (if a = NaN \<or> b = NaN then NaN
     else if a = PosInf then (if b = NegInf then NaN else PosInf)
     else if a = NegInf then (if b = PosInf then NaN else NegInf)
     else if b = PosInf \<or> b = NegInf then b
     else if a = NegZero \<and> b = NegZero then NegZero
     else fround f (fval a + fval b))"

definition fsub :: "float_format \<Rightarrow> fl \<Rightarrow> fl \<Rightarrow> fl" where
  "fsub f a b = fadd f a (fneg b)"

definition fmul :: "float_format \<Rightarrow> fl \<Rightarrow> fl \<Rightarrow> fl" where
  "fmul f a b =
    (let neg = (is_neg a \<noteq> is_neg b) in
     if a = NaN \<or> b = NaN then NaN
     else if \<not> is_finite a \<or> \<not> is_finite b then
       (if (is_finite a \<and> fval a = 0) \<or> (is_finite b \<and> fval b = 0) then NaN else signed_inf neg)
     else if fval a = 0 \<or> fval b = 0 then signed_zero neg
     else fround f (fval a * fval b))"

definition fdiv :: "float_format \<Rightarrow> fl \<Rightarrow> fl \<Rightarrow> fl" where
  "fdiv f a b =
    (let neg = (is_neg a \<noteq> is_neg b) in
     if a = NaN \<or> b = NaN then NaN
     else if \<not> is_finite a then (if is_finite b then signed_inf neg else NaN)
     else if \<not> is_finite b then signed_zero neg
     else if fval b = 0 then (if fval a = 0 then NaN else signed_inf neg)
     else if fval a = 0 then signed_zero neg
     else fround f (fval a / fval b))"

fun isqrt :: "nat \<Rightarrow> nat" where
  "isqrt n = (if n = 0 then 0
     else let s = 2 * isqrt (n div 4) in if (s + 1) * (s + 1) \<le> n then s + 1 else s)"

declare isqrt.simps [simp del]

definition fsqrt :: "float_format \<Rightarrow> fl \<Rightarrow> fl" where
  \<comment> \<open>correctly rounded: the significand is the integer square root, corrected by comparing with
    the square of the midpoint\<close>
  "fsqrt f a = (case a of
     NaN \<Rightarrow> NaN | NegZero \<Rightarrow> NegZero | PosInf \<Rightarrow> PosInf | NegInf \<Rightarrow> NaN
   | Fin r \<Rightarrow>
       if r = 0 then Fin 0 else if r < 0 then NaN
       else let q = max (ilog2 r div 2 - int (prec f) + 1) (qmin f);
                s = r / (rpow2 q * rpow2 q);
                m = isqrt (nat (floor s));
                mid = (of_nat m + 1 / 2) * (of_nat m + 1 / 2);
                m' = if s > mid \<or> (s = mid \<and> odd m) then m + 1 else m
            in Fin (of_nat m' * rpow2 q))"

definition fle :: "fl \<Rightarrow> fl \<Rightarrow> bool" where
  "fle a b \<longleftrightarrow> a \<noteq> NaN \<and> b \<noteq> NaN \<and>
     (a = NegInf \<or> b = PosInf \<or> (a \<noteq> PosInf \<and> b \<noteq> NegInf \<and> fval a \<le> fval b))"

definition flt :: "fl \<Rightarrow> fl \<Rightarrow> bool" where
  "flt a b \<longleftrightarrow> a \<noteq> NaN \<and> b \<noteq> NaN \<and> \<not> fle b a"

definition fclamp :: "fl \<Rightarrow> fl \<Rightarrow> fl \<Rightarrow> fl" where
  \<comment> \<open>\<open>f32::clamp\<close>: a NaN stays\<close>
  "fclamp x lo hi = (let x = (if flt x lo then lo else x) in if flt hi x then hi else x)"

definition fmax :: "fl \<Rightarrow> fl \<Rightarrow> fl" where
  \<comment> \<open>\<open>f32::max\<close>: the other operand when one is NaN\<close>
  "fmax a b = (if a = NaN then b else if b = NaN then a else if flt a b then b else a)"

definition fround_away :: "fl \<Rightarrow> fl" where
  \<comment> \<open>\<open>f32::round\<close>: half away from zero; the result of a finite float is exact\<close>
  "fround_away a = (case a of
     Fin r \<Rightarrow> (let m = floor (abs r + 1 / 2) in
       if m = 0 then signed_zero (r < 0) else Fin (if r < 0 then - of_int m else of_int m))
   | _ \<Rightarrow> a)"

definition fcast :: "float_format \<Rightarrow> fl \<Rightarrow> fl" where
  \<comment> \<open>\<open>as f32\<close> of an \<open>f64\<close>\<close>
  "fcast f a = (case a of Fin r \<Rightarrow> fround f r | _ \<Rightarrow> a)"

definition fl_of_int :: "float_format \<Rightarrow> int \<Rightarrow> fl" where
  "fl_of_int f k = fround f (of_int k)"

definition fl_of_nat :: "float_format \<Rightarrow> nat \<Rightarrow> fl" where
  "fl_of_nat f k = fround f (of_nat k)"

definition fl_trunc :: "int \<Rightarrow> int \<Rightarrow> fl \<Rightarrow> int" where
  \<comment> \<open>a float to an integer type with the given bounds: truncating, saturating, NaN to 0\<close>
  "fl_trunc lo hi a = (case a of
     NaN \<Rightarrow> 0 | NegZero \<Rightarrow> 0 | PosInf \<Rightarrow> hi | NegInf \<Rightarrow> lo
   | Fin r \<Rightarrow> max lo (min hi (if 0 \<le> r then floor r else ceiling r)))"

definition f64_as_u64 :: "fl \<Rightarrow> u64" where
  "f64_as_u64 a = word_of_int (fl_trunc 0 (2 ^ 64 - 1) a)"

definition fsum :: "float_format \<Rightarrow> fl list \<Rightarrow> fl" where
  \<comment> \<open>\<open>iter().sum()\<close>: from the left, starting at negative zero\<close>
  "fsum f xs = foldl (fadd f) NegZero xs"

definition f64_bits :: "fl \<Rightarrow> u64" where
  \<comment> \<open>\<open>f64::to_bits\<close>, with the quiet NaN\<close>
  "f64_bits a = (case a of
     NaN \<Rightarrow> 0x7FF8000000000000 | PosInf \<Rightarrow> 0x7FF0000000000000 | NegInf \<Rightarrow> 0xFFF0000000000000
   | NegZero \<Rightarrow> 0x8000000000000000
   | Fin r \<Rightarrow>
       if r = 0 then 0
       else let q = quantum b64 (abs r); m = floor (abs r / rpow2 q);
                magnitude = (if m < 2 ^ 52 then m else (q + 1075) * 2 ^ 52 + (m - 2 ^ 52))
            in word_of_int (if r < 0 then 2 ^ 63 + magnitude else magnitude))"

definition f64_to_be_bytes :: "fl \<Rightarrow> bytes" where
  "f64_to_be_bytes a = u64_to_be_bytes (f64_bits a)"

subsection \<open>Facts about rounding\<close>

lemma rpow2_pos [simp]: "0 < rpow2 e"
  by (simp add: rpow2_def)

lemma rpow2_ne [simp]: "rpow2 e \<noteq> 0"
  by (rule less_imp_neq [OF rpow2_pos, symmetric])

lemma rpow2_numeral_simps [simp]: "rpow2 0 = 1" "rpow2 1 = 2"
  by (simp_all add: rpow2_def)

lemma rpow2_Suc: "rpow2 (e + 1) = 2 * rpow2 e"
proof (cases "0 \<le> e")
  case True
  then show ?thesis by (simp add: rpow2_def nat_add_distrib)
next
  case False
  then have "nat (- e) = Suc (nat (- (e + 1)))" by simp
  with False show ?thesis by (simp add: rpow2_def)
qed

lemma rpow2_add_nat: "rpow2 (a + int n) = rpow2 a * 2 ^ n"
proof (induction n)
  case 0
  show ?case by simp
next
  case (Suc n)
  have "a + int (Suc n) = (a + int n) + 1" by simp
  then show ?case using Suc by (simp only: rpow2_Suc) simp
qed

lemma rpow2_mono: "a \<le> b \<Longrightarrow> rpow2 a \<le> rpow2 b"
proof -
  assume "a \<le> b"
  then obtain n where "b = a + int n" using zle_iff_zadd by blast
  then show ?thesis by (simp add: rpow2_add_nat)
qed

lemma rpow2_div_int: "q \<le> p \<Longrightarrow> \<exists>k. rpow2 p / rpow2 q = of_int k"
proof -
  assume "q \<le> p"
  then obtain n where "p = q + int n" using zle_iff_zadd by blast
  then have "rpow2 p / rpow2 q = of_int (2 ^ n)" by (simp add: rpow2_add_nat)
  then show ?thesis by blast
qed

lemma bitlen_bounds: "n < 2 ^ bitlen n \<and> (0 < n \<longrightarrow> 2 ^ (bitlen n - 1) \<le> n)"
proof (induction n rule: bitlen.induct)
  case (1 n)
  show ?case
  proof (cases "n = 0")
    case True
    then show ?thesis by (simp add: bitlen.simps)
  next
    case False
    then have IH: "n div 2 < 2 ^ bitlen (n div 2)" "0 < n div 2 \<longrightarrow> 2 ^ (bitlen (n div 2) - 1) \<le> n div 2"
      using 1 by auto
    have eq: "bitlen n = Suc (bitlen (n div 2))" using False by (subst bitlen.simps) simp
    have "n < 2 * 2 ^ bitlen (n div 2)" using IH(1) by linarith
    moreover have "2 ^ bitlen (n div 2) \<le> n"
    proof (cases "n div 2 = 0")
      case True
      with False show ?thesis by (simp add: bitlen.simps [of 0])
    next
      case False
      then obtain k where k: "bitlen (n div 2) = Suc k" by (subst (asm) bitlen.simps) (auto simp: bitlen.simps [of "n div 2"])
      with IH(2) False have "2 ^ k \<le> n div 2" by simp
      then show ?thesis unfolding k by simp
    qed
    ultimately show ?thesis by (simp add: eq)
  qed
qed

lemma round_even_bounds: "of_int (floor x) \<le> (of_int (round_even x) :: rat)" "round_even x \<le> floor x + 1"
  by (auto simp: round_even_def Let_def)

lemma round_even_int [simp]: "round_even (of_int k) = k"
  by (simp add: round_even_def)

lemma round_even_nonneg: "0 \<le> x \<Longrightarrow> 0 \<le> round_even x"
proof -
  assume "0 \<le> x"
  then have "0 \<le> floor x" by simp
  then show ?thesis by (auto simp: round_even_def Let_def)
qed

lemma round_even_mono: "x \<le> y \<Longrightarrow> round_even x \<le> round_even y"
proof -
  assume le: "x \<le> y"
  then have fl: "floor x \<le> floor y" by (rule floor_mono)
  show ?thesis
  proof (cases "floor x = floor y")
    case True
    then show ?thesis using le by (auto simp: round_even_def Let_def)
  next
    case False
    with fl have "floor x + 1 \<le> floor y" by simp
    moreover have "round_even x \<le> floor x + 1" by (rule round_even_bounds)
    moreover have "floor y \<le> round_even y" by (auto simp: round_even_def Let_def)
    ultimately show ?thesis by linarith
  qed
qed

lemma fround_not_NaN [simp]: "fround f x \<noteq> NaN"
  by (simp add: fround_def Let_def)

lemma rpow2_nat: "rpow2 (int n) = 2 ^ n"
  by (simp add: rpow2_def)

lemma rpow2_add: "rpow2 (a + b) = rpow2 a * rpow2 b"
proof (cases "0 \<le> b")
  case True
  then obtain n where "b = int n" by (metis int_nat_eq)
  then show ?thesis by (simp add: rpow2_add_nat rpow2_nat)
next
  case False
  then obtain n where n: "b = - int n" by (metis int_nat_eq linear minus_minus neg_0_le_iff_le)
  have "rpow2 b * 2 ^ n = 1" using rpow2_add_nat [of b n] n by simp
  moreover have "rpow2 a = rpow2 (a + b) * 2 ^ n" using rpow2_add_nat [of "a + b" n] n by simp
  ultimately show ?thesis by (simp add: mult.assoc mult.commute [of "2 ^ n"])
qed

lemma bitlen_rat:
  assumes "0 < k"
  shows "rpow2 (int (bitlen (nat k)) - 1) \<le> of_int k" "of_int k < rpow2 (int (bitlen (nat k)))"
proof -
  have k: "(of_int k :: rat) = of_nat (nat k)" using assms by simp
  have b: "nat k < 2 ^ bitlen (nat k)" "2 ^ (bitlen (nat k) - 1) \<le> nat k" "0 < bitlen (nat k)"
    using bitlen_bounds [of "nat k"] assms by (auto simp: bitlen.simps [of "nat k"])
  have "int (bitlen (nat k)) - 1 = int (bitlen (nat k) - 1)" using b(3) by simp
  then have "rpow2 (int (bitlen (nat k)) - 1) = of_nat (2 ^ (bitlen (nat k) - 1))"
    by (simp only: rpow2_nat) simp
  then show "rpow2 (int (bitlen (nat k)) - 1) \<le> of_int k"
    unfolding k using b(2) by (simp only: of_nat_le_iff)
  have "rpow2 (int (bitlen (nat k))) = of_nat (2 ^ bitlen (nat k))" by (simp add: rpow2_nat)
  then show "of_int k < rpow2 (int (bitlen (nat k)))"
    unfolding k using b(1) by (simp only: of_nat_less_iff)
qed

lemma ilog2_bounds:
  assumes "0 < x"
  shows "rpow2 (ilog2 x) \<le> x" "x < rpow2 (ilog2 x + 1)"
proof -
  obtain n d where q: "quotient_of x = (n, d)" by (cases "quotient_of x")
  have d: "0 < d" and x: "x = of_int n / of_int d" using q quotient_of_denom_pos quotient_of_div by auto
  have n: "0 < n" using assms d unfolding x by (simp add: zero_less_divide_iff)
  let ?a = "int (bitlen (nat n))" and ?b = "int (bitlen (nat d))"
  have dp: "(0 :: rat) < of_int d" using d by simp
  note nb = bitlen_rat [OF n] and db = bitlen_rat [OF d]
  have hi: "x < rpow2 (?a - ?b + 1)"
  proof -
    have "rpow2 (?a - ?b + 1) * rpow2 (?b - 1) = rpow2 ?a" by (simp flip: rpow2_add)
    moreover have "rpow2 (?a - ?b + 1) * rpow2 (?b - 1) \<le> rpow2 (?a - ?b + 1) * of_int d"
      using db(1) by (intro mult_left_mono) (simp_all add: less_imp_le)
    ultimately have "of_int n < rpow2 (?a - ?b + 1) * of_int d" using nb(2) by linarith
    then show ?thesis unfolding x using dp by (simp add: pos_divide_less_eq)
  qed
  have lo: "rpow2 (?a - ?b - 1) \<le> x"
  proof -
    have "rpow2 (?a - ?b - 1) * rpow2 ?b = rpow2 (?a - 1)" by (simp flip: rpow2_add)
    moreover have "rpow2 (?a - ?b - 1) * of_int d \<le> rpow2 (?a - ?b - 1) * rpow2 ?b"
      using db(2) by (intro mult_left_mono) (simp_all add: less_imp_le)
    ultimately have "rpow2 (?a - ?b - 1) * of_int d \<le> of_int n" using nb(1) by linarith
    then show ?thesis unfolding x using dp by (simp add: pos_le_divide_eq)
  qed
  have il: "ilog2 x = (if rpow2 (?a - ?b) \<le> x then ?a - ?b else ?a - ?b - 1)"
    by (simp add: ilog2_def q)
  show "rpow2 (ilog2 x) \<le> x" using lo by (simp add: il)
  show "x < rpow2 (ilog2 x + 1)" using hi by (simp add: il not_le)
qed

lemma rpow2_less_cancel: "rpow2 a < rpow2 b \<Longrightarrow> a < b"
  using rpow2_mono [of b a] by (metis not_le)

lemma ilog2_mono: "0 < x \<Longrightarrow> x \<le> y \<Longrightarrow> ilog2 x \<le> ilog2 y"
proof -
  assume "0 < x" "x \<le> y"
  then have "rpow2 (ilog2 x) < rpow2 (ilog2 y + 1)"
    using ilog2_bounds [of x] ilog2_bounds [of y] by linarith
  then show ?thesis using rpow2_less_cancel by fastforce
qed

definition rnd :: "float_format \<Rightarrow> rat \<Rightarrow> rat" where
  "rnd f a = of_int (round_even (a / rpow2 (quantum f a))) * rpow2 (quantum f a)"

lemma rnd_nonneg: "0 \<le> a \<Longrightarrow> 0 \<le> rnd f a"
  by (simp add: rnd_def round_even_nonneg less_imp_le)

lemma quantum_mono: "0 < x \<Longrightarrow> x \<le> y \<Longrightarrow> quantum f x \<le> quantum f y"
  using ilog2_mono [of x y] by (auto simp: quantum_def max_def)

lemma round_even_le: "x \<le> of_int k \<Longrightarrow> round_even x \<le> k"
  using round_even_mono [of x "of_int k"] by simp

lemma round_even_ge: "of_int k \<le> x \<Longrightarrow> k \<le> round_even x"
  using round_even_mono [of "of_int k" x] by simp

lemma rnd_le_pow:
  assumes "0 < x" "x \<le> rpow2 k" "quantum f x \<le> k"
  shows "rnd f x \<le> rpow2 k"
proof -
  let ?q = "quantum f x"
  have "x / rpow2 ?q \<le> rpow2 k / rpow2 ?q" using assms(2) by (simp add: divide_right_mono less_imp_le)
  moreover obtain m where m: "rpow2 k / rpow2 ?q = of_int m" using rpow2_div_int [OF assms(3)] by blast
  ultimately have "round_even (x / rpow2 ?q) \<le> m" by (simp add: round_even_le)
  then have "of_int (round_even (x / rpow2 ?q)) * rpow2 ?q \<le> of_int m * rpow2 ?q"
    by (intro mult_right_mono) (simp_all add: less_imp_le)
  also have "of_int m * rpow2 ?q = rpow2 k" unfolding m [symmetric] by simp
  finally show ?thesis by (simp add: rnd_def)
qed

lemma rnd_ge_pow:
  assumes "rpow2 k \<le> x" "quantum f x \<le> k"
  shows "rpow2 k \<le> rnd f x"
proof -
  let ?q = "quantum f x"
  obtain m where m: "rpow2 k / rpow2 ?q = of_int m" using rpow2_div_int [OF assms(2)] by blast
  have "of_int m \<le> x / rpow2 ?q" unfolding m [symmetric] using assms(1) by (simp add: divide_right_mono less_imp_le)
  then have "m \<le> round_even (x / rpow2 ?q)" by (rule round_even_ge)
  then have "of_int m * rpow2 ?q \<le> of_int (round_even (x / rpow2 ?q)) * rpow2 ?q"
    by (intro mult_right_mono) (simp_all add: less_imp_le)
  moreover have "of_int m * rpow2 ?q = rpow2 k" unfolding m [symmetric] by simp
  ultimately show ?thesis by (simp add: rnd_def)
qed

lemma rnd_mono:
  assumes "0 < x" "x \<le> y" "0 < prec f"
  shows "rnd f x \<le> rnd f y"
proof (cases "quantum f x = quantum f y")
  case True
  have "x / rpow2 (quantum f x) \<le> y / rpow2 (quantum f x)"
    using assms(2) by (simp add: divide_right_mono less_imp_le)
  then have "round_even (x / rpow2 (quantum f x)) \<le> round_even (y / rpow2 (quantum f x))"
    by (rule round_even_mono)
  then show ?thesis unfolding rnd_def True [symmetric] by (intro mult_right_mono) (simp_all add: less_imp_le)
next
  case False
  let ?k = "quantum f x + int (prec f)"
  have lt: "quantum f x < quantum f y" using False quantum_mono [OF assms(1,2), of f] by simp
  then have qy: "quantum f y = ilog2 y - int (prec f) + 1" by (auto simp: quantum_def max_def split: if_splits)
  have "ilog2 x + 1 \<le> ?k" by (simp add: quantum_def)
  then have "x \<le> rpow2 ?k" using ilog2_bounds(2) [OF assms(1)] rpow2_mono [of "ilog2 x + 1" ?k] by linarith
  then have "rnd f x \<le> rpow2 ?k" using assms(1) by (intro rnd_le_pow) simp_all
  also have "rpow2 ?k \<le> rpow2 (ilog2 y)" using lt qy by (intro rpow2_mono) simp
  also have "rpow2 (ilog2 y) \<le> rnd f y"
    using assms qy ilog2_bounds(1) [of y] by (intro rnd_ge_pow) simp_all
  finally show ?thesis .
qed

lemma fround_pos:
  "0 < x \<Longrightarrow> fround f x = (if rpow2 (emax f + 1) \<le> rnd f x then PosInf else Fin (rnd f x))"
  by (auto simp: fround_def rnd_def Let_def)

lemma fround_nonneg: "0 \<le> x \<Longrightarrow> fround f x = PosInf \<or> (\<exists>r. fround f x = Fin r \<and> 0 \<le> r)"
  by (cases "x = 0") (auto simp: fround_pos fround_def [of f 0] rnd_nonneg)

lemma fround_mono_nonneg:
  assumes "0 \<le> x" "x \<le> y" "0 < prec f"
  shows "fle (fround f x) (fround f y)"
proof (cases "x = 0")
  case True
  then show ?thesis using fround_nonneg [of y f] assms by (auto simp: fle_def fround_def [of f 0] fval_def)
next
  case False
  with assms have "0 < x" "0 < y" by simp_all
  moreover have "rnd f x \<le> rnd f y" using \<open>0 < x\<close> assms by (intro rnd_mono)
  ultimately show ?thesis by (auto simp: fround_pos fle_def fval_def)
qed

lemma fround_int:
  assumes "0 \<le> k" "k < 2 ^ prec f" "qmin f \<le> 0" "int (prec f) \<le> emax f"
  shows "fround f (of_int k) = Fin (of_int k)"
proof (cases "k = 0")
  case True
  then show ?thesis by (simp add: fround_def)
next
  case False
  with assms(1) have k: "0 < k" "(0 :: rat) < of_int k" by simp_all
  have "(of_int k :: rat) < of_int (2 ^ prec f)" using assms(2) by (simp only: of_int_less_iff)
  then have kp: "of_int k < rpow2 (int (prec f))" by (simp add: rpow2_nat)
  then have "rpow2 (ilog2 (of_int k)) < rpow2 (int (prec f))" using ilog2_bounds(1) [OF k(2)] by linarith
  then have "ilog2 (of_int k) < int (prec f)" by (rule rpow2_less_cancel)
  then have "quantum f (of_int k) \<le> 0" using assms(3) by (simp add: quantum_def)
  then obtain m where "rpow2 0 / rpow2 (quantum f (of_int k)) = of_int m" using rpow2_div_int by blast
  then have eq: "of_int k / rpow2 (quantum f (of_int k)) = of_int (k * m)" by (simp add: field_simps)
  have "rnd f (of_int k) = of_int (k * m) * rpow2 (quantum f (of_int k))"
    unfolding rnd_def eq by (simp only: round_even_int)
  also have "\<dots> = of_int k" unfolding eq [symmetric] by simp
  finally have "rnd f (of_int k) = of_int k" .
  moreover have "of_int k < rpow2 (emax f + 1)"
    using kp rpow2_mono [of "int (prec f)" "emax f + 1"] assms(4) by linarith
  ultimately show ?thesis using k by (simp add: fround_pos)
qed

lemma fround_int_formats:
  "0 \<le> k \<Longrightarrow> k < 2 ^ 24 \<Longrightarrow> fround b32 (of_int k) = Fin (of_int k)"
  "0 \<le> k \<Longrightarrow> k < 2 ^ 53 \<Longrightarrow> fround b64 (of_int k) = Fin (of_int k)"
  by (rule fround_int; simp add: b32_def b64_def)+

lemma prec_formats [simp]: "0 < prec b32" "0 < prec b64"
  by (simp_all add: b32_def b64_def)

lemma fl_of_nat_exact:
  "n < 2 ^ 24 \<Longrightarrow> fl_of_nat b32 n = Fin (of_nat n)" "n < 2 ^ 53 \<Longrightarrow> fl_of_nat b64 n = Fin (of_nat n)"
  using fround_int_formats [of "int n"] by (simp_all add: fl_of_nat_def)

definition f32_bits :: "fl \<Rightarrow> u32" where
  \<comment> \<open>\<open>f32::to_bits\<close>, with the quiet NaN\<close>
  "f32_bits a = (case a of
     NaN \<Rightarrow> 0x7FC00000 | PosInf \<Rightarrow> 0x7F800000 | NegInf \<Rightarrow> 0xFF800000
   | NegZero \<Rightarrow> 0x80000000
   | Fin r \<Rightarrow>
       if r = 0 then 0
       else let q = quantum b32 (abs r); m = floor (abs r / rpow2 q);
                magnitude = (if m < 2 ^ 23 then m else (q + 150) * 2 ^ 23 + (m - 2 ^ 23))
            in word_of_int (if r < 0 then 2 ^ 31 + magnitude else magnitude))"

definition f32_to_le_bytes :: "fl \<Rightarrow> bytes" where
  "f32_to_le_bytes a = rev (u32_to_be_bytes (f32_bits a))"

lemma length_f32_to_le_bytes [simp]: "length (f32_to_le_bytes a) = 4"
  by (simp add: f32_to_le_bytes_def)

subsection \<open>Scores\<close>

definition unit_score :: "fl \<Rightarrow> bool" where
  \<comment> \<open>a number between zero and one\<close>
  "unit_score a \<longleftrightarrow> fle (Fin 0) a \<and> fle a (Fin 1)"

definition nonneg :: "fl \<Rightarrow> bool" where
  \<comment> \<open>zero of either sign, positive or infinite, and not NaN\<close>
  "nonneg a \<longleftrightarrow> fle (Fin 0) a"

lemma unit_score_nonneg: "unit_score a \<Longrightarrow> nonneg a"
  by (simp add: unit_score_def nonneg_def)

lemma nonneg_not_NaN: "nonneg a \<Longrightarrow> a \<noteq> NaN \<and> a \<noteq> NegInf"
  by (auto simp: nonneg_def fle_def)

lemma nonneg_simps [simp]: "nonneg (Fin r) \<longleftrightarrow> 0 \<le> r" "nonneg NegZero" "nonneg PosInf"
  "\<not> nonneg NegInf" "\<not> nonneg NaN"
  by (simp_all add: nonneg_def fle_def fval_def)

lemma unit_score_clamp: "a \<noteq> NaN \<Longrightarrow> unit_score (fclamp a (Fin 0) (Fin 1))"
  by (cases a) (auto simp: unit_score_def fclamp_def flt_def fle_def fval_def Let_def)

lemma unit_score_consts [simp]: "unit_score (Fin 0)" "unit_score (Fin 1)"
  by (simp_all add: unit_score_def fle_def fval_def)

lemma nonneg_fround: "0 \<le> x \<Longrightarrow> nonneg (fround f x)"
  using fround_nonneg [of x f] by auto

lemma nonneg_fadd: "nonneg a \<Longrightarrow> nonneg b \<Longrightarrow> nonneg (fadd f a b)"
  by (cases a; cases b) (auto simp: fadd_def fval_def intro: nonneg_fround)

lemma nonneg_fmul: "nonneg a \<Longrightarrow> 0 < r \<Longrightarrow> nonneg (fmul f a (Fin r))"
  by (cases a) (auto simp: fmul_def fval_def is_neg_def is_finite_def signed_zero_def signed_inf_def
      Let_def intro: nonneg_fround)

lemma nonneg_fdiv: "nonneg a \<Longrightarrow> 0 < r \<Longrightarrow> nonneg (fdiv f a (Fin r))"
  by (cases a) (auto simp: fdiv_def fval_def is_neg_def is_finite_def signed_zero_def signed_inf_def
      Let_def intro: nonneg_fround)

lemma nonneg_square: "a \<noteq> NaN \<Longrightarrow> nonneg (fmul f a a)"
  by (cases a) (auto simp: fmul_def fval_def is_neg_def is_finite_def signed_zero_def signed_inf_def
      Let_def intro: nonneg_fround)

lemma fl_of_nat_nonneg: "nonneg (fl_of_nat f n)"
  by (simp add: fl_of_nat_def nonneg_fround)

lemma fge_nonneg: "fle (Fin r) a \<Longrightarrow> 0 \<le> r \<Longrightarrow> nonneg a"
  by (cases a) (auto simp: fle_def fval_def)

lemma fle_not_NaN: "fle a b \<Longrightarrow> a \<noteq> NaN \<and> b \<noteq> NaN"
  by (simp add: fle_def)

lemma fle_refl: "a \<noteq> NaN \<Longrightarrow> fle a a"
  by (cases a) (auto simp: fle_def)

lemma fle_trans: "fle a b \<Longrightarrow> fle b c \<Longrightarrow> fle a c"
  by (cases a; cases b; cases c) (auto simp: fle_def fval_def)

lemma unit_score_fround: "0 \<le> x \<Longrightarrow> x \<le> 1 \<Longrightarrow> 0 < prec f \<Longrightarrow> fround f 1 = Fin 1 \<Longrightarrow> unit_score (fround f x)"
  using fround_mono_nonneg [of x 1 f] nonneg_fround [of x f] by (simp add: unit_score_def nonneg_def)

lemma fround_one: "fround b32 1 = Fin 1" "fround b64 1 = Fin 1"
  using fround_int_formats [of 1] by simp_all

lemma fdiv_fin: "0 \<le> a \<Longrightarrow> 0 < b \<Longrightarrow> fdiv f (Fin a) (Fin b) = fround f (a / b)"
  by (auto simp: fdiv_def is_finite_def fval_def is_neg_def signed_zero_def Let_def fround_def [of f 0])

lemma fmul_fin: "0 \<le> a \<Longrightarrow> 0 \<le> b \<Longrightarrow> fmul f (Fin a) (Fin b) = fround f (a * b)"
  by (auto simp: fmul_def is_finite_def fval_def is_neg_def signed_zero_def Let_def fround_def [of f 0])

lemma f64_as_u64_nat: "k < 2 ^ 64 \<Longrightarrow> f64_as_u64 (Fin (of_nat k)) = word_of_nat k"
proof -
  assume "k < 2 ^ 64"
  then have "min (2 ^ 64 - 1) (int k) = int k" by simp
  then show ?thesis by (simp add: f64_as_u64_def fl_trunc_def)
qed

lemma fround_fraction:
  assumes "rpow2 (- 2) \<le> x" "x \<le> 1" "2 < prec f" "fround f 1 = Fin 1" "qmin f \<le> - 2"
  obtains r where "fround f x = Fin r" "0 < r"
proof -
  have pos: "0 < x" using assms(1) rpow2_pos [of "- 2"] by linarith
  have "fle (fround f x) (Fin 1)" using fround_mono_nonneg [of x 1 f] assms pos by simp
  then have "fround f x \<noteq> PosInf" by (auto simp: fle_def)
  then have r: "fround f x = Fin (rnd f x)" using pos by (auto simp: fround_pos split: if_splits)
  have "rpow2 (ilog2 x) < rpow2 1" using ilog2_bounds(1) [OF pos] assms(2) by simp
  then have "ilog2 x < 1" by (rule rpow2_less_cancel)
  then have "quantum f x \<le> - 2" using assms(3,5) by (simp add: quantum_def)
  then have "rpow2 (- 2) \<le> rnd f x" using assms(1) by (intro rnd_ge_pow)
  then show thesis using that r rpow2_pos [of "- 2"] by (meson order.strict_trans2)
qed

lemma rpow2_minus_2: "rpow2 (- 2) = 1 / 4"
  by (simp add: rpow2_def)

lemma b64_fraction: "1 / 4 \<le> x \<Longrightarrow> x \<le> 1 \<Longrightarrow> \<exists>r. fround b64 x = Fin r \<and> 0 < r"
proof -
  assume "1 / 4 \<le> x" "x \<le> 1"
  moreover have "2 < prec b64" "qmin b64 \<le> - 2" by (simp_all add: b64_def)
  ultimately obtain r where "fround b64 x = Fin r" "0 < r"
    using fround_one(2) by (metis fround_fraction rpow2_minus_2)
  then show ?thesis by blast
qed

lemma fdiv_not_NaN: "a \<noteq> NaN \<Longrightarrow> 0 < r \<Longrightarrow> fdiv f a (Fin r) \<noteq> NaN"
  by (cases a) (auto simp: fdiv_def is_finite_def fval_def is_neg_def signed_zero_def signed_inf_def Let_def)

lemma fsub_fin_not_NaN: "b \<noteq> NaN \<Longrightarrow> fsub f (Fin r) b \<noteq> NaN"
  by (cases b) (auto simp: fsub_def fadd_def fneg_def split: if_splits)

end
