(* ===== verification/Kavach_Tripwire.thy ===== *)
theory Kavach_Tripwire
  imports Kavach_Verdict Kavach_Float "HOL-Library.Char_ord" "HOL-Library.List_Lexorder"
begin

section \<open>The write-entropy tripwire\<close>

text \<open>
  Models the crate \<open>crates/kavach-tripwire\<close>: block entropy and its differential summary
  (\<open>entropy.rs\<close>), the sliding window per process (\<open>sliding_window.rs\<close>) and the engine (\<open>lib.rs\<close>).
  \<open>log2\<close> and SHA-256 are parameters. \<open>usize\<close> counters are natural numbers; the byte total
  wraps at \<open>2 ^ 64\<close>. The order of strings is that of their bytes.
\<close>

definition ENTROPY_MAX :: fl where
  "ENTROPY_MAX = Fin 8"

definition ENTROPY_RANSOMWARE_THRESHOLD :: fl where
  "ENTROPY_RANSOMWARE_THRESHOLD = fround b64 (795 / 100)"

definition ENTROPY_SUSPICIOUS_THRESHOLD :: fl where
  "ENTROPY_SUSPICIOUS_THRESHOLD = fround b64 (75 / 10)"

definition DEFAULT_BLOCK_SIZE :: nat where
  [kavach_const]: "DEFAULT_BLOCK_SIZE = 4096"

definition byte_counts :: "bytes \<Rightarrow> nat list" where
  "byte_counts bs = map (\<lambda>k. length (filter (\<lambda>b. unat b = k) bs)) [0 ..< 256]"

definition shannon_entropy :: "(fl \<Rightarrow> fl) \<Rightarrow> bytes \<Rightarrow> fl" where
  "shannon_entropy log2 bs =
    (if bs = [] then Fin 0
     else let n = fl_of_nat b64 (length bs) in
       foldl (\<lambda>entropy count.
           if count > 0 then
             (let p = fdiv b64 (fl_of_nat b64 count) n in fsub b64 entropy (fmul b64 p (log2 p)))
           else entropy) (Fin 0) (byte_counts bs))"

function chunks :: "nat \<Rightarrow> 'a list \<Rightarrow> 'a list list" where
  "chunks n xs = (if xs = [] \<or> n = 0 then [] else take n xs # chunks n (drop n xs))"
  by auto
termination
  by (relation "measure (\<lambda>(n, xs). length xs)") auto

declare chunks.simps [simp del]

definition block_entropy_scan :: "(fl \<Rightarrow> fl) \<Rightarrow> bytes \<Rightarrow> nat \<Rightarrow> fl list" where
  "block_entropy_scan log2 data block_size =
    (if data = [] \<or> block_size = 0 then [] else map (shannon_entropy log2) (chunks block_size data))"

record SparseEntropySummary =
  total_blocks :: nat
  mean_entropy :: fl
  max_entropy :: fl
  min_entropy :: fl
  variance :: fl
  high_entropy_ratio :: fl
  intermittent_encryption_score :: fl
  is_anomalous :: bool

definition high_blocks :: "fl list \<Rightarrow> nat" where
  \<comment> \<open>\<open>high_count\<close> after the first loop\<close>
  "high_blocks blocks = length (filter (\<lambda>e. fle ENTROPY_RANSOMWARE_THRESHOLD e) blocks)"

definition delta_transitions :: "fl list \<Rightarrow> nat" where
  "delta_transitions blocks = length (filter (\<lambda>(w0, w1).
      fle (Fin 2) (fabs (fsub b64 w1 w0))
      \<and> (fle ENTROPY_SUSPICIOUS_THRESHOLD w0 \<or> fle ENTROPY_SUSPICIOUS_THRESHOLD w1))
    (zip blocks (tl blocks)))"

definition intermittent_score :: "fl \<Rightarrow> fl \<Rightarrow> fl \<Rightarrow> fl" where
  "intermittent_score max_e var transition_ratio =
    (if fle ENTROPY_RANSOMWARE_THRESHOLD max_e \<and> fle (Fin 1) var
     then fclamp (fadd b64 (fmul b64 transition_ratio (Fin (1 / 2)))
            (fmul b64 (fdiv b64 var (Fin 8)) (Fin (1 / 2)))) (Fin 0) (Fin 1)
     else Fin 0)"

definition differential_entropy :: "fl list \<Rightarrow> SparseEntropySummary" where
  "differential_entropy blocks =
    (if blocks = [] then
       \<lparr>total_blocks = 0, mean_entropy = Fin 0, max_entropy = Fin 0, min_entropy = Fin 0,
        variance = Fin 0, high_entropy_ratio = Fin 0, intermittent_encryption_score = Fin 0,
        is_anomalous = False\<rparr>
     else
       let n = fl_of_nat b64 (length blocks);
           sum = foldl (fadd b64) (Fin 0) blocks;
           max_e = foldl (\<lambda>m e. if flt m e then e else m) (Fin 0) blocks;
           min_e = foldl (\<lambda>m e. if flt e m then e else m) ENTROPY_MAX blocks;
           high_count = high_blocks blocks;
           mean = fdiv b64 sum n;
           var_sum = foldl (\<lambda>s e. let diff = fsub b64 e mean in fadd b64 s (fmul b64 diff diff)) (Fin 0) blocks;
           var = fdiv b64 var_sum n;
           high_ratio = fdiv b64 (fl_of_nat b64 high_count) n;
           transition_ratio = (if length blocks > 1
             then fdiv b64 (fl_of_nat b64 (delta_transitions blocks)) (fl_of_nat b64 (length blocks - 1))
             else Fin 0);
           score = intermittent_score max_e var transition_ratio
       in \<lparr>total_blocks = length blocks, mean_entropy = mean, max_entropy = max_e, min_entropy = min_e,
           variance = var, high_entropy_ratio = high_ratio, intermittent_encryption_score = score,
           is_anomalous = (fle (fround b64 (7 / 10)) high_ratio
             \<or> (high_count \<ge> 2 \<and> fle (fround b64 (35 / 100)) score))\<rparr>)"

subsection \<open>The sliding window\<close>

definition DEFAULT_SLIDING_WINDOW_MS :: u64 where
  [kavach_const]: "DEFAULT_SLIDING_WINDOW_MS = 50"

definition DEFAULT_SUSPENSION_FILE_THRESHOLD :: nat where
  [kavach_const]: "DEFAULT_SUSPENSION_FILE_THRESHOLD = 3"

definition NPU_TIME_SLOTS :: nat where
  [kavach_const]: "NPU_TIME_SLOTS = 10"

definition NPU_FEATURES_PER_SLOT :: nat where
  [kavach_const]: "NPU_FEATURES_PER_SLOT = 4"

record FileOperationEvent =
  file_pid :: u32
  file_timestamp_ms :: u64
  file_path :: string
  file_bytes_written :: nat
  block_entropies :: "fl list"
  is_rename :: bool

record ProcessBurstEvaluation =
  burst_pid :: u32
  window_start_ms :: u64
  burst_window_duration_ms :: u64
  total_writes :: nat
  total_renames :: nat
  total_bytes :: nat
  distinct_files :: "string list"
  entropy_summary :: SparseEntropySummary
  tensor_matrix :: "fl list list"
  recommended_action :: EnforcementAction
  burst_evidence_count :: u8
  burst_evidence_digest :: bytes

record WriteBurstTracker =
  window_duration_ms :: u64
  suspension_file_threshold :: nat
  events :: "FileOperationEvent list"

definition tracker_new :: WriteBurstTracker where
  "tracker_new = \<lparr>window_duration_ms = DEFAULT_SLIDING_WINDOW_MS,
     suspension_file_threshold = DEFAULT_SUSPENSION_FILE_THRESHOLD, events = []\<rparr>"

definition tracker_with_params :: "u64 \<Rightarrow> nat \<Rightarrow> WriteBurstTracker" where
  "tracker_with_params window threshold = \<lparr>window_duration_ms = window,
     suspension_file_threshold = threshold, events = []\<rparr>"

definition purge_expired :: "WriteBurstTracker \<Rightarrow> u64 \<Rightarrow> WriteBurstTracker" where
  "purge_expired t now =
    (let cutoff = saturating_sub now (window_duration_ms t)
     in t\<lparr>events := filter (\<lambda>e. file_timestamp_ms e \<ge> cutoff) (events t)\<rparr>)"

definition record_event :: "WriteBurstTracker \<Rightarrow> FileOperationEvent \<Rightarrow> u64 \<Rightarrow> WriteBurstTracker" where
  "record_event t e now = purge_expired (t\<lparr>events := events t @ [e]\<rparr>) now"

definition sum_bytes :: "FileOperationEvent list \<Rightarrow> nat" where
  "sum_bytes es = sum_list (map file_bytes_written es) mod 2 ^ 64"

definition bucket_row :: "FileOperationEvent list \<Rightarrow> fl list" where
  \<comment> \<open>the features of one time slot; no events leave the slot zero\<close>
  "bucket_row es =
    (if es = [] then replicate NPU_FEATURES_PER_SLOT (Fin 0)
     else let s = differential_entropy (concat (map block_entropies es)) in
       [fcast b32 (fdiv b64 (mean_entropy s) (Fin 8)),
        fclamp (fdiv b32 (fl_of_nat b32 (length (filter is_rename es))) (Fin 10)) (Fin 0) (Fin 1),
        fclamp (fdiv b32 (fl_of_nat b32 (sum_bytes es)) (Fin 65536)) (Fin 0) (Fin 1),
        fcast b32 (intermittent_encryption_score s)])"

definition bucket_bound :: "u64 \<Rightarrow> u64 \<Rightarrow> nat \<Rightarrow> u64" where
  \<comment> \<open>\<open>start_ms + (i as f64 * bucket_duration) as u64\<close>\<close>
  "bucket_bound start window i =
     start + f64_as_u64 (fmul b64 (fl_of_nat b64 i) (fdiv b64 (fl_of_nat b64 (unat window)) (Fin 10)))"

definition slot_matrix :: "u64 \<Rightarrow> u64 \<Rightarrow> FileOperationEvent list \<Rightarrow> fl list list" where
  "slot_matrix start window es =
    map (\<lambda>i. bucket_row (filter (\<lambda>e. file_timestamp_ms e \<ge> bucket_bound start window i
        \<and> file_timestamp_ms e < bucket_bound start window (i + 1)) es)) [0 ..< NPU_TIME_SLOTS]"

definition count_if :: "bool \<Rightarrow> u8" where
  "count_if b = (if b then 1 else 0)"

definition evaluate_pid ::
    "(bytes \<Rightarrow> bytes) \<Rightarrow> WriteBurstTracker \<Rightarrow> u32 \<Rightarrow> u64 \<Rightarrow> ProcessBurstEvaluation option" where
  "evaluate_pid sha256 t pid now =
    (let pid_events = filter (\<lambda>e. file_pid e = pid) (events t) in
     if pid_events = [] then None
     else
       let writes = length (filter (\<lambda>e. \<not> is_rename e) pid_events);
           renames = length (filter is_rename pid_events);
           bytes_total = sum_bytes pid_events;
           sorted_files = sort (remdups (map file_path pid_events));
           summary = differential_entropy (concat (map block_entropies pid_events));
           start_ms = saturating_sub now (window_duration_ms t);
           evidence = count_if (fle (fround b64 (795 / 100)) (max_entropy summary))
             + count_if (is_anomalous summary) + count_if (renames \<ge> 3)
             + count_if (length sorted_files \<ge> suspension_file_threshold t);
           digest = sha256 (u32_to_be_bytes pid @ u64_to_be_bytes (word_of_nat bytes_total)
             @ concat (map as_bytes sorted_files));
           action = (if is_anomalous summary \<and> length sorted_files \<ge> suspension_file_threshold t
             then SuspendAndAlert else Alert)
       in Some \<lparr>burst_pid = pid, window_start_ms = start_ms,
           burst_window_duration_ms = window_duration_ms t, total_writes = writes,
           total_renames = renames, total_bytes = bytes_total, distinct_files = sorted_files,
           entropy_summary = summary,
           tensor_matrix = slot_matrix start_ms (window_duration_ms t) pid_events,
           recommended_action = action, burst_evidence_count = evidence,
           burst_evidence_digest = digest\<rparr>)"

definition tripwire_tensor_matrix :: "(bytes \<Rightarrow> bytes) \<Rightarrow> WriteBurstTracker \<Rightarrow> fl list list" where
  "tripwire_tensor_matrix sha256 t =
    (let zero = replicate NPU_TIME_SLOTS (replicate NPU_FEATURES_PER_SLOT (Fin 0)) in
     if events t = [] then zero
     else (case evaluate_pid sha256 t (file_pid (last (events t))) (file_timestamp_ms (last (events t))) of
         Some eval \<Rightarrow> tensor_matrix eval
       | None \<Rightarrow> zero))"

definition make_write_event :: "(fl \<Rightarrow> fl) \<Rightarrow> u32 \<Rightarrow> u64 \<Rightarrow> string \<Rightarrow> bytes \<Rightarrow> bool \<Rightarrow> FileOperationEvent" where
  "make_write_event log2 pid ts p data rename = \<lparr>file_pid = pid, file_timestamp_ms = ts, file_path = p,
     file_bytes_written = length data, block_entropies = block_entropy_scan log2 data DEFAULT_BLOCK_SIZE,
     is_rename = rename\<rparr>"

record EntropyEngine =
  tracker :: WriteBurstTracker

definition entropy_engine_new :: EntropyEngine where
  "entropy_engine_new = \<lparr>tracker = tracker_new\<rparr>"

definition entropy_engine_with_params :: "u64 \<Rightarrow> nat \<Rightarrow> EntropyEngine" where
  "entropy_engine_with_params window threshold = \<lparr>tracker = tracker_with_params window threshold\<rparr>"

definition ingest_operation ::
    "(fl \<Rightarrow> fl) \<Rightarrow> (bytes \<Rightarrow> bytes) \<Rightarrow> EntropyEngine \<Rightarrow> u32 \<Rightarrow> string \<Rightarrow> bytes \<Rightarrow> bool \<Rightarrow> u64
      \<Rightarrow> ProcessBurstEvaluation option \<times> EntropyEngine" where
  "ingest_operation log2 sha256 eng pid p data rename now =
    (let e = make_write_event log2 pid now p data rename;
         t = record_event (tracker eng) e now
     in (evaluate_pid sha256 t pid now, eng\<lparr>tracker := t\<rparr>))"

definition calculate_entropy :: "(fl \<Rightarrow> fl) \<Rightarrow> bytes \<Rightarrow> fl" where
  "calculate_entropy log2 bs = shannon_entropy log2 bs"

definition evaluate_blocks :: "fl list \<Rightarrow> SparseEntropySummary" where
  "evaluate_blocks blocks = differential_entropy blocks"

subsection \<open>Summary scores\<close>

lemma b64_ratio:
  assumes "k \<le> n" "0 < n" "n < 2 ^ 53"
  shows "fdiv b64 (fl_of_nat b64 k) (fl_of_nat b64 n) = fround b64 (of_nat k / of_nat n)"
  using assms by (simp add: fl_of_nat_exact fdiv_fin)

lemma unit_ratio:
  assumes "k \<le> n" "0 < n" "n < 2 ^ 53"
  shows "unit_score (fdiv b64 (fl_of_nat b64 k) (fl_of_nat b64 n))"
  unfolding b64_ratio [OF assms] using assms by (intro unit_score_fround) (simp_all add: fround_one)

lemma intermittent_score_unit: "nonneg t \<Longrightarrow> unit_score (intermittent_score m v t)"
proof -
  assume t: "nonneg t"
  show ?thesis
  proof (cases "fle ENTROPY_RANSOMWARE_THRESHOLD m \<and> fle (Fin 1) v")
    case True
    then have "nonneg v" by (auto intro: fge_nonneg)
    then have "nonneg (fadd b64 (fmul b64 t (Fin (1 / 2))) (fmul b64 (fdiv b64 v (Fin 8)) (Fin (1 / 2))))"
      using t by (intro nonneg_fadd nonneg_fmul nonneg_fdiv) simp_all
    then show ?thesis using True nonneg_not_NaN by (simp add: intermittent_score_def unit_score_clamp)
  next
    case False
    then show ?thesis by (auto simp: intermittent_score_def)
  qed
qed

lemma delta_transitions_le: "blocks \<noteq> [] \<Longrightarrow> delta_transitions blocks \<le> length blocks - 1"
  unfolding delta_transitions_def by (rule order.trans [OF length_filter_le]) simp

lemma high_blocks_le: "high_blocks blocks \<le> length blocks"
  by (simp add: high_blocks_def)

lemma summary_scores:
  assumes "length blocks < 2 ^ 53"
  shows "unit_score (intermittent_encryption_score (differential_entropy blocks))"
    and "unit_score (high_entropy_ratio (differential_entropy blocks))"
proof -
  let ?tr = "if length blocks > 1
    then fdiv b64 (fl_of_nat b64 (delta_transitions blocks)) (fl_of_nat b64 (length blocks - 1)) else Fin 0"
  have "length blocks - 1 < 2 ^ 53" using assms by simp
  then have "nonneg ?tr" if "blocks \<noteq> []"
    using unit_ratio [OF delta_transitions_le [OF that]] unit_score_nonneg by auto
  then show "unit_score (intermittent_encryption_score (differential_entropy blocks))"
    by (cases "blocks = []") (simp_all add: differential_entropy_def Let_def intermittent_score_unit)
  show "unit_score (high_entropy_ratio (differential_entropy blocks))"
    using unit_ratio [of "high_blocks blocks" "length blocks"] high_blocks_le [of blocks] assms
    by (cases "blocks = []") (simp_all add: differential_entropy_def Let_def)
qed

lemma sustained_anomalous:
  assumes "length blocks < 2 ^ 53" "blocks \<noteq> []" "7 * length blocks \<le> 10 * high_blocks blocks"
  shows "is_anomalous (differential_entropy blocks)"
proof -
  have "of_nat (7 * length blocks) \<le> (of_nat (10 * high_blocks blocks) :: rat)"
    using assms(3) by (simp only: of_nat_le_iff)
  then have "(7 :: rat) / 10 \<le> of_nat (high_blocks blocks) / of_nat (length blocks)"
    using assms(2) by (simp add: field_simps)
  then have "fle (fround b64 (7 / 10)) (fdiv b64 (fl_of_nat b64 (high_blocks blocks)) (fl_of_nat b64 (length blocks)))"
    using assms(1,2) high_blocks_le [of blocks] by (subst b64_ratio) (simp_all add: fround_mono_nonneg)
  then show ?thesis using assms(2) by (simp add: differential_entropy_def Let_def)
qed

subsection \<open>The window over a history\<close>

record file_op =
  op_pid :: u32
  op_path :: string
  op_data :: bytes
  op_rename :: bool
  op_now :: u64

definition op_event :: "(fl \<Rightarrow> fl) \<Rightarrow> file_op \<Rightarrow> FileOperationEvent" where
  "op_event log2 x = make_write_event log2 (op_pid x) (op_now x) (op_path x) (op_data x) (op_rename x)"

definition ingest :: "(fl \<Rightarrow> fl) \<Rightarrow> (bytes \<Rightarrow> bytes) \<Rightarrow> EntropyEngine \<Rightarrow> file_op
    \<Rightarrow> ProcessBurstEvaluation option \<times> EntropyEngine" where
  "ingest log2 sha256 eng x =
     ingest_operation log2 sha256 eng (op_pid x) (op_path x) (op_data x) (op_rename x) (op_now x)"

definition tripwire_run :: "(fl \<Rightarrow> fl) \<Rightarrow> (bytes \<Rightarrow> bytes) \<Rightarrow> EntropyEngine \<Rightarrow> file_op list \<Rightarrow> EntropyEngine" where
  "tripwire_run log2 sha256 eng xs = foldl (\<lambda>e x. snd (ingest log2 sha256 e x)) eng xs"

lemma ingest_tracker:
  "tracker (snd (ingest log2 sha256 eng x)) = record_event (tracker eng) (op_event log2 x) (op_now x)"
  by (simp add: ingest_def ingest_operation_def op_event_def Let_def)

lemma record_event_fields [simp]:
  "window_duration_ms (record_event t e now) = window_duration_ms t"
  "suspension_file_threshold (record_event t e now) = suspension_file_threshold t"
  "events (record_event t e now) =
     filter (\<lambda>e. saturating_sub now (window_duration_ms t) \<le> file_timestamp_ms e) (events t @ [e])"
  by (simp_all add: record_event_def purge_expired_def Let_def)

lemma op_event_ts [simp]: "file_timestamp_ms (op_event log2 x) = op_now x" "file_pid (op_event log2 x) = op_pid x"
  "file_path (op_event log2 x) = op_path x"
  by (simp_all add: op_event_def make_write_event_def)

lemma saturating_sub_mono: "a \<le> b \<Longrightarrow> saturating_sub a w \<le> saturating_sub b w" for a b w :: u64
  by (simp add: word_le_nat_alt unat_saturating_sub)

definition recent :: "u64 \<Rightarrow> (fl \<Rightarrow> fl) \<Rightarrow> file_op list \<Rightarrow> u64 \<Rightarrow> FileOperationEvent list" where
  \<comment> \<open>the operations of the last window, as events\<close>
  "recent w log2 xs now = map (op_event log2) (filter (\<lambda>x. saturating_sub now w \<le> op_now x) xs)"

lemma run_events:
  assumes "sorted (map op_now xs)" "xs \<noteq> []"
  shows "events (tracker (tripwire_run log2 sha256 (entropy_engine_with_params w th) xs))
       = recent w log2 xs (op_now (last xs))
    \<and> window_duration_ms (tracker (tripwire_run log2 sha256 (entropy_engine_with_params w th) xs)) = w
    \<and> suspension_file_threshold (tracker (tripwire_run log2 sha256 (entropy_engine_with_params w th) xs)) = th"
  using assms
proof (induction xs rule: rev_induct)
  case Nil
  then show ?case by simp
next
  case (snoc x xs)
  show ?case
  proof (cases "xs = []")
    case True
    then show ?thesis
      by (simp add: tripwire_run_def ingest_tracker entropy_engine_with_params_def tracker_with_params_def recent_def)
  next
    case False
    then have "op_now (last xs) \<le> op_now x" using snoc.prems(1) by (simp add: sorted_append)
    then have "saturating_sub (op_now (last xs)) w \<le> saturating_sub (op_now x) w" by (rule saturating_sub_mono)
    then have "filter (\<lambda>e. saturating_sub (op_now x) w \<le> file_timestamp_ms e) (recent w log2 xs (op_now (last xs)))
        = recent w log2 xs (op_now x)"
      unfolding recent_def filter_map filter_filter o_def op_event_ts
      by (intro arg_cong [of _ _ "map (op_event log2)"] filter_cong refl) auto
    then show ?thesis
      using False snoc by (simp add: tripwire_run_def ingest_tracker sorted_append recent_def)
  qed
qed

lemma evaluate_pid_Some:
  assumes "evaluate_pid sha256 t pid now = Some ev"
  defines "es \<equiv> filter (\<lambda>e. file_pid e = pid) (events t)"
  shows "es \<noteq> []" "entropy_summary ev = differential_entropy (concat (map block_entropies es))"
    "distinct_files ev = sort (remdups (map file_path es))"
    "recommended_action ev = (if is_anomalous (entropy_summary ev)
       \<and> length (distinct_files ev) \<ge> suspension_file_threshold t then SuspendAndAlert else Alert)"
    "tensor_matrix ev = slot_matrix (saturating_sub now (window_duration_ms t)) (window_duration_ms t) es"
    "burst_evidence_count ev \<le> 4"
  using assms
  by (auto simp: evaluate_pid_def es_def Let_def count_if_def split: if_splits)

lemma evaluate_pid_None: "evaluate_pid sha256 t pid now = None \<longleftrightarrow> (\<forall>e \<in> set (events t). file_pid e \<noteq> pid)"
  by (simp add: evaluate_pid_def Let_def filter_empty_conv)

lemma ingest_evaluation:
  "fst (ingest log2 sha256 eng x) = evaluate_pid sha256 (tracker (snd (ingest log2 sha256 eng x))) (op_pid x) (op_now x)"
  by (simp add: ingest_def ingest_operation_def Let_def)

lemma bucket_bound_default: "i \<le> 10 \<Longrightarrow> bucket_bound start 50 i = start + word_of_nat (5 * i)"
proof -
  assume i: "i \<le> 10"
  have "fdiv b64 (fl_of_nat b64 (unat (50 :: u64))) (Fin 10) = Fin 5"
    using fround_int_formats(2) [of 5] by (simp add: fl_of_nat_exact fdiv_fin)
  moreover have "fmul b64 (fl_of_nat b64 i) (Fin 5) = Fin (of_nat (5 * i))"
    using fround_int_formats(2) [of "int (5 * i)"] i by (simp add: fl_of_nat_exact fmul_fin mult.commute)
  ultimately show ?thesis
    using i f64_as_u64_nat [of "5 * i"] by (simp add: bucket_bound_def del: of_nat_mult)
qed

lemma default_buckets_before_now:
  assumes "50 \<le> now" "i < 10" "ts < bucket_bound (now - 50) 50 (i + 1)"
  shows "ts < now"
proof -
  let ?w = "word_of_nat (5 * (i + 1)) :: u64"
  have b: "bucket_bound (now - 50) 50 (i + 1) = (now - 50) + ?w"
    using assms(2) by (intro bucket_bound_default) simp
  have u: "unat (now - 50) = unat now - 50" "50 \<le> unat now"
    using assms(1) by (simp_all add: unat_minus_le word_le_nat_alt)
  have w: "unat ?w = 5 * (i + 1)" using assms(2) by (intro unat_of_nat_small) simp
  have le: "unat (now - 50) + unat ?w \<le> unat now"
    unfolding u(1) w using u(2) assms(2) by arith
  then have "unat ((now - 50) + ?w) = unat (now - 50) + unat ?w"
    using unat_bound [of now] by (intro unat_add_no_wrap) linarith
  with le b assms(3) show ?thesis by (simp add: word_less_nat_alt)
qed

lemma default_slots_ignore_now:
  assumes "50 \<le> now" "\<forall>e \<in> set new. file_timestamp_ms e = now"
  shows "slot_matrix (now - 50) 50 (es @ new) = slot_matrix (now - 50) 50 (filter (\<lambda>e. file_timestamp_ms e < now) es)"
proof -
  have "filter (\<lambda>e. bucket_bound (now - 50) 50 i \<le> file_timestamp_ms e
          \<and> file_timestamp_ms e < bucket_bound (now - 50) 50 (i + 1)) (es @ new)
      = filter (\<lambda>e. bucket_bound (now - 50) 50 i \<le> file_timestamp_ms e
          \<and> file_timestamp_ms e < bucket_bound (now - 50) 50 (i + 1)) (filter (\<lambda>e. file_timestamp_ms e < now) es)"
    if "i < 10" for i
  proof -
    have before: "ts < bucket_bound (now - 50) 50 (i + 1) \<Longrightarrow> ts < now" for ts
      using default_buckets_before_now [OF assms(1) that] .
    have "filter (\<lambda>e. bucket_bound (now - 50) 50 i \<le> file_timestamp_ms e
          \<and> file_timestamp_ms e < bucket_bound (now - 50) 50 (i + 1)) new = []"
      using assms(2) before by (fastforce simp: filter_empty_conv)
    moreover have "filter (\<lambda>e. bucket_bound (now - 50) 50 i \<le> file_timestamp_ms e
          \<and> file_timestamp_ms e < bucket_bound (now - 50) 50 (i + 1)) es
        = filter (\<lambda>e. file_timestamp_ms e < now \<and> bucket_bound (now - 50) 50 i \<le> file_timestamp_ms e
          \<and> file_timestamp_ms e < bucket_bound (now - 50) 50 (i + 1)) es"
      using before by (intro filter_cong refl) blast
    ultimately show ?thesis by (simp add: conj_ac)
  qed
  then show ?thesis by (simp add: slot_matrix_def kavach_const)
qed

text \<open>The evaluation returned for the last of a sequence of operations in time order.\<close>

lemma engine_evaluates:
  fixes log2 sha256 w th xs x
  assumes "sorted (map op_now (xs @ [x]))"
  defines "es \<equiv> filter (\<lambda>e. file_pid e = op_pid x) (recent w log2 (xs @ [x]) (op_now x))"
  shows "\<exists>ev. fst (ingest log2 sha256 (tripwire_run log2 sha256 (entropy_engine_with_params w th) xs) x) = Some ev
     \<and> entropy_summary ev = differential_entropy (concat (map block_entropies es))
     \<and> length (distinct_files ev) = card (file_path ` set es)
     \<and> recommended_action ev = (if is_anomalous (differential_entropy (concat (map block_entropies es)))
          \<and> th \<le> card (file_path ` set es) then SuspendAndAlert else Alert)
     \<and> burst_evidence_count ev \<le> 4"
proof -
  let ?t = "tracker (tripwire_run log2 sha256 (entropy_engine_with_params w th) (xs @ [x]))"
  have st: "events ?t = recent w log2 (xs @ [x]) (op_now x)" "suspension_file_threshold ?t = th"
    using run_events [OF assms(1), of log2 sha256 w th] by simp_all
  have ev: "fst (ingest log2 sha256 (tripwire_run log2 sha256 (entropy_engine_with_params w th) xs) x)
      = evaluate_pid sha256 ?t (op_pid x) (op_now x)"
    unfolding ingest_evaluation by (simp add: tripwire_run_def)
  have "op_event log2 x \<in> set (events ?t)"
    unfolding st recent_def by (simp add: saturating_sub_def word_le_nat_alt unat_minus_le)
  then obtain ev where Some: "evaluate_pid sha256 ?t (op_pid x) (op_now x) = Some ev"
    using evaluate_pid_None [of sha256 ?t "op_pid x" "op_now x"] by fastforce
  note f = evaluate_pid_Some [OF Some, unfolded st, folded es_def]
  have "length (distinct_files ev) = card (file_path ` set es)"
    unfolding f(3) by (simp add: length_remdups_card_conv)
  then show ?thesis using ev Some f by simp
qed

definition sample_ops :: "file_op list" where
  "sample_ops = map (\<lambda>p. \<lparr>op_pid = 7, op_path = p, op_data = [], op_rename = True, op_now = 1000\<rparr>) [''a'', ''b'']"

subsection \<open>Properties\<close>

text \<open>C16: over any history of operations in time order, the evaluation returned for the last one
  is exactly that of the operations of its process within the window: suspension is
  recommended if and only if their block entropies are anomalous and they touch at least the
  threshold of distinct paths; nothing stronger than suspension is ever recommended.\<close>

theorem tripwire_recommendation:
  fixes log2 sha256 w th xs x
  defines "es \<equiv> filter (\<lambda>e. file_pid e = op_pid x) (recent w log2 (xs @ [x]) (op_now x))"
  assumes "sorted (map op_now (xs @ [x]))"
  shows "\<exists>ev. fst (ingest log2 sha256 (tripwire_run log2 sha256 (entropy_engine_with_params w th) xs) x) = Some ev
     \<and> recommended_action ev = (if is_anomalous (differential_entropy (concat (map block_entropies es)))
          \<and> th \<le> card (file_path ` set es) then SuspendAndAlert else Alert)
     \<and> burst_evidence_count ev \<le> 4"
  using engine_evaluates [OF assms(2), of log2 sha256 w th] unfolding es_def by metis

theorem tripwire_recommendation_witness:
  "\<exists>ev. fst (ingest (\<lambda>_. NaN) (\<lambda>b. b) (tripwire_run (\<lambda>_. NaN) (\<lambda>b. b) (entropy_engine_with_params 50 3) [hd sample_ops])
      (last sample_ops)) = Some ev \<and> recommended_action ev = Alert \<and> burst_evidence_count ev \<le> 4"
proof -
  have "sorted (map op_now ([hd sample_ops] @ [last sample_ops]))" by (simp add: sample_ops_def)
  then show ?thesis
    using tripwire_recommendation [of "[hd sample_ops]" "last sample_ops" "\<lambda>_. NaN" "\<lambda>b. b" 50 3]
    by (auto simp: sample_ops_def recent_def op_event_def make_write_event_def block_entropy_scan_def
        differential_entropy_def)
qed

text \<open>Sustained encryption is never missed: if at least seven tenths of the evaluated blocks
  reach the ransomware threshold, the summary is anomalous. The comparison is on rounded
  floating-point ratios; a block count below \<open>2 ^ 53\<close> makes it agree with the exact one.\<close>

theorem sustained_encryption_flagged:
  assumes "length blocks < 2 ^ 53" "blocks \<noteq> []"
    and "7 * length blocks \<le> 10 * length (filter (\<lambda>e. fle ENTROPY_RANSOMWARE_THRESHOLD e) blocks)"
  shows "is_anomalous (differential_entropy blocks)"
  using assms by (intro sustained_anomalous) (simp_all add: high_blocks_def)

theorem sustained_encryption_flagged_witness: "is_anomalous (differential_entropy [Fin 8, Fin 8])"
proof (rule sustained_encryption_flagged)
  have "fle ENTROPY_RANSOMWARE_THRESHOLD (Fin 8)"
    using fround_mono_nonneg [of "795 / 100" 8 b64] fround_int_formats(2) [of 8]
    by (simp add: ENTROPY_RANSOMWARE_THRESHOLD_def)
  then show "7 * length [Fin 8, Fin 8] \<le> 10 * length (filter (\<lambda>e. fle ENTROPY_RANSOMWARE_THRESHOLD e) [Fin 8, Fin 8])"
    by simp
qed simp_all

text \<open>The ratio of high-entropy blocks and the intermittent-encryption score are numbers
  between 0 and 1 whatever the block entropies are, NaN and infinities included: no input
  can turn them into NaN or push them out of range.\<close>

theorem entropy_scores_in_range:
  assumes "length blocks < 2 ^ 53"
  shows "unit_score (intermittent_encryption_score (differential_entropy blocks))
    \<and> unit_score (high_entropy_ratio (differential_entropy blocks))"
  using summary_scores [OF assms] by simp

theorem entropy_scores_in_range_witness:
  "unit_score (intermittent_encryption_score (differential_entropy [NaN, PosInf, Fin 8]))
    \<and> unit_score (high_entropy_ratio (differential_entropy [NaN, PosInf, Fin 8]))"
  by (rule entropy_scores_in_range) simp

text \<open>The operation being ingested is missing from the tensor it produces: with the default
  window the ten time slots end before the current time, so the matrix returned for an
  operation depends only on operations with earlier time stamps.\<close>

theorem newest_operation_not_in_tensor:
  assumes "window_duration_ms (tracker eng) = 50" and "50 \<le> now"
    and "fst (ingest_operation log2 sha256 eng pid p data rename now) = Some ev"
  shows "tensor_matrix ev = slot_matrix (now - 50) 50
     (filter (\<lambda>e. file_timestamp_ms e < now)
       (filter (\<lambda>e. file_pid e = pid \<and> now - 50 \<le> file_timestamp_ms e) (events (tracker eng))))"
proof -
  let ?e = "make_write_event log2 pid now p data rename"
  have sub: "saturating_sub now 50 = now - 50" using assms(2) by (simp add: saturating_sub_def)
  have ts: "file_timestamp_ms ?e = now" "file_pid ?e = pid" by (simp_all add: make_write_event_def)
  have le: "now - 50 \<le> now" using assms(2) by (simp add: word_le_nat_alt unat_minus_le)
  have ev: "evaluate_pid sha256 (record_event (tracker eng) ?e now) pid now = Some ev"
    using assms(3) by (simp add: ingest_operation_def Let_def)
  have "filter (\<lambda>e. file_pid e = pid) (events (record_event (tracker eng) ?e now))
      = filter (\<lambda>e. file_pid e = pid \<and> now - 50 \<le> file_timestamp_ms e) (events (tracker eng)) @ [?e]"
    using ts le by (simp add: assms(1) sub conj_commute)
  then show ?thesis
    using evaluate_pid_Some(5) [OF ev] default_slots_ignore_now [OF assms(2), of "[?e]"] ts
    by (simp add: assms(1) sub)
qed

theorem newest_operation_not_in_tensor_witness:
  "tensor_matrix (the (fst (ingest_operation (\<lambda>_. NaN) (\<lambda>b. b) entropy_engine_new 7 ''x'' (replicate 4096 1) True 1000)))
     = slot_matrix 950 50 []"
proof -
  have "\<exists>ev. fst (ingest_operation (\<lambda>_. NaN) (\<lambda>b. b) entropy_engine_new 7 ''x'' (replicate 4096 1) True 1000) = Some ev"
    by (simp add: ingest_operation_def evaluate_pid_def make_write_event_def entropy_engine_new_def
        tracker_new_def saturating_sub_def kavach_const Let_def)
  then show ?thesis
    using newest_operation_not_in_tensor [of entropy_engine_new 1000 "\<lambda>_. NaN" "\<lambda>b. b" 7 "''x''" "replicate 4096 1" True]
    by (auto simp: entropy_engine_new_def tracker_new_def kavach_const)
qed

end
