(* ===== verification/Kavach_Rules.thy ===== *)
theory Kavach_Rules
  imports Kavach_Prelude "HOL-Library.AList" "HOL-Library.Multiset"
begin

section \<open>Dynamic firewall rules\<close>

text \<open>
  Models \<open>crates/kavach-firewall/src/rule.rs\<close> (the rule registry), the \<open>WfpClient\<close> of
  \<open>crates/kavach-firewall/src/lib.rs\<close> and the \<open>WfpDriver\<close> of
  \<open>crates/kavach-sensors/src/wfp_driver.rs\<close>. A \<open>HashMap\<close> is an association list with
  distinct keys (its order is not observable in the operations used here). The registry
  refines a multiset of quarantined targets: one element per live rule.
\<close>

definition FWPM_FILTER_FLAG_CLEAR_ACTION_ON_SHUTDOWN :: u32 where
  [kavach_const]: "FWPM_FILTER_FLAG_CLEAR_ACTION_ON_SHUTDOWN = 0x00000010"

datatype IpAddr = V4 "32 word" | V6 "128 word"

datatype QuarantineTarget =
    DestinationIpPort IpAddr "u16 option" u8 \<comment> \<open>ip, port, protocol\<close>
  | WslVirtualSwitch string

record DynamicFilterRule =
  filter_id :: u64
  target :: QuarantineTarget
  created_at_ms :: u64
  wfp_flags :: u32
  is_active :: bool

record WfpRuleRegistry =
  rules :: "(u64 \<times> DynamicFilterRule) list"
  next_filter_id :: u64

definition registry_new :: WfpRuleRegistry where
  "registry_new = \<lparr>rules = [], next_filter_id = 1\<rparr>"

definition add_quarantine_rule ::
    "WfpRuleRegistry \<Rightarrow> QuarantineTarget \<Rightarrow> u64 \<Rightarrow> u64 \<times> WfpRuleRegistry" where
  "add_quarantine_rule reg tgt now_ms =
    (let id = next_filter_id reg;
         rule = \<lparr>filter_id = id, target = tgt, created_at_ms = now_ms,
                 wfp_flags = FWPM_FILTER_FLAG_CLEAR_ACTION_ON_SHUTDOWN, is_active = True\<rparr>
     in (id, \<lparr>rules = AList.update id rule (rules reg), next_filter_id = next_filter_id reg + 1\<rparr>))"

definition remove_rule :: "WfpRuleRegistry \<Rightarrow> u64 \<Rightarrow> bool \<times> WfpRuleRegistry" where
  "remove_rule reg fid =
    (map_of (rules reg) fid \<noteq> None, reg\<lparr>rules := AList.delete fid (rules reg)\<rparr>)"

definition active_rule_count :: "WfpRuleRegistry \<Rightarrow> nat" where
  "active_rule_count reg = length (rules reg)"

definition is_quarantined :: "WfpRuleRegistry \<Rightarrow> QuarantineTarget \<Rightarrow> bool" where
  "is_quarantined reg tgt = list_ex (\<lambda>(_, r). is_active r \<and> target r = tgt) (rules reg)"

definition clear_all_on_shutdown :: "WfpRuleRegistry \<Rightarrow> WfpRuleRegistry" where
  "clear_all_on_shutdown reg = reg\<lparr>rules := []\<rparr>"

subsection \<open>The registry invariant and the multiset it refines\<close>

definition registry_inv :: "WfpRuleRegistry \<Rightarrow> bool" where
  "registry_inv reg \<longleftrightarrow> distinct (map fst (rules reg))
     \<and> (\<forall>(k, r) \<in> set (rules reg). filter_id r = k \<and> is_active r
          \<and> wfp_flags r = FWPM_FILTER_FLAG_CLEAR_ACTION_ON_SHUTDOWN
          \<and> k < next_filter_id reg)"

definition targets :: "WfpRuleRegistry \<Rightarrow> QuarantineTarget multiset" where
  "targets reg = image_mset (\<lambda>(_, r). target r) (mset (rules reg))"

definition ids_left :: "WfpRuleRegistry \<Rightarrow> bool" where
  \<comment> \<open>the next identifier can still be handed out without the counter wrapping to zero\<close>
  "ids_left reg \<longleftrightarrow> next_filter_id reg \<noteq> - 1"

lemma update_fresh: "k \<notin> set (map fst al) \<Longrightarrow> AList.update k v al = al @ [(k, v)]"
  by (induction al) auto

lemma mset_delete_present:
  "distinct (map fst al) \<Longrightarrow> map_of al k = Some v
   \<Longrightarrow> mset al = add_mset (k, v) (mset (AList.delete k al))"
proof (induction al)
  case Nil
  then show ?case by simp
next
  case (Cons p al)
  show ?case
  proof (cases "fst p = k")
    case True
    with Cons.prems have "k \<notin> fst ` set al" by auto
    then have "AList.delete k al = al" by simp
    with True Cons.prems show ?thesis by (cases p) simp
  next
    case False
    with Cons show ?thesis by (cases p) simp
  qed
qed

lemma registry_inv_new: "registry_inv registry_new"
  by (simp add: registry_inv_def registry_new_def)

lemma registry_inv_fresh: "registry_inv reg \<Longrightarrow> next_filter_id reg \<notin> set (map fst (rules reg))"
  by (fastforce simp: registry_inv_def)

lemma registry_inv_add:
  assumes "registry_inv reg" "ids_left reg"
  shows "registry_inv (snd (add_quarantine_rule reg tgt now))"
  using assms registry_inv_fresh [OF assms(1)]
  by (auto simp: registry_inv_def add_quarantine_rule_def Let_def update_fresh ids_left_def
      intro!: less_succ intro: less_imp_le)

lemma registry_inv_remove:
  "registry_inv reg \<Longrightarrow> registry_inv (snd (remove_rule reg fid))"
  by (auto simp: registry_inv_def remove_rule_def AList.delete_eq distinct_map_filter inj_on_def)

lemma registry_inv_clear: "registry_inv reg \<Longrightarrow> registry_inv (clear_all_on_shutdown reg)"
  by (simp add: registry_inv_def clear_all_on_shutdown_def)


lemma quarantined_iff_target:
  "registry_inv reg \<Longrightarrow> is_quarantined reg t \<longleftrightarrow> t \<in># targets reg"
  by (auto simp: registry_inv_def is_quarantined_def targets_def list_ex_iff image_iff
      split_def Ball_def Bex_def)

lemma targets_new [simp]: "targets registry_new = {#}"
  by (simp add: targets_def registry_new_def)

lemma targets_add:
  "registry_inv reg \<Longrightarrow> targets (snd (add_quarantine_rule reg t now)) = add_mset t (targets reg)"
  using registry_inv_fresh [of reg]
  by (simp add: targets_def add_quarantine_rule_def Let_def update_fresh)

lemma targets_remove_hit:
  assumes "registry_inv reg" "map_of (rules reg) fid = Some r"
  shows "targets reg = add_mset (target r) (targets (snd (remove_rule reg fid)))"
  using mset_delete_present [OF _ assms(2)] assms(1)
  by (simp add: targets_def remove_rule_def registry_inv_def)

lemma targets_remove_miss:
  "map_of (rules reg) fid = None \<Longrightarrow> remove_rule reg fid = (False, reg)"
  by (simp add: remove_rule_def map_of_eq_None_iff AList.delete_idem)

subsection \<open>\<open>WfpClient\<close>\<close>

record WfpClient =
  registry :: WfpRuleRegistry

definition client_new :: WfpClient where
  "client_new = \<lparr>registry = registry_new\<rparr>"

definition quarantine_target :: "WfpClient \<Rightarrow> QuarantineTarget \<Rightarrow> u64 \<Rightarrow> u64 \<times> WfpClient" where
  "quarantine_target c t now_ms =
    (let (id, reg) = add_quarantine_rule (registry c) t now_ms in (id, c\<lparr>registry := reg\<rparr>))"

definition release_quarantine :: "WfpClient \<Rightarrow> u64 \<Rightarrow> bool \<times> WfpClient" where
  "release_quarantine c fid =
    (let (found, reg) = remove_rule (registry c) fid in (found, c\<lparr>registry := reg\<rparr>))"

subsection \<open>\<open>WfpDriver\<close>\<close>

record WfpDriver =
  drv_registry :: WfpRuleRegistry
  active_filter_ids :: "u64 set"
  engine_handle :: nat
  is_live :: bool

definition driver_new :: WfpDriver where
  "driver_new = \<lparr>drv_registry = registry_new, active_filter_ids = {}, engine_handle = 0,
     is_live = False\<rparr>"

definition open_engine :: "WfpDriver \<Rightarrow> (string + unit) \<times> WfpDriver" where
  "open_engine d = (Ok (), d\<lparr>engine_handle := 1, is_live := True\<rparr>)"

definition add_quarantine ::
    "WfpDriver \<Rightarrow> QuarantineTarget \<Rightarrow> u64 \<Rightarrow> (string + u64) \<times> WfpDriver" where
  "add_quarantine d t now_ms =
    (let (rule_id, reg) = add_quarantine_rule (drv_registry d) t now_ms
     in (Ok rule_id, d\<lparr>drv_registry := reg,
                        active_filter_ids := insert rule_id (active_filter_ids d)\<rparr>))"

definition remove_quarantine :: "WfpDriver \<Rightarrow> u64 \<Rightarrow> (string + unit) \<times> WfpDriver" where
  "remove_quarantine d fid =
    (let (found, reg) = remove_rule (drv_registry d) fid; d = d\<lparr>drv_registry := reg\<rparr>
     in if found then (Ok (), d\<lparr>active_filter_ids := active_filter_ids d - {fid}\<rparr>)
        else (Err (''filter rule '' @ show_word fid @ '' not found''), d))"

definition active_filter_count :: "WfpDriver \<Rightarrow> nat" where
  "active_filter_count d = card (active_filter_ids d)"

definition driver_drop :: "WfpDriver \<Rightarrow> WfpDriver" where
  "driver_drop d = d\<lparr>drv_registry := clear_all_on_shutdown (drv_registry d),
     active_filter_ids := {}\<rparr>"

record process_api =
  \<comment> \<open>the Windows calls of \<open>suspend_process\<close>; handle 0 is null\<close>
  open_process :: "u32 \<Rightarrow> u64"
  get_ntdll_handle :: u64
  get_nt_suspend :: "(u64 \<Rightarrow> 32 word) option"

definition suspend_process ::
    "process_api \<Rightarrow> WfpDriver \<Rightarrow> u32 \<Rightarrow> (string + unit) \<times> u64 list" where
  \<comment> \<open>the second component lists the handles closed, in order\<close>
  "suspend_process os d pid =
    (if pid = 0 then (Err ''cannot suspend PID 0 (System Idle Process)'', [])
     else
       let h_process = open_process os pid in
       if h_process = 0 then (Err (''OpenProcess failed for PID '' @ show_word pid), [])
       else if get_ntdll_handle os = 0
         then (Err ''Failed to obtain ntdll.dll handle'', [h_process])
       else (case get_nt_suspend os of
           Some nt_suspend_fn \<Rightarrow>
             let status = nt_suspend_fn h_process in
             ((if 0 \<le> sint status then Ok ()
               else Err (''NtSuspendProcess returned NTSTATUS 0x'' @ show_hex (unat status))),
              [h_process])
         | None \<Rightarrow>
             (Err ''NtSuspendProcess function pointer not found in ntdll'', [h_process])))"

lemma suspend_process_closes:
  "snd (suspend_process os d pid)
     = (if pid \<noteq> 0 \<and> open_process os pid \<noteq> 0 then [open_process os pid] else [])"
  by (simp add: suspend_process_def Let_def split: option.split)

definition driver_inv :: "WfpDriver \<Rightarrow> bool" where
  "driver_inv d \<longleftrightarrow> registry_inv (drv_registry d)
     \<and> active_filter_ids d = fst ` set (rules (drv_registry d))"

inductive driver_step :: "WfpDriver \<Rightarrow> WfpDriver \<Rightarrow> bool" where
  drv_open: "driver_step d (snd (open_engine d))"
| drv_add: "ids_left (drv_registry d) \<Longrightarrow> driver_step d (snd (add_quarantine d t now))"
| drv_remove: "driver_step d (snd (remove_quarantine d fid))"
| drv_drop: "driver_step d (driver_drop d)"

inductive driver_reachable :: "WfpDriver \<Rightarrow> bool" where
  drv_start: "driver_reachable driver_new"
| drv_more: "driver_reachable d \<Longrightarrow> driver_step d d' \<Longrightarrow> driver_reachable d'"

inductive_cases driver_stepE: "driver_step d d'"

lemma driver_inv_add:
  "driver_inv d \<Longrightarrow> ids_left (drv_registry d) \<Longrightarrow> driver_inv (snd (add_quarantine d t now))"
  using registry_inv_add [of "drv_registry d" t now]
  by (auto simp: driver_inv_def add_quarantine_def add_quarantine_rule_def Let_def
      AList.dom_update split: prod.splits)

lemma keys_delete: "fst ` set (AList.delete k al) = fst ` set al - {k}"
  by (auto simp: AList.delete_eq image_iff)

lemma driver_inv_remove: "driver_inv d \<Longrightarrow> driver_inv (snd (remove_quarantine d fid))"
  using registry_inv_remove [of "drv_registry d" fid]
  by (cases "map_of (rules (drv_registry d)) fid")
    (simp_all add: driver_inv_def remove_quarantine_def remove_rule_def Let_def keys_delete
      map_of_eq_None_iff)

lemma driver_reachable_inv: "driver_reachable d \<Longrightarrow> driver_inv d"
proof (induction rule: driver_reachable.induct)
  case drv_start
  show ?case by (simp add: driver_inv_def driver_new_def registry_inv_new) (simp add: registry_new_def)
next
  case (drv_more d d')
  from drv_more.hyps(2) drv_more.IH show ?case
    by cases (auto simp: driver_inv_add driver_inv_remove, auto simp: driver_inv_def open_engine_def
        driver_drop_def registry_inv_clear clear_all_on_shutdown_def registry_inv_def)
qed


subsection \<open>Properties\<close>

text \<open>C23: the rule registry refines a multiset of targets. Under its invariant a target is
  reported quarantined exactly when it occurs in the multiset; adding a rule adds one
  occurrence under an identifier no live rule has, removing a live rule takes exactly the
  occurrence of its own target away (so a target with two rules stays quarantined),
  removing an unknown identifier changes nothing and returns false, and shutdown empties
  it; every operation keeps the invariant, which includes that each live rule carries the
  clear-on-shutdown flag.\<close>

theorem registry_refines_multiset:
  assumes inv: "registry_inv reg"
  shows "(is_quarantined reg t \<longleftrightarrow> t \<in># targets reg)
    \<and> active_rule_count reg = size (targets reg)
    \<and> (let (fid, reg') = add_quarantine_rule reg t now in
         ids_left reg \<longrightarrow> map_of (rules reg) fid = None \<and> registry_inv reg'
           \<and> targets reg' = add_mset t (targets reg))
    \<and> (let (found, reg') = remove_rule reg fid in
         registry_inv reg' \<and>
         (case map_of (rules reg) fid of
            None \<Rightarrow> \<not> found \<and> reg' = reg
          | Some r \<Rightarrow> found \<and> targets reg = add_mset (target r) (targets reg')))
    \<and> registry_inv (clear_all_on_shutdown reg)
    \<and> targets (clear_all_on_shutdown reg) = {#}"
proof -
  have fresh: "map_of (rules reg) (fst (add_quarantine_rule reg t now)) = None"
    using registry_inv_fresh [OF inv]
    by (simp add: add_quarantine_rule_def Let_def map_of_eq_None_iff)
  have found: "fst (remove_rule reg fid) \<longleftrightarrow> map_of (rules reg) fid \<noteq> None"
    by (simp add: remove_rule_def)
  have count: "active_rule_count reg = size (targets reg)"
    by (simp add: active_rule_count_def targets_def)
  have clear: "targets (clear_all_on_shutdown reg) = {#}"
    by (simp add: targets_def clear_all_on_shutdown_def)
  show ?thesis
    using inv fresh found count clear registry_inv_add [OF inv, of t now] registry_inv_remove [OF inv, of fid]
      targets_add [OF inv, of t now] targets_remove_hit [OF inv, of fid]
      targets_remove_miss [of reg fid]
    by (auto simp: quarantined_iff_target registry_inv_clear split_def Let_def split: option.split)
qed

theorem registry_refines_multiset_witness:
  "let reg = snd (add_quarantine_rule registry_new (WslVirtualSwitch ''vEthernet (WSL)'') 1000) in
   is_quarantined reg (WslVirtualSwitch ''vEthernet (WSL)'')
   \<and> targets (snd (remove_rule reg 1)) = {#}"
  using registry_refines_multiset [OF registry_inv_new,
      of "WslVirtualSwitch ''vEthernet (WSL)''" 1000 0]
  by (simp add: registry_new_def add_quarantine_rule_def is_quarantined_def targets_def
      remove_rule_def)

text \<open>In every reachable state of the WFP driver (any sequence of opening the engine,
  adding, removing and dropping, short of exhausting the 64-bit identifiers) the set of
  active filter identifiers is exactly the set of registered rules, so the reported count
  is the number of live rules, and dropping the driver leaves neither rules nor
  identifiers behind.\<close>

theorem driver_ids_match_rules:
  assumes "driver_reachable d"
  shows "active_filter_ids d = fst ` set (rules (drv_registry d))
    \<and> active_filter_count d = active_rule_count (drv_registry d)
    \<and> active_filter_ids (driver_drop d) = {} \<and> rules (drv_registry (driver_drop d)) = []"
  using driver_reachable_inv [OF assms]
  by (auto simp: driver_inv_def active_filter_count_def active_rule_count_def registry_inv_def
      driver_drop_def clear_all_on_shutdown_def distinct_card simp flip: set_map)

theorem driver_ids_match_rules_witness:
  "active_filter_count (snd (add_quarantine driver_new (WslVirtualSwitch ''w'') 5)) = 1"
proof -
  have "driver_reachable (snd (add_quarantine driver_new (WslVirtualSwitch ''w'') 5))"
    by (rule drv_more [OF drv_start], rule drv_add)
      (simp add: driver_new_def ids_left_def registry_new_def)
  from driver_ids_match_rules [OF this] show ?thesis
    by (simp add: active_rule_count_def add_quarantine_def add_quarantine_rule_def driver_new_def
        registry_new_def Let_def)
qed

end
