(* ===== verification/Kavach_Beacon.thy ===== *)
theory Kavach_Beacon
  imports Kavach_Rules Kavach_Float
begin

section \<open>The beacon detector\<close>

text \<open>
  Models the crate \<open>crates/kavach-beacon\<close>: the rolling window of 32 packets per flow (\<open>flow.rs\<close>),
  the rhythm analysis (\<open>detector.rs\<close>) and the engine with its flow registry (\<open>lib.rs\<close>). \<open>log10\<close>
  and SHA-256 are parameters. The registry is an association list; the order of its entries
  stands for the unspecified iteration order of the hash map.
\<close>

definition FLOW_WINDOW_SIZE :: nat where
  [kavach_const]: "FLOW_WINDOW_SIZE = 32"

definition FLOW_FEATURES_PER_PACKET :: nat where
  [kavach_const]: "FLOW_FEATURES_PER_PACKET = 4"

datatype PacketDirection = Outbound | Inbound

record PacketMeta =
  timestamp_ns :: u64
  payload_bytes :: u32
  packet_direction :: PacketDirection

record FlowKey =
  local_addr :: IpAddr
  local_port :: u16
  remote_addr :: IpAddr
  remote_port :: u16
  protocol :: u8

record RollingFlow =
  packets :: "PacketMeta list"
  total_packets_seen :: u64

definition flow_new :: RollingFlow where
  "flow_new = \<lparr>packets = [], total_packets_seen = 0\<rparr>"

definition is_full :: "RollingFlow \<Rightarrow> bool" where
  "is_full fw = (length (packets fw) = FLOW_WINDOW_SIZE)"

definition record_packet :: "RollingFlow \<Rightarrow> PacketMeta \<Rightarrow> bool \<times> RollingFlow" where
  "record_packet fw meta =
    (let ps = push_drop_first FLOW_WINDOW_SIZE (packets fw) meta
     in (length ps = FLOW_WINDOW_SIZE,
         fw\<lparr>packets := ps, total_packets_seen := total_packets_seen fw + 1\<rparr>))"

definition delta_ms :: "PacketMeta \<Rightarrow> PacketMeta \<Rightarrow> fl" where
  \<comment> \<open>milliseconds from the first packet to the second\<close>
  "delta_ms p p' = fdiv b64 (fl_of_nat b64 (unat (saturating_sub (timestamp_ns p') (timestamp_ns p)))) (Fin 1000000)"

definition packet_row :: "(fl \<Rightarrow> fl) \<Rightarrow> u64 \<Rightarrow> fl \<Rightarrow> fl \<Rightarrow> PacketMeta \<Rightarrow> fl list" where
  \<comment> \<open>first time stamp, total span, delta to the previous packet\<close>
  "packet_row log10 first_ts total_span_ns delta p =
    [fcast b32 (fclamp (fdiv b64 (log10 (fadd b64 (Fin 1) delta)) (Fin 5)) (Fin 0) (Fin 1)),
     fclamp (fdiv b32 (fl_of_nat b32 (unat (min (payload_bytes p) 1500))) (Fin 1500)) (Fin 0) (Fin 1),
     (case packet_direction p of Outbound \<Rightarrow> Fin 1 | Inbound \<Rightarrow> Fin (- 1)),
     fclamp (fdiv b32 (fl_of_nat b32 (unat (saturating_sub (timestamp_ns p) first_ts))) total_span_ns) (Fin 0) (Fin 1)]"

definition flow_tensor_matrix :: "(fl \<Rightarrow> fl) \<Rightarrow> RollingFlow \<Rightarrow> fl list list option" where
  "flow_tensor_matrix log10 fw =
    (if \<not> is_full fw then None
     else
       let ps = packets fw;
           first_ts = timestamp_ns (ps ! 0);
           last_ts = timestamp_ns (ps ! (FLOW_WINDOW_SIZE - 1));
           total_span_ns = fl_of_nat b32 (unat (max (saturating_sub last_ts first_ts) 1))
       in Some (packet_row log10 first_ts total_span_ns (Fin 0) (hd ps)
            # map (\<lambda>(p, p'). packet_row log10 first_ts total_span_ns (delta_ms p p') p') (zip ps (tl ps))))"

definition JITTER_CV_MAX :: fl where
  "JITTER_CV_MAX = fround b64 (35 / 100)"

definition MIN_BEACON_INTERVAL_MS :: fl where
  "MIN_BEACON_INTERVAL_MS = Fin 500"

record BeaconDetectionResult =
  mean_delta_ms :: fl
  std_dev_ms :: fl
  coefficient_of_variation :: fl
  jitter_score :: fl
  symmetry_score :: fl
  is_c2_beacon :: bool
  beacon_confidence :: fl
  beacon_tensor_matrix :: "fl list list"
  beacon_evidence_digest :: bytes

definition jitter_of :: "fl \<Rightarrow> fl \<Rightarrow> fl" where
  "jitter_of mean cv =
    (if fle MIN_BEACON_INTERVAL_MS mean \<and> fle cv JITTER_CV_MAX
     then fclamp (fsub b64 (Fin 1) (fdiv b64 cv JITTER_CV_MAX)) (Fin 0) (Fin 1)
     else Fin 0)"

definition balance_ratio :: "nat \<Rightarrow> nat \<Rightarrow> fl" where
  "balance_ratio outbound inbound =
    (if outbound > 0 \<and> inbound > 0
     then fdiv b64 (fl_of_nat b64 (min outbound inbound)) (fl_of_nat b64 (max outbound inbound))
     else Fin 0)"

definition evaluate_beacon_rhythm ::
    "(fl \<Rightarrow> fl) \<Rightarrow> (bytes \<Rightarrow> bytes) \<Rightarrow> RollingFlow \<Rightarrow> BeaconDetectionResult option" where
  "evaluate_beacon_rhythm log10 sha256 fw =
    (if \<not> is_full fw then None
     else
       let ps = packets fw;
           deltas = map (\<lambda>(p, p'). delta_ms p p') (zip ps (tl ps));
           outbound_count = length (filter (\<lambda>p. packet_direction p = Outbound) (tl ps));
           inbound_count = length (filter (\<lambda>p. packet_direction p = Inbound) (tl ps));
           small_payload_count = length (filter (\<lambda>p. payload_bytes p \<le> 512) (tl ps)) in
       if deltas = [] then None
       else
         let count = fl_of_nat b64 (length deltas);
             mean = fdiv b64 (fsum b64 deltas) count;
             var = fdiv b64 (fsum b64 (map (\<lambda>d. fmul b64 (fsub b64 d mean) (fsub b64 d mean)) deltas)) count;
             std_dev = fsqrt b64 var;
             cv = (if flt (Fin 0) mean then fdiv b64 std_dev mean else Fin 1);
             jitter = jitter_of mean cv;
             payload_ratio = fdiv b64 (fl_of_nat b64 small_payload_count) count;
             symmetry = fclamp (fadd b64 (fmul b64 (balance_ratio outbound_count inbound_count) (Fin (1 / 2)))
               (fmul b64 payload_ratio (Fin (1 / 2)))) (Fin 0) (Fin 1);
             conf = fclamp (fadd b64 (fmul b64 jitter (fround b64 (6 / 10)))
               (fmul b64 symmetry (fround b64 (4 / 10)))) (Fin 0) (Fin 1)
         in (case flow_tensor_matrix log10 fw of
             None \<Rightarrow> None
           | Some matrix \<Rightarrow> Some \<lparr>mean_delta_ms = mean, std_dev_ms = std_dev,
               coefficient_of_variation = cv, jitter_score = jitter, symmetry_score = symmetry,
               is_c2_beacon = (fle (Fin (1 / 2)) jitter \<and> fle (fround b64 (4 / 10)) symmetry),
               beacon_confidence = conf, beacon_tensor_matrix = matrix,
               beacon_evidence_digest = sha256 (concat (map f64_to_be_bytes deltas))\<rparr>))"

record TcnEngine =
  flows :: "(FlowKey \<times> RollingFlow) list"

definition tcn_new :: TcnEngine where
  "tcn_new = \<lparr>flows = []\<rparr>"

definition ingest_packet ::
    "(fl \<Rightarrow> fl) \<Rightarrow> (bytes \<Rightarrow> bytes) \<Rightarrow> TcnEngine \<Rightarrow> FlowKey \<Rightarrow> PacketMeta
      \<Rightarrow> BeaconDetectionResult option \<times> TcnEngine" where
  "ingest_packet log10 sha256 eng key meta =
    (let fw = (case map_of (flows eng) key of None \<Rightarrow> flow_new | Some fw \<Rightarrow> fw);
         (ready, fw') = record_packet fw meta
     in ((if ready then evaluate_beacon_rhythm log10 sha256 fw' else None),
         eng\<lparr>flows := AList.update key fw' (flows eng)\<rparr>))"

definition active_flow_count :: "TcnEngine \<Rightarrow> nat" where
  "active_flow_count eng = length (flows eng)"

fun first_matrix :: "(fl \<Rightarrow> fl) \<Rightarrow> RollingFlow list \<Rightarrow> fl list list option" where
  "first_matrix log10 [] = None"
| "first_matrix log10 (fw # fws) = (case flow_tensor_matrix log10 fw of
     Some m \<Rightarrow> Some m | None \<Rightarrow> first_matrix log10 fws)"

definition tcn_tensor_matrix :: "(fl \<Rightarrow> fl) \<Rightarrow> TcnEngine \<Rightarrow> fl list list" where
  "tcn_tensor_matrix log10 eng = (case first_matrix log10 (map snd (flows eng)) of
     Some m \<Rightarrow> m
   | None \<Rightarrow> replicate FLOW_WINDOW_SIZE (replicate FLOW_FEATURES_PER_PACKET (Fin 0)))"

definition tcn_clear :: "TcnEngine \<Rightarrow> TcnEngine" where
  "tcn_clear eng = eng\<lparr>flows := []\<rparr>"

interpretation packet_window: rolling_buffer FLOW_WINDOW_SIZE
    "push_drop_first FLOW_WINDOW_SIZE :: PacketMeta list \<Rightarrow> _ \<Rightarrow> _"
  by unfold_locales (simp_all add: push_drop_first_spec kavach_const)

subsection \<open>Flows over a history\<close>

definition tcn_run :: "(fl \<Rightarrow> fl) \<Rightarrow> (bytes \<Rightarrow> bytes) \<Rightarrow> (FlowKey \<times> PacketMeta) list \<Rightarrow> TcnEngine" where
  "tcn_run log10 sha256 xs = foldl (\<lambda>e (k, m). snd (ingest_packet log10 sha256 e k m)) tcn_new xs"

definition packets_of :: "FlowKey \<Rightarrow> (FlowKey \<times> PacketMeta) list \<Rightarrow> PacketMeta list" where
  "packets_of k xs = map snd (filter (\<lambda>(k', _). k' = k) xs)"

definition flow_of :: "PacketMeta list \<Rightarrow> RollingFlow" where
  "flow_of ps = \<lparr>packets = last_n 32 ps, total_packets_seen = word_of_nat (length ps)\<rparr>"

lemma record_packet_flow_of:
  "record_packet (flow_of ps) m = (32 \<le> length (ps @ [m]), flow_of (ps @ [m]))"
proof -
  have "push_drop_first 32 (last_n 32 ps) m = last_n 32 (ps @ [m])"
    by (simp add: push_drop_first_spec last_n_last_n_snoc)
  then show ?thesis by (auto simp: record_packet_def flow_of_def kavach_const Let_def)
qed

lemma flow_of_Nil: "flow_of [] = flow_new"
  by (simp add: flow_of_def flow_new_def last_n_def)

lemma ingest_packet_flows:
  "flows (snd (ingest_packet log10 sha256 e k m)) = AList.update k
     (snd (record_packet (case map_of (flows e) k of None \<Rightarrow> flow_new | Some fw \<Rightarrow> fw) m)) (flows e)"
  by (simp add: ingest_packet_def case_prod_beta Let_def)

lemma tcn_run_flow:
  "(case map_of (flows (tcn_run log10 sha256 xs)) k of None \<Rightarrow> flow_new | Some fw \<Rightarrow> fw) = flow_of (packets_of k xs)
   \<and> distinct (map fst (flows (tcn_run log10 sha256 xs)))"
proof (induction xs arbitrary: k rule: rev_induct)
  case Nil
  show ?case by (simp add: tcn_run_def tcn_new_def packets_of_def flow_of_Nil)
next
  case (snoc x xs)
  obtain k' m where x: "x = (k', m)" by (cases x)
  have run: "tcn_run log10 sha256 (xs @ [(k', m)]) = snd (ingest_packet log10 sha256 (tcn_run log10 sha256 xs) k' m)"
    by (simp add: tcn_run_def)
  show ?case
    using snoc.IH [of k] snoc.IH [of k']
    unfolding x run
    by (auto simp: ingest_packet_flows record_packet_flow_of AList.update_conv' AList.distinct_update
        packets_of_def)
qed

subsection \<open>Scores\<close>

lemma JITTER_CV_MAX_pos: "\<exists>r. JITTER_CV_MAX = Fin r \<and> 0 < r"
  unfolding JITTER_CV_MAX_def by (rule b64_fraction) simp_all

lemma jitter_unit: "unit_score (jitter_of mean cv)"
proof (cases "fle MIN_BEACON_INTERVAL_MS mean \<and> fle cv JITTER_CV_MAX")
  case True
  obtain r where r: "JITTER_CV_MAX = Fin r" "0 < r" using JITTER_CV_MAX_pos by blast
  have "cv \<noteq> NaN" using True by (auto dest: fle_not_NaN)
  then have "fsub b64 (Fin 1) (fdiv b64 cv (Fin r)) \<noteq> NaN"
    using r(2) by (intro fsub_fin_not_NaN fdiv_not_NaN)
  then show ?thesis using True r by (simp add: jitter_of_def unit_score_clamp)
next
  case False
  then show ?thesis by (auto simp: jitter_of_def)
qed

lemma jitter_half: "fle (Fin (1 / 2)) (jitter_of mean cv) \<Longrightarrow> fle MIN_BEACON_INTERVAL_MS mean \<and> fle cv JITTER_CV_MAX"
  by (auto simp: jitter_of_def fle_def fval_def split: if_splits)

lemma nat_ratio_nonneg: "0 < n \<Longrightarrow> n < 2 ^ 53 \<Longrightarrow> nonneg (fdiv b64 (fl_of_nat b64 k) (fl_of_nat b64 n))"
  by (simp add: fl_of_nat_exact nonneg_fdiv fl_of_nat_nonneg)

lemma balance_nonneg: "outb < 2 ^ 53 \<Longrightarrow> inb < 2 ^ 53 \<Longrightarrow> nonneg (balance_ratio outb inb)"
  by (auto simp: balance_ratio_def intro!: nat_ratio_nonneg)

lemma weighted_unit:
  assumes "nonneg a" "nonneg b" "0 < r" "0 < s"
  shows "unit_score (fclamp (fadd b64 (fmul b64 a (Fin r)) (fmul b64 b (Fin s))) (Fin 0) (Fin 1))"
  using assms nonneg_not_NaN by (intro unit_score_clamp) (metis nonneg_fadd nonneg_fmul)

lemma weights: "\<exists>r s. fround b64 (6 / 10) = Fin r \<and> 0 < r \<and> fround b64 (4 / 10) = Fin s \<and> 0 < s"
  using b64_fraction [of "6 / 10"] b64_fraction [of "4 / 10"] by auto

lemma full_deltas: "is_full fw \<Longrightarrow> length (zip (packets fw) (tl (packets fw))) = 31"
  by (simp add: is_full_def kavach_const)

lemma rhythm_scores:
  assumes "evaluate_beacon_rhythm log10 sha256 fw = Some r"
  shows "unit_score (jitter_score r)" "unit_score (symmetry_score r)" "unit_score (beacon_confidence r)"
    "jitter_score r = jitter_of (mean_delta_ms r) (coefficient_of_variation r)"
    "is_c2_beacon r \<longleftrightarrow> fle (Fin (1 / 2)) (jitter_score r) \<and> fle (fround b64 (4 / 10)) (symmetry_score r)"
proof -
  let ?ps = "packets fw"
  have full: "is_full fw" using assms by (auto simp: evaluate_beacon_rhythm_def split: if_splits)
  then have n: "length ?ps = 32" by (simp add: is_full_def kavach_const)
  let ?ob = "length (filter (\<lambda>p. packet_direction p = Outbound) (tl ?ps))"
    and ?ib = "length (filter (\<lambda>p. packet_direction p = Inbound) (tl ?ps))"
    and ?sm = "length (filter (\<lambda>p. payload_bytes p \<le> 512) (tl ?ps))"
  have le: "?ob \<le> 31" "?ib \<le> 31" "?sm \<le> 31"
    using n by (auto intro!: order.trans [OF length_filter_le])
  have sym: "symmetry_score r = fclamp (fadd b64 (fmul b64 (balance_ratio ?ob ?ib) (Fin (1 / 2)))
      (fmul b64 (fdiv b64 (fl_of_nat b64 ?sm) (fl_of_nat b64 31)) (Fin (1 / 2)))) (Fin 0) (Fin 1)"
    and jit: "jitter_score r = jitter_of (mean_delta_ms r) (coefficient_of_variation r)"
    and conf: "beacon_confidence r = fclamp (fadd b64 (fmul b64 (jitter_score r) (fround b64 (6 / 10)))
      (fmul b64 (symmetry_score r) (fround b64 (4 / 10)))) (Fin 0) (Fin 1)"
    and c2: "is_c2_beacon r \<longleftrightarrow> fle (Fin (1 / 2)) (jitter_score r) \<and> fle (fround b64 (4 / 10)) (symmetry_score r)"
    using assms n by (auto simp: evaluate_beacon_rhythm_def Let_def split: if_splits option.splits)
  show j: "unit_score (jitter_score r)" unfolding jit by (rule jitter_unit)
  have "nonneg (balance_ratio ?ob ?ib)" using le by (intro balance_nonneg) simp_all
  then show s: "unit_score (symmetry_score r)"
    unfolding sym by (intro weighted_unit nat_ratio_nonneg) simp_all
  show "unit_score (beacon_confidence r)"
    using weighted_unit [OF unit_score_nonneg [OF j] unit_score_nonneg [OF s]] weights unfolding conf by metis
  show "jitter_score r = jitter_of (mean_delta_ms r) (coefficient_of_variation r)" by (rule jit)
  show "is_c2_beacon r \<longleftrightarrow> fle (Fin (1 / 2)) (jitter_score r) \<and> fle (fround b64 (4 / 10)) (symmetry_score r)"
    by (rule c2)
qed

lemma full_evaluates: "is_full fw \<Longrightarrow> \<exists>r. evaluate_beacon_rhythm log10 sha256 fw = Some r"
proof -
  assume full: "is_full fw"
  have "zip (packets fw) (tl (packets fw)) \<noteq> []" using full_deltas [OF full] by (metis list.size(3) zero_neq_numeral)
  with full show ?thesis by (simp add: evaluate_beacon_rhythm_def flow_tensor_matrix_def Let_def)
qed

subsection \<open>Properties\<close>

text \<open>C19: flows do not influence each other and only full windows are judged: over any interleaving
  of packets, ingesting a packet yields a result exactly when its flow has seen at least 32
  packets, and that result is the analysis of the last 32 packets of this flow alone.\<close>

theorem beacon_flow_isolation:
  fixes log10 sha256 xs k m
  defines "ps \<equiv> packets_of k (xs @ [(k, m)])"
  shows "fst (ingest_packet log10 sha256 (tcn_run log10 sha256 xs) k m) =
     (if 32 \<le> length ps then evaluate_beacon_rhythm log10 sha256
          \<lparr>packets = last_n 32 ps, total_packets_seen = word_of_nat (length ps)\<rparr>
      else None)
   \<and> (fst (ingest_packet log10 sha256 (tcn_run log10 sha256 xs) k m) = None \<longleftrightarrow> length ps < 32)"
proof -
  have ps: "ps = packets_of k xs @ [m]" by (simp add: ps_def packets_of_def)
  have res: "fst (ingest_packet log10 sha256 (tcn_run log10 sha256 xs) k m) =
      (if 32 \<le> length ps then evaluate_beacon_rhythm log10 sha256 (flow_of ps) else None)"
    using tcn_run_flow [of log10 sha256 xs k] record_packet_flow_of [of "packets_of k xs" m]
    by (simp add: ingest_packet_def ps Let_def)
  have "\<exists>r. evaluate_beacon_rhythm log10 sha256 (flow_of ps) = Some r" if "32 \<le> length ps"
    using that by (intro full_evaluates) (simp add: is_full_def flow_of_def kavach_const)
  then show ?thesis using res by (auto simp: flow_of_def not_le)
qed

text \<open>Every result has jitter, symmetry and confidence between 0 and 1, whatever the packets,
  and a flow is called a beacon only with a mean interval of at least 500 ms and a coefficient
  of variation of at most 0.35.\<close>

theorem beacon_result_sound:
  assumes "evaluate_beacon_rhythm log10 sha256 fw = Some r"
  shows "unit_score (jitter_score r) \<and> unit_score (symmetry_score r) \<and> unit_score (beacon_confidence r)
    \<and> (is_c2_beacon r \<longrightarrow> fle (Fin 500) (mean_delta_ms r)
         \<and> fle (coefficient_of_variation r) (fround b64 (35 / 100)))"
  using rhythm_scores [OF assms] jitter_half
  by (auto simp: MIN_BEACON_INTERVAL_MS_def JITTER_CV_MAX_def)

definition sample_flow :: RollingFlow where
  "sample_flow = flow_of (replicate 32 \<lparr>timestamp_ns = 5, payload_bytes = 100, packet_direction = Outbound\<rparr>)"

theorem beacon_result_sound_witness:
  "\<exists>r. evaluate_beacon_rhythm (\<lambda>_. Fin 0) (\<lambda>b. b) sample_flow = Some r
     \<and> unit_score (jitter_score r) \<and> unit_score (symmetry_score r) \<and> unit_score (beacon_confidence r)"
proof -
  have "is_full sample_flow" by (simp add: sample_flow_def flow_of_def is_full_def kavach_const)
  then obtain r where r: "evaluate_beacon_rhythm (\<lambda>_. Fin 0) (\<lambda>b. b) sample_flow = Some r"
    using full_evaluates by blast
  then show ?thesis using beacon_result_sound [OF r] by blast
qed

end
