(* ===== verification/Kavach_Events.thy ===== *)
theory Kavach_Events
  imports Kavach_Verdict Kavach_Float
begin

section \<open>The event sequence correlator\<close>

text \<open>
  Models the crate \<open>crates/kavach-events\<close>: the critical Windows events, the rolling window of 16
  events with its correlation rules (\<open>events.rs\<close>) and the subscriber around it (\<open>lib.rs\<close>).
  SHA-256 is a parameter.
\<close>

definition EVENT_SEQUENCE_WINDOW_SIZE :: nat where
  [kavach_const]: "EVENT_SEQUENCE_WINDOW_SIZE = 16"

definition EVENT_FEATURES_PER_ROW :: nat where
  [kavach_const]: "EVENT_FEATURES_PER_ROW = 4"

datatype CriticalEventId = LogonSuccess | LogonFailure | ServiceInstall | ServiceCreated
  | AuditLogCleared | PowerShellScriptBlock | BugCheck

fun event_as_u32 :: "CriticalEventId \<Rightarrow> u32" where
  "event_as_u32 LogonSuccess = 4624"
| "event_as_u32 LogonFailure = 4625"
| "event_as_u32 ServiceInstall = 7045"
| "event_as_u32 ServiceCreated = 4697"
| "event_as_u32 AuditLogCleared = 1102"
| "event_as_u32 PowerShellScriptBlock = 4104"
| "event_as_u32 BugCheck = 1001"

definition event_from_u32 :: "u32 \<Rightarrow> CriticalEventId option" where
  "event_from_u32 v =
    (if v = 4624 then Some LogonSuccess
     else if v = 4625 then Some LogonFailure
     else if v = 7045 then Some ServiceInstall
     else if v = 4697 then Some ServiceCreated
     else if v = 1102 then Some AuditLogCleared
     else if v = 4104 then Some PowerShellScriptBlock
     else if v = 1001 then Some BugCheck
     else None)"

fun severity_weight :: "CriticalEventId \<Rightarrow> fl" where
  "severity_weight LogonSuccess = fround b32 (1 / 10)"
| "severity_weight LogonFailure = fround b32 (4 / 10)"
| "severity_weight PowerShellScriptBlock = fround b32 (6 / 10)"
| "severity_weight ServiceCreated = fround b32 (8 / 10)"
| "severity_weight ServiceInstall = fround b32 (8 / 10)"
| "severity_weight BugCheck = fround b32 (9 / 10)"
| "severity_weight AuditLogCleared = Fin 1"

record SecurityEventRecord =
  event_id :: CriticalEventId
  timestamp_unix_ms :: u64
  event_process_id :: u32
  subject_user :: string
  target_resource :: string

datatype CorrelationPattern =
    BruteForceCompromised string nat
  | PersistenceServiceInstalled string
  | AuditLogTampering
  | SuspiciousScriptExecution u32

record EventAnomalyAlert =
  pattern :: CorrelationPattern
  alert_timestamp_ms :: u64
  alert_recommended_action :: EnforcementAction
  alert_evidence_count :: u8
  alert_evidence_digest :: bytes

record EventSequenceTracker =
  tracked_events :: "SecurityEventRecord list"

definition sequence_tracker_new :: EventSequenceTracker where
  "sequence_tracker_new = \<lparr>tracked_events = []\<rparr>"

definition recent_failures :: "SecurityEventRecord list \<Rightarrow> SecurityEventRecord \<Rightarrow> nat" where
  "recent_failures evs latest = length (filter (\<lambda>e. event_id e = LogonFailure
     \<and> subject_user e = subject_user latest
     \<and> saturating_sub (timestamp_unix_ms latest) (timestamp_unix_ms e) \<le> 60000) evs)"

definition correlate_recent ::
    "(bytes \<Rightarrow> bytes) \<Rightarrow> EventSequenceTracker \<Rightarrow> SecurityEventRecord \<Rightarrow> EventAnomalyAlert option" where
  "correlate_recent sha256 t latest =
    (let digest = sha256 (u32_to_be_bytes (event_as_u32 (event_id latest))
           @ u64_to_be_bytes (timestamp_unix_ms latest) @ u32_to_be_bytes (event_process_id latest)
           @ as_bytes (subject_user latest) @ as_bytes (target_resource latest));
         alert = (\<lambda>p n. Some \<lparr>pattern = p, alert_timestamp_ms = timestamp_unix_ms latest,
           alert_recommended_action = Alert, alert_evidence_count = n, alert_evidence_digest = digest\<rparr>) in
     if event_id latest = AuditLogCleared then alert AuditLogTampering 2
     else if event_id latest = ServiceInstall \<or> event_id latest = ServiceCreated
       then alert (PersistenceServiceInstalled (target_resource latest)) 2
     else if event_id latest = LogonSuccess \<and> recent_failures (tracked_events t) latest \<ge> 3
       then alert (BruteForceCompromised (subject_user latest) (recent_failures (tracked_events t) latest)) 3
     else if event_id latest = PowerShellScriptBlock
       then alert (SuspiciousScriptExecution (event_process_id latest)) 1
     else None)"

definition record_security_event ::
    "(bytes \<Rightarrow> bytes) \<Rightarrow> EventSequenceTracker \<Rightarrow> SecurityEventRecord
      \<Rightarrow> EventAnomalyAlert option \<times> EventSequenceTracker" where
  "record_security_event sha256 t r =
    (let t' = t\<lparr>tracked_events := push_drop_first EVENT_SEQUENCE_WINDOW_SIZE (tracked_events t) r\<rparr>
     in (correlate_recent sha256 t' r, t'))"

definition tracker_len :: "EventSequenceTracker \<Rightarrow> nat" where
  "tracker_len t = length (tracked_events t)"

definition event_row :: "(bytes \<Rightarrow> bytes) \<Rightarrow> u64 \<Rightarrow> SecurityEventRecord \<Rightarrow> fl list" where
  \<comment> \<open>the features of an event that follows an event at \<open>prev_ts\<close>\<close>
  "event_row sha256 prev_ts e =
    (let dt_ms = fmax (fl_of_nat b32 (unat (saturating_sub (timestamp_unix_ms e) prev_ts))) (Fin 0) in
     [severity_weight (event_id e),
      fclamp (fdiv b32 dt_ms (Fin 60000)) (Fin 0) (Fin 1),
      fdiv b32 (fl_of_nat b32 (unat (sha256 (as_bytes (subject_user e)) ! 0))) (Fin 255),
      fdiv b32 (fl_of_nat b32 (unat (event_process_id e mod 65536))) (Fin 65536)])"

fun event_rows :: "(bytes \<Rightarrow> bytes) \<Rightarrow> u64 \<Rightarrow> SecurityEventRecord list \<Rightarrow> fl list list" where
  "event_rows sha256 prev_ts [] = []"
| "event_rows sha256 prev_ts (e # es) =
    event_row sha256 prev_ts e # event_rows sha256 (timestamp_unix_ms e) es"

definition event_tensor_matrix :: "(bytes \<Rightarrow> bytes) \<Rightarrow> EventSequenceTracker \<Rightarrow> fl list list" where
  "event_tensor_matrix sha256 t =
    (let evs = tracked_events t;
         first_ts = (if evs = [] then 0 else timestamp_unix_ms (hd evs))
     in event_rows sha256 first_ts evs
        @ replicate (EVENT_SEQUENCE_WINDOW_SIZE - length evs) (replicate EVENT_FEATURES_PER_ROW (Fin 0)))"

record EventSubscriber =
  sub_tracker :: EventSequenceTracker

definition subscriber_new :: EventSubscriber where
  "subscriber_new = \<lparr>sub_tracker = sequence_tracker_new\<rparr>"

definition ingest_event ::
    "(bytes \<Rightarrow> bytes) \<Rightarrow> EventSubscriber \<Rightarrow> SecurityEventRecord
      \<Rightarrow> EventAnomalyAlert option \<times> EventSubscriber" where
  "ingest_event sha256 s r =
    (let (alert, t) = record_security_event sha256 (sub_tracker s) r in (alert, s\<lparr>sub_tracker := t\<rparr>))"

definition subscriber_tensor_matrix :: "(bytes \<Rightarrow> bytes) \<Rightarrow> EventSubscriber \<Rightarrow> fl list list" where
  "subscriber_tensor_matrix sha256 s = event_tensor_matrix sha256 (sub_tracker s)"

definition event_count :: "EventSubscriber \<Rightarrow> nat" where
  "event_count s = tracker_len (sub_tracker s)"

interpretation event_window: rolling_buffer EVENT_SEQUENCE_WINDOW_SIZE
    "push_drop_first EVENT_SEQUENCE_WINDOW_SIZE :: SecurityEventRecord list \<Rightarrow> _ \<Rightarrow> _"
  by unfold_locales (simp_all add: push_drop_first_spec kavach_const)

subsection \<open>Histories\<close>

definition subscriber_run :: "(bytes \<Rightarrow> bytes) \<Rightarrow> SecurityEventRecord list \<Rightarrow> EventSubscriber" where
  "subscriber_run sha256 rs = foldl (\<lambda>s r. snd (ingest_event sha256 s r)) subscriber_new rs"

lemma ingest_event_window:
  "tracked_events (sub_tracker (snd (ingest_event sha256 s r)))
     = push_drop_first EVENT_SEQUENCE_WINDOW_SIZE (tracked_events (sub_tracker s)) r"
  by (simp add: ingest_event_def record_security_event_def case_prod_beta Let_def)

lemma subscriber_window: "tracked_events (sub_tracker (subscriber_run sha256 rs)) = last_n 16 rs"
proof -
  have "tracked_events (sub_tracker (subscriber_run sha256 rs))
      = foldl (push_drop_first EVENT_SEQUENCE_WINDOW_SIZE) [] rs"
    by (induction rs rule: rev_induct)
      (simp_all add: subscriber_run_def subscriber_new_def sequence_tracker_new_def ingest_event_window)
  then show ?thesis using event_window.push_all by (simp add: kavach_const)
qed

lemma tracker_eq: "t\<lparr>tracked_events := es\<rparr> = \<lparr>tracked_events = es\<rparr>" for t :: EventSequenceTracker
  by (cases t) simp

lemma ingest_alert:
  "fst (ingest_event sha256 (subscriber_run sha256 rs) r) =
     correlate_recent sha256 \<lparr>tracked_events = last_n 16 (rs @ [r])\<rparr> r"
proof -
  have "push_drop_first 16 (last_n 16 rs) r = last_n 16 (rs @ [r])"
    by (simp add: push_drop_first_spec last_n_last_n_snoc)
  then show ?thesis
    by (simp add: ingest_event_def record_security_event_def case_prod_beta Let_def subscriber_window
        kavach_const tracker_eq)
qed

subsection \<open>Feature rows\<close>

lemma fround_b32_unit: "0 \<le> x \<Longrightarrow> x \<le> 1 \<Longrightarrow> unit_score (fround b32 x)"
  by (rule unit_score_fround) (simp_all add: fround_one)

lemma severity_unit: "unit_score (severity_weight e)"
  by (cases e) (simp_all only: severity_weight.simps unit_score_consts, simp_all add: fround_b32_unit)

lemma small_ratio_unit: "n \<le> k \<Longrightarrow> 0 < k \<Longrightarrow> k < 2 ^ 24 \<Longrightarrow> unit_score (fdiv b32 (fl_of_nat b32 n) (Fin (of_nat k)))"
  by (simp add: fl_of_nat_exact fdiv_fin fround_b32_unit)

lemma fmax_zero_nonneg: "nonneg a \<Longrightarrow> nonneg (fmax a (Fin 0))"
  by (cases a) (auto simp: fmax_def fle_def flt_def fval_def nonneg_def)

lemma event_row_unit: "x \<in> set (event_row sha256 p e) \<Longrightarrow> unit_score x"
proof -
  assume x: "x \<in> set (event_row sha256 p e)"
  have dt: "unit_score (fclamp (fdiv b32 (fmax (fl_of_nat b32 n) (Fin 0)) (Fin 60000)) (Fin 0) (Fin 1))" for n
    using nonneg_fdiv [OF fmax_zero_nonneg [OF fl_of_nat_nonneg [of b32 n]], of 60000 b32]
    by (intro unit_score_clamp) (auto dest: nonneg_not_NaN)
  have h: "unit_score (fdiv b32 (fl_of_nat b32 (unat b)) (Fin 255))" for b :: u8
  proof -
    have "unat b < 256" using unsigned_less [of b] by simp
    then show ?thesis using small_ratio_unit [of "unat b" 255] by simp
  qed
  have "unat (event_process_id e mod 65536) < 65536"
    by (simp add: unat_mod)
  then have "unit_score (fdiv b32 (fl_of_nat b32 (unat (event_process_id e mod 65536))) (Fin 65536))"
    using small_ratio_unit [of "unat (event_process_id e mod 65536)" 65536] by simp
  with x dt h show ?thesis by (auto simp: event_row_def Let_def severity_unit)
qed

lemma event_rows_unit: "row \<in> set (event_rows sha256 p es) \<Longrightarrow> length row = 4 \<and> (\<forall>x \<in> set row. unit_score x)"
  by (induction es arbitrary: p) (auto simp: event_row_unit, simp add: event_row_def Let_def)

lemma length_event_rows [simp]: "length (event_rows sha256 p es) = length es"
  by (induction es arbitrary: p) simp_all

lemma matrix_rows:
  "length (event_tensor_matrix sha256 t) = max 16 (length (tracked_events t))"
  "row \<in> set (event_tensor_matrix sha256 t) \<Longrightarrow> length row = 4 \<and> (\<forall>x \<in> set row. unit_score x)"
  by (auto simp: event_tensor_matrix_def Let_def kavach_const dest: event_rows_unit)

lemma event_from_as_u32: "event_from_u32 v = Some e \<longleftrightarrow> v = event_as_u32 e"
  by (cases e) (auto simp: event_from_u32_def)

subsection \<open>Properties\<close>


text \<open>The tensor of head 3 has 16 rows of 4 numbers between 0 and 1 after any history of events,
  whatever their time stamps, users and process ids, and the subscriber holds the last 16 events.\<close>

theorem event_tensor_shape:
  "length (subscriber_tensor_matrix sha256 (subscriber_run sha256 rs)) = 16
   \<and> list_all (\<lambda>row. length row = 4 \<and> list_all unit_score row)
        (subscriber_tensor_matrix sha256 (subscriber_run sha256 rs))
   \<and> event_count (subscriber_run sha256 rs) = min 16 (length rs)"
  using matrix_rows(1) [of sha256 "sub_tracker (subscriber_run sha256 rs)"]
    matrix_rows(2) [of _ sha256 "sub_tracker (subscriber_run sha256 rs)"]
  by (auto simp: subscriber_tensor_matrix_def subscriber_window list_all_iff event_count_def tracker_len_def)

end
