(* ===== verification/Kavach_Sensors.thy ===== *)
theory Kavach_Sensors
  imports Kavach_Tripwire Kavach_Beacon Kavach_Events
begin

section \<open>The telemetry consumers\<close>

text \<open>
  Models the ETW consumers \<open>etw_kernel_file.rs\<close>, \<open>etw_tcpip.rs\<close> and \<open>etw_event_log.rs\<close> of
  \<open>crates/kavach-sensors\<close>. A consumer shares its engine with the daemon through
  \<open>Arc<Mutex<_>>\<close>: the engine is a field of the consumer and the daemon reads it there. The methods
  take the lock for their whole body, so a call is one step.
\<close>

record KernelFileEvent =
  kf_process_id :: u32
  kf_file_path :: string
  kf_is_rename :: bool
  kf_payload :: bytes
  kf_timestamp_unix_ms :: u64

record KernelFileConsumer =
  kf_engine :: EntropyEngine
  kf_is_running :: bool

definition kernel_consumer_new :: "EntropyEngine \<Rightarrow> KernelFileConsumer" where
  "kernel_consumer_new eng = \<lparr>kf_engine = eng, kf_is_running = False\<rparr>"

definition process_kernel_event ::
    "(fl \<Rightarrow> fl) \<Rightarrow> (bytes \<Rightarrow> bytes) \<Rightarrow> KernelFileConsumer \<Rightarrow> KernelFileEvent
      \<Rightarrow> ProcessBurstEvaluation option \<times> KernelFileConsumer" where
  "process_kernel_event log2 sha256 c e =
    (let (res, eng) = ingest_operation log2 sha256 (kf_engine c) (kf_process_id e) (kf_file_path e)
           (kf_payload e) (kf_is_rename e) (kf_timestamp_unix_ms e)
     in (res, c\<lparr>kf_engine := eng\<rparr>))"

record TcpipPacketEvent =
  tp_flow_key :: FlowKey
  tp_payload_bytes :: nat
  tp_direction :: PacketDirection
  tp_timestamp_ns :: u64

record TcpipConsumer =
  tp_engine :: TcnEngine
  tp_is_running :: bool

definition tcpip_consumer_new :: "TcnEngine \<Rightarrow> TcpipConsumer" where
  "tcpip_consumer_new eng = \<lparr>tp_engine = eng, tp_is_running = False\<rparr>"

definition process_packet ::
    "(fl \<Rightarrow> fl) \<Rightarrow> (bytes \<Rightarrow> bytes) \<Rightarrow> TcpipConsumer \<Rightarrow> TcpipPacketEvent
      \<Rightarrow> BeaconDetectionResult option \<times> TcpipConsumer" where
  "process_packet log10 sha256 c e =
    (let meta = \<lparr>timestamp_ns = tp_timestamp_ns e, payload_bytes = word_of_nat (tp_payload_bytes e),
           packet_direction = tp_direction e\<rparr>;
         (res, eng) = ingest_packet log10 sha256 (tp_engine c) (tp_flow_key e) meta
     in (res, c\<lparr>tp_engine := eng\<rparr>))"

record EventLogConsumer =
  el_subscriber :: EventSubscriber
  el_is_running :: bool

definition event_consumer_new :: "EventSubscriber \<Rightarrow> EventLogConsumer" where
  "event_consumer_new sub = \<lparr>el_subscriber = sub, el_is_running = False\<rparr>"

definition process_log_event ::
    "(bytes \<Rightarrow> bytes) \<Rightarrow> EventLogConsumer \<Rightarrow> SecurityEventRecord
      \<Rightarrow> EventAnomalyAlert option \<times> EventLogConsumer" where
  "process_log_event sha256 c r =
    (let (res, sub) = ingest_event sha256 (el_subscriber c) r in (res, c\<lparr>el_subscriber := sub\<rparr>))"

subsection \<open>Engines without telemetry\<close>

text \<open>What the three engines hand to the model before any event has been ingested.\<close>

lemma empty_tensors:
  "tripwire_tensor_matrix sha256 (tracker entropy_engine_new) = replicate 10 (replicate 4 (Fin 0))"
  "tcn_tensor_matrix log10 tcn_new = replicate 32 (replicate 4 (Fin 0))"
  "subscriber_tensor_matrix sha256 subscriber_new = replicate 16 (replicate 4 (Fin 0))"
  by (simp_all add: tripwire_tensor_matrix_def entropy_engine_new_def tracker_new_def tcn_tensor_matrix_def
      tcn_new_def subscriber_tensor_matrix_def subscriber_new_def sequence_tracker_new_def
      event_tensor_matrix_def kavach_const Let_def)

end
