(* ===== verification/Kavach_Tensor.thy ===== *)
theory Kavach_Tensor
  imports Kavach_Float
begin

section \<open>Quantized tensors\<close>

text \<open>
  Models \<open>crates/kavach-core/src/tensor.rs\<close>: quantization of features to signed bytes and back, and
  the input tensors of the three model heads. A signed byte is an integer between -128 and 127;
  a tensor holds its rows, with 10, 32 and 16 rows of four entries for the three heads.
\<close>

type_synonym i8 = int

record QuantizationParams =
  scale :: fl
  zero_point :: i8

definition quantization_default :: QuantizationParams where
  "quantization_default = \<lparr>scale = fdiv b32 (Fin 1) (Fin 127), zero_point = 0\<rparr>"

definition quantize_f32_to_i8 :: "fl \<Rightarrow> QuantizationParams \<Rightarrow> i8" where
  "quantize_f32_to_i8 val params =
    (let scaled = fadd b32 (fround_away (fdiv b32 val (scale params))) (fl_of_int b32 (zero_point params))
     in fl_trunc (- 128) 127 (fclamp scaled (Fin (- 128)) (Fin 127)))"

definition dequantize_i8_to_f32 :: "i8 \<Rightarrow> QuantizationParams \<Rightarrow> fl" where
  "dequantize_i8_to_f32 q params =
    fmul b32 (fsub b32 (fl_of_int b32 q) (fl_of_int b32 (zero_point params))) (scale params)"

record IoInputTensor =
  io_data :: "i8 list list"

record NetInputTensor =
  net_data :: "i8 list list"

record AuditInputTensor =
  audit_data :: "i8 list list"

definition quantize_matrix :: "fl list list \<Rightarrow> QuantizationParams \<Rightarrow> i8 list list" where
  "quantize_matrix matrix params = map (map (\<lambda>val. quantize_f32_to_i8 val params)) matrix"

definition io_from_f32_matrix :: "fl list list \<Rightarrow> QuantizationParams \<Rightarrow> IoInputTensor" where
  "io_from_f32_matrix matrix params = \<lparr>io_data = quantize_matrix matrix params\<rparr>"

definition net_from_f32_matrix :: "fl list list \<Rightarrow> QuantizationParams \<Rightarrow> NetInputTensor" where
  "net_from_f32_matrix matrix params = \<lparr>net_data = quantize_matrix matrix params\<rparr>"

definition audit_from_f32_matrix :: "fl list list \<Rightarrow> QuantizationParams \<Rightarrow> AuditInputTensor" where
  "audit_from_f32_matrix matrix params = \<lparr>audit_data = quantize_matrix matrix params\<rparr>"

definition rows_as_bytes :: "i8 list list \<Rightarrow> bytes" where
  \<comment> \<open>\<open>val as u8\<close> for every entry, row by row\<close>
  "rows_as_bytes rows = map word_of_int (concat rows)"

definition io_as_bytes :: "IoInputTensor \<Rightarrow> bytes" where
  "io_as_bytes t = rows_as_bytes (io_data t)"

definition net_as_bytes :: "NetInputTensor \<Rightarrow> bytes" where
  "net_as_bytes t = rows_as_bytes (net_data t)"

definition audit_as_bytes :: "AuditInputTensor \<Rightarrow> bytes" where
  "audit_as_bytes t = rows_as_bytes (audit_data t)"

definition is_i8 :: "int \<Rightarrow> bool" where
  "is_i8 q \<longleftrightarrow> - 128 \<le> q \<and> q \<le> 127"

subsection \<open>Rounding errors\<close>

lemma round_even_error: "\<bar>of_int (round_even x) - x\<bar> \<le> 1 / 2"
  by (auto simp: round_even_def Let_def abs_if split: if_splits) linarith+

lemma rnd_error:
  assumes "0 < x" "qmin f \<le> ilog2 x - int (prec f) + 1"
  shows "\<bar>rnd f x - x\<bar> \<le> x * rpow2 (- int (prec f))"
proof -
  let ?q = "quantum f x"
  have q: "?q = ilog2 x - int (prec f) + 1" using assms(2) by (simp add: quantum_def)
  have "rnd f x - x = (of_int (round_even (x / rpow2 ?q)) - x / rpow2 ?q) * rpow2 ?q"
    by (simp add: rnd_def field_simps)
  then have "\<bar>rnd f x - x\<bar> = \<bar>of_int (round_even (x / rpow2 ?q)) - x / rpow2 ?q\<bar> * rpow2 ?q"
    by (simp add: abs_mult less_imp_le)
  also have "\<dots> \<le> 1 / 2 * rpow2 ?q"
    by (intro mult_right_mono round_even_error) (simp add: less_imp_le)
  also have "1 / 2 * rpow2 ?q = rpow2 (ilog2 x) * rpow2 (- int (prec f))"
    using rpow2_Suc [of "ilog2 x - int (prec f)"] unfolding q by (simp flip: rpow2_add)
  also have "\<dots> \<le> x * rpow2 (- int (prec f))"
    using ilog2_bounds(1) [OF assms(1)] by (intro mult_right_mono) (simp_all add: less_imp_le)
  finally show ?thesis .
qed

text \<open>On the middle of the \<open>f32\<close> range rounding neither underflows nor overflows.\<close>

lemma b32_error:
  assumes "rpow2 (- 120) \<le> x" "x \<le> rpow2 120"
  shows "fround b32 x = Fin (rnd b32 x)" "\<bar>rnd b32 x - x\<bar> \<le> x / 16777216"
proof -
  have pos: "0 < x" using assms(1) rpow2_pos [of "- 120"] by linarith
  have "rpow2 (- 120) < rpow2 (ilog2 x + 1)" using assms(1) ilog2_bounds(2) [OF pos] by linarith
  then have lo: "- 120 < ilog2 x + 1" by (rule rpow2_less_cancel)
  have p: "x * rpow2 (- 24) = x / 16777216" by (simp add: rpow2_def)
  have "\<bar>rnd b32 x - x\<bar> \<le> x * rpow2 (- 24)"
    using rnd_error [OF pos, of b32] lo by (simp add: b32_def)
  then show err: "\<bar>rnd b32 x - x\<bar> \<le> x / 16777216" unfolding p .
  have "rpow2 121 = 2 * rpow2 120" using rpow2_Suc [of 120] by simp
  then have "x + x / 16777216 < rpow2 121" using assms(2) pos rpow2_pos [of 120] by simp
  then have "rnd b32 x < rpow2 121" using err by linarith
  also have "rpow2 121 \<le> rpow2 128" by (rule rpow2_mono) simp
  finally show "fround b32 x = Fin (rnd b32 x)" using pos by (simp add: fround_pos b32_def)
qed

lemma fround_neg: "0 < x \<Longrightarrow> fround f (- x) = fneg (fround f x)"
  by (auto simp: fround_def Let_def fneg_def)

lemma fround_away_neg: "fround_away (fneg a) = fneg (fround_away a)"
  by (cases a) (auto simp: fround_away_def fneg_def signed_zero_def Let_def floor_eq_iff)

lemma fl_of_int_exact: "\<bar>k\<bar> < 2 ^ 24 \<Longrightarrow> fl_of_int b32 k = Fin (of_int k)"
proof (cases "0 \<le> k")
  case False
  assume "\<bar>k\<bar> < 2 ^ 24"
  with False have "fround b32 (of_int (- k)) = Fin (of_int (- k))" by (intro fround_int_formats) simp_all
  then show ?thesis using fround_neg [of "of_int (- k)" b32] False by (simp add: fl_of_int_def fneg_def)
qed (simp add: fl_of_int_def fround_int_formats)

lemma qdq_pos:
  assumes "0 < a" "a \<le> 255" "rpow2 (- 100) \<le> s" "s \<le> rpow2 100"
  shows "\<exists>r > 0. fmul b32 (Fin (of_int a)) (Fin s) = Fin r
    \<and> fround_away (fdiv b32 (Fin r) (Fin s)) = Fin (of_int a)"
proof -
  let ?a = "of_int a :: rat" and ?e = "1 / 16777216 :: rat"
  have a: "1 \<le> ?a" "?a \<le> 255" using assms(1,2) by simp_all
  have s: "0 < s" using assms(3) rpow2_pos [of "- 100"] by linarith
  have wide: "rpow2 (- 120) \<le> x" "x \<le> rpow2 120" if "rpow2 (- 110) \<le> x" "x \<le> rpow2 110" for x
    using that rpow2_mono [of "- 120" "- 110"] rpow2_mono [of 110 120] by simp_all
  have "?a * s \<le> 255 * rpow2 100" using a assms(4) s by (intro mult_mono) simp_all
  also have "\<dots> \<le> rpow2 110" by (simp add: rpow2_def)
  finally have "?a * s \<le> rpow2 110" .
  moreover have "rpow2 (- 110) \<le> ?a * s"
    using mult_mono [of 1 ?a "rpow2 (- 100)" s] a assms(3) s rpow2_mono [of "- 110" "- 100"] rpow2_pos [of "- 100"]
    by (simp add: less_imp_le)
  ultimately have x: "fround b32 (?a * s) = Fin (rnd b32 (?a * s))" "\<bar>rnd b32 (?a * s) - ?a * s\<bar> \<le> ?a * s * ?e"
    using b32_error [OF wide] by simp_all
  define r where "r = rnd b32 (?a * s)"
  have "\<bar>r / s - ?a\<bar> = \<bar>r - ?a * s\<bar> / s" using s by (simp add: field_simps abs_if)
  also have "\<dots> \<le> ?a * ?e" using x(2) s unfolding r_def by (simp add: field_simps)
  finally have q: "\<bar>r / s - ?a\<bar> \<le> ?a * ?e" .
  then have qb: "1 / 2 \<le> r / s" "r / s \<le> 256" using a by linarith+
  then have rpos: "0 < r" using s by (simp add: pos_le_divide_eq)
  have "rpow2 (- 110) \<le> 1 / 2" "(256 :: rat) \<le> rpow2 110" by (simp_all add: rpow2_def)
  then have d: "fround b32 (r / s) = Fin (rnd b32 (r / s))" "\<bar>rnd b32 (r / s) - r / s\<bar> \<le> r / s * ?e"
    using b32_error [OF wide, of "r / s"] qb by simp_all
  have "\<bar>y - ?a\<bar> < 1 / 2" if "\<bar>y - z\<bar> \<le> z * ?e" "\<bar>z - ?a\<bar> \<le> ?a * ?e" "z \<le> 256" for y z
    using that a by linarith
  then have "\<bar>rnd b32 (r / s) - ?a\<bar> < 1 / 2" using d(2) q qb(2) by blast
  then have "floor (\<bar>rnd b32 (r / s)\<bar> + 1 / 2) = a" "0 < rnd b32 (r / s)"
    using a by (simp_all add: floor_eq_iff abs_if split: if_splits)
  then have "fround_away (fdiv b32 (Fin r) (Fin s)) = Fin (of_int a)"
    using d(1) assms(1) rpos s by (simp add: fdiv_fin fround_away_def Let_def)
  moreover have "fmul b32 (Fin ?a) (Fin s) = Fin r" using x(1) a s by (simp add: fmul_fin r_def)
  ultimately show ?thesis using rpos by blast
qed

lemma fmul_neg: "0 < a \<Longrightarrow> 0 < s \<Longrightarrow> fmul f (Fin (- a)) (Fin s) = fneg (fmul f (Fin a) (Fin s))"
  using fround_neg [of "a * s" f] by (simp add: fmul_def is_finite_def fval_def Let_def)

lemma fdiv_neg: "0 < a \<Longrightarrow> 0 < s \<Longrightarrow> fdiv f (Fin (- a)) (Fin s) = fneg (fdiv f (Fin a) (Fin s))"
  using fround_neg [of "a / s" f] by (simp add: fdiv_def is_finite_def fval_def Let_def)

lemma qdq_step:
  assumes "\<bar>a\<bar> \<le> 255" "rpow2 (- 100) \<le> s" "s \<le> rpow2 100"
  shows "fround_away (fdiv b32 (fmul b32 (Fin (of_int a)) (Fin s)) (Fin s)) = Fin (of_int a)"
proof -
  have s: "0 < s" using assms(2) rpow2_pos [of "- 100"] by linarith
  consider "a = 0" | "0 < a" | "a < 0" by linarith
  then show ?thesis
  proof cases
    case 1
    then show ?thesis using s
      by (simp add: fmul_def fdiv_def is_finite_def fval_def signed_zero_def is_neg_def fround_away_def
          Let_def floor_eq_iff)
  next
    case 2
    then show ?thesis using qdq_pos [of a s] assms by auto
  next
    case 3
    then obtain r where r: "0 < r" "fmul b32 (Fin (of_int (- a))) (Fin s) = Fin r"
      "fround_away (fdiv b32 (Fin r) (Fin s)) = Fin (of_int (- a))"
      using qdq_pos [of "- a" s] assms by auto
    have "fmul b32 (Fin (of_int a)) (Fin s) = Fin (- r)"
      using fmul_neg [of "of_int (- a)" s b32] 3 s r(1,2) by (simp add: fneg_def)
    then show ?thesis
      using r(1,3) 3 s by (simp add: fdiv_neg fround_away_neg) (simp add: fneg_def)
  qed
qed

lemma quantize_dequantize:
  assumes "is_i8 q" "is_i8 (zero_point p)" "scale p = Fin s" "rpow2 (- 100) \<le> s" "s \<le> rpow2 100"
  shows "quantize_f32_to_i8 (dequantize_i8_to_f32 q p) p = q"
proof -
  let ?z = "zero_point p"
  have ex: "fl_of_int b32 q = Fin (of_int q)" "fl_of_int b32 ?z = Fin (of_int ?z)"
    and small: "\<bar>q - ?z\<bar> \<le> 255"
    using assms(1,2) by (auto simp: is_i8_def intro!: fl_of_int_exact)
  have diff: "fsub b32 (Fin (of_int q)) (Fin (of_int ?z)) = Fin (of_int (q - ?z))"
    using fl_of_int_exact [of "q - ?z"] small ex(1)
    by (simp add: fsub_def fneg_def fadd_def fval_def fl_of_int_def)
  have "fround_away (fdiv b32 (dequantize_i8_to_f32 q p) (scale p)) = Fin (of_int (q - ?z))"
    unfolding dequantize_i8_to_f32_def ex diff assms(3) using small assms(4,5) by (rule qdq_step)
  moreover have "fadd b32 (Fin (of_int (q - ?z))) (Fin (of_int ?z)) = Fin (of_int q)"
    using ex(1) by (simp add: fadd_def fval_def fl_of_int_def)
  ultimately show ?thesis
    using assms(1) by (simp add: quantize_f32_to_i8_def ex Let_def fclamp_def flt_def fle_def fval_def
        fl_trunc_def is_i8_def)
qed

lemma fl_trunc_range: "lo \<le> 0 \<Longrightarrow> 0 \<le> hi \<Longrightarrow> lo \<le> fl_trunc lo hi a \<and> fl_trunc lo hi a \<le> hi"
  by (cases a) (auto simp: fl_trunc_def)

lemma quantize_range: "is_i8 (quantize_f32_to_i8 v p)"
  using fl_trunc_range [of "- 128" 127] by (simp add: quantize_f32_to_i8_def is_i8_def Let_def)

lemma default_scale: "\<exists>s. scale quantization_default = Fin s \<and> rpow2 (- 100) \<le> s \<and> s \<le> rpow2 100"
proof -
  have w: "rpow2 (- 120) \<le> 1 / 127" "1 / 127 \<le> rpow2 120" by (simp_all add: rpow2_def)
  have "rpow2 (- 100) \<le> 1 / 254" "1 \<le> rpow2 100" by (simp_all add: rpow2_def)
  moreover have "1 / 254 \<le> rnd b32 (1 / 127)" "rnd b32 (1 / 127) \<le> 1"
    using b32_error(2) [OF w] by (simp_all add: abs_if split: if_splits)
  moreover have "scale quantization_default = Fin (rnd b32 (1 / 127))"
    using b32_error(1) [OF w] by (simp add: quantization_default_def fdiv_fin)
  ultimately show ?thesis by fastforce
qed

lemma length_concat_rows: "(\<And>r. r \<in> set rows \<Longrightarrow> length r = 4) \<Longrightarrow> length (concat rows) = 4 * length rows"
  by (induction rows) simp_all

lemma sint_of_i8: "is_i8 q \<Longrightarrow> sint (word_of_int q :: u8) = q"
  by (simp add: is_i8_def signed_of_int signed_take_bit_int_eq_self)

subsection \<open>Properties\<close>

text \<open>C34: quantization and dequantization agree: for every signed byte, every zero point and every
  scale of ordinary size, dequantizing in single precision and quantizing again gives the byte
  back, although both the product and the quotient are rounded.\<close>

theorem qdq_roundtrip:
  assumes "is_i8 q" "is_i8 (zero_point p)" "scale p = Fin s" "rpow2 (- 100) \<le> s" "s \<le> rpow2 100"
  shows "quantize_f32_to_i8 (dequantize_i8_to_f32 q p) p = q"
  using assms by (rule quantize_dequantize)

theorem qdq_roundtrip_witness:
  "quantize_f32_to_i8 (dequantize_i8_to_f32 (- 128) quantization_default) quantization_default = - 128"
proof -
  have "is_i8 (- 128)" "is_i8 (zero_point quantization_default)"
    by (simp_all add: is_i8_def quantization_default_def)
  then show ?thesis using default_scale qdq_roundtrip by blast
qed

text \<open>The transfer buffer of head 1 holds 40 bytes and determines the tensor: reading its bytes as
  signed gives the quantized features in order, whatever the features were, NaN included.\<close>

theorem io_buffer_faithful:
  assumes "length matrix = 10" "list_all (\<lambda>row. length row = 4) matrix"
  shows "length (io_as_bytes (io_from_f32_matrix matrix params)) = 40
   \<and> map sint (io_as_bytes (io_from_f32_matrix matrix params))
        = map (\<lambda>v. quantize_f32_to_i8 v params) (concat matrix)"
proof -
  have "length (concat matrix) = 40"
    using assms length_concat_rows [of matrix] by (simp add: list_all_iff)
  then show ?thesis
    by (simp add: io_as_bytes_def rows_as_bytes_def io_from_f32_matrix_def quantize_matrix_def
        map_concat [symmetric] o_def sint_of_i8 quantize_range)
qed

end
