(* ===== verification/Kavach_Base64.thy ===== *)
theory Kavach_Base64
  imports Kavach_Prelude
begin

section \<open>Base64\<close>

text \<open>
  Models \<open>decode_base64\<close> and \<open>encode_base64\<close> of \<open>crates/kavach-core/src/manifest.rs\<close>: the decoder's
  \<open>u32\<close> accumulator drops its high bits by the shift, as in the source, and the encoder
  assembles each chunk of three bytes in a \<open>usize\<close>.
\<close>

datatype b64_char = Digit u32 | Skip | Invalid

definition b64_value :: "char \<Rightarrow> b64_char" where
  "b64_value ch = (let c = (of_char ch :: nat) in
     if 65 \<le> c \<and> c \<le> 90 then Digit (word_of_nat (c - 65))
     else if 97 \<le> c \<and> c \<le> 122 then Digit (word_of_nat (c - 97 + 26))
     else if 48 \<le> c \<and> c \<le> 57 then Digit (word_of_nat (c - 48 + 52))
     else if c = 43 \<or> c = 45 then Digit 62
     else if c = 47 \<or> c = 95 then Digit 63
     else if c = 13 \<or> c = 10 \<or> c = 32 then Skip
     else Invalid)"

definition utf8_char_len :: "char \<Rightarrow> nat" where
  \<comment> \<open>bytes of the character a lead byte starts\<close>
  "utf8_char_len ch = (let c = (of_char ch :: nat) in
     if c < 0x80 then 1 else if c < 0xE0 then 2 else if c < 0xF0 then 3 else 4)"

fun decode_loop :: "u32 \<Rightarrow> nat \<Rightarrow> bytes \<Rightarrow> string \<Rightarrow> string + bytes" where
  \<comment> \<open>the loop over \<open>clean.chars()\<close>: \<open>bits\<close>, \<open>bit_count\<close>, \<open>out\<close>\<close>
  "decode_loop bits bit_count out [] = Ok out"
| "decode_loop bits bit_count out (c # cs) = (case b64_value c of
     Invalid \<Rightarrow> Err (''invalid base64 character '' @ [CHR 0x27] @ take (utf8_char_len c) (c # cs) @ [CHR 0x27])
   | Skip \<Rightarrow> decode_loop bits bit_count out cs
   | Digit val \<Rightarrow>
       let bits = (push_bit 6 bits) OR val;
           bit_count = bit_count + 6 in
       if bit_count \<ge> 8
       then decode_loop bits (bit_count - 8) (out @ [ucast (drop_bit (bit_count - 8) bits AND 0xff)]) cs
       else decode_loop bits bit_count out cs)"

definition decode_base64 :: "string \<Rightarrow> string + bytes" where
  "decode_base64 input =
    (let clean = filter (\<lambda>c. c \<noteq> CHR ''='') (trim input) in decode_loop 0 0 [] clean)"

definition B64 :: string where
  "B64 = ''ABCDEFGHIJKLMNOPQRSTUVWXYZabcdefghijklmnopqrstuvwxyz0123456789+/''"

definition encode_chunk :: "bytes \<Rightarrow> string" where
  \<comment> \<open>the body of the loop, on a chunk of one, two or three bytes\<close>
  "encode_chunk chunk =
    (let b0 = ucast (chunk ! 0) :: u64;
         b1 = if length chunk > 1 then ucast (chunk ! 1) else 0;
         b2 = if length chunk > 2 then ucast (chunk ! 2) else 0;
         triple = (push_bit 16 b0) OR (push_bit 8 b1) OR b2
     in [B64 ! unat (drop_bit 18 triple AND 0x3f), B64 ! unat (drop_bit 12 triple AND 0x3f),
         (if length chunk > 1 then B64 ! unat (drop_bit 6 triple AND 0x3f) else CHR ''=''),
         (if length chunk > 2 then B64 ! unat (triple AND 0x3f) else CHR ''='')])"

fun encode_base64 :: "bytes \<Rightarrow> string" where
  \<comment> \<open>\<open>bytes.chunks(3)\<close>\<close>
  "encode_base64 [] = []"
| "encode_base64 [a] = encode_chunk [a]"
| "encode_base64 [a, b] = encode_chunk [a, b]"
| "encode_base64 (a # b # c # rest) = encode_chunk [a, b, c] @ encode_base64 rest"

lemma b64_value_B64: "k < 64 \<Longrightarrow> b64_value (B64 ! k) = Digit (word_of_nat k)"
proof -
  have "\<forall>k \<in> set [0 ..< 64]. b64_value (B64 ! k) = Digit (word_of_nat k)"
    by (simp add: upt_rec B64_def b64_value_def)
  then show "k < 64 \<Longrightarrow> ?thesis" by simp
qed

lemma masks: "(0x3f :: u64) = mask 6" "(0xff :: u32) = mask 8"
  by (simp_all add: mask_eq_exp_minus_1)

definition triple_of :: "u8 \<Rightarrow> u8 \<Rightarrow> u8 \<Rightarrow> u64" where
  "triple_of a b c = (push_bit 16 (ucast a)) OR (push_bit 8 (ucast b)) OR ucast c"

definition sextet :: "nat \<Rightarrow> u64 \<Rightarrow> u64" where
  "sextet k t = drop_bit k t AND 0x3f"

lemma b64_value_sextet: "b64_value (B64 ! unat (sextet k t)) = Digit (ucast (sextet k t))"
proof -
  have "sextet k t < 64"
    using word_and_le1 [of "drop_bit k t" "0x3f"] by (simp add: sextet_def word_le_nat_alt word_less_nat_alt)
  then have "unat (sextet k t) < 64" by (simp add: word_less_nat_alt)
  then show ?thesis by (simp add: b64_value_B64)
qed

lemma decoded_bytes:
  fixes a b c :: u8 and bits :: u32
  defines "t \<equiv> triple_of a b c"
  defines "w1 \<equiv> push_bit 6 (push_bit 6 bits OR ucast (sextet 18 t)) OR ucast (sextet 12 t)"
  defines "w2 \<equiv> push_bit 6 w1 OR ucast (sextet 6 t)"
  defines "w3 \<equiv> push_bit 6 w2 OR ucast (sextet 0 t)"
  shows "(ucast (drop_bit 4 w1 AND 0xff) :: u8) = a" "(ucast (drop_bit 2 w2 AND 0xff) :: u8) = b"
    "(ucast (drop_bit 0 w3 AND 0xff) :: u8) = c"
proof -
  have hi: "\<not> bit x k" if "8 \<le> k" for x :: u8 and k using that bit_imp_le_length [of x k] by auto
  show "(ucast (drop_bit 4 w1 AND 0xff) :: u8) = a"
    by (rule byte_eqI)
      (simp_all add: w1_def t_def triple_of_def sextet_def masks bit_simps hi)
  show "(ucast (drop_bit 2 w2 AND 0xff) :: u8) = b"
    by (rule byte_eqI)
      (simp_all add: w2_def w1_def t_def triple_of_def sextet_def masks bit_simps hi)
  show "(ucast (drop_bit 0 w3 AND 0xff) :: u8) = c"
    by (rule byte_eqI)
      (simp_all add: w3_def w2_def w1_def t_def triple_of_def sextet_def masks bit_simps hi)
qed

lemma encode_chunk_sextets:
  "encode_chunk [a, b, c] = map (\<lambda>k. B64 ! unat (sextet k (triple_of a b c))) [18, 12, 6, 0]"
  "encode_chunk [a, b] = map (\<lambda>k. B64 ! unat (sextet k (triple_of a b 0))) [18, 12, 6] @ ''=''"
  "encode_chunk [a] = map (\<lambda>k. B64 ! unat (sextet k (triple_of a 0 0))) [18, 12] @ ''==''"
  by (simp_all add: encode_chunk_def sextet_def triple_of_def Let_def)

lemma B64_sextet_not_pad [simp]: "B64 ! unat (sextet k t) \<noteq> CHR ''=''"
proof
  assume "B64 ! unat (sextet k t) = CHR ''=''"
  then show False using b64_value_sextet [of k t] by (simp add: b64_value_def)
qed

lemma decode_encoded:
  "decode_loop bits 0 out (filter (\<lambda>c. c \<noteq> CHR ''='') (encode_base64 bs)) = Ok (out @ bs)"
proof (induction bs arbitrary: bits out rule: encode_base64.induct)
  case 1
  show ?case by simp
next
  case (2 a)
  show ?case
    using decoded_bytes(1) [of bits a 0 0]
    by (simp add: encode_chunk_sextets b64_value_sextet Let_def)
next
  case (3 a b)
  show ?case
    using decoded_bytes(1,2) [of bits a b 0]
    by (simp add: encode_chunk_sextets b64_value_sextet Let_def)
next
  case (4 a b c rest)
  show ?case
    using decoded_bytes [of bits a b c] 4
    by (simp add: encode_chunk_sextets b64_value_sextet Let_def)
qed

subsection \<open>The encoder's alphabet\<close>

definition printable :: "char \<Rightarrow> bool" where
  "printable c \<longleftrightarrow> 33 \<le> (of_char c :: nat) \<and> (of_char c :: nat) < 128"

lemma b64_value_printable: "b64_value c = Digit v \<Longrightarrow> printable c"
  by (auto simp: b64_value_def printable_def Let_def split: if_splits)

lemma encode_printable: "c \<in> set (encode_base64 bs) \<Longrightarrow> printable c"
proof (induction bs rule: encode_base64.induct)
  case 1
  then show ?case by simp
next
  case (2 a)
  then show ?case
    using b64_value_printable [OF b64_value_sextet]
    by (auto simp: encode_chunk_sextets printable_def)
next
  case (3 a b)
  then show ?case
    using b64_value_printable [OF b64_value_sextet]
    by (auto simp: encode_chunk_sextets printable_def)
next
  case (4 a b c rest)
  then show ?case
    using b64_value_printable [OF b64_value_sextet]
    by (auto simp: encode_chunk_sextets)
qed

lemma strip_prefixes_id:
  assumes "\<forall>w \<in> set ws. w \<noteq> [] \<longrightarrow> \<not> printable (hd w)" "\<forall>c \<in> set s. printable c"
  shows "strip_prefixes ws s = s"
proof -
  have "find (\<lambda>w. w \<noteq> [] \<and> take (length w) s = w) ws = None"
    unfolding find_None_iff
  proof
    assume "\<exists>w. w \<in> set ws \<and> w \<noteq> [] \<and> take (length w) s = w"
    then obtain w where "w \<in> set ws" "w \<noteq> []" "take (length w) s = w" by blast
    then have "hd w \<in> set s" by (metis hd_in_set in_set_takeD)
    with assms \<open>w \<in> set ws\<close> \<open>w \<noteq> []\<close> show False by blast
  qed
  then show ?thesis by (simp add: strip_prefixes.simps)
qed

lemma white_space_ends:
  "\<forall>w \<in> set white_space. \<not> printable (hd w) \<and> \<not> printable (last w)"
  by (simp add: white_space_def utf8_char_def printable_def upt_rec)

lemma trim_printable: "\<forall>c \<in> set s. printable c \<Longrightarrow> trim s = s"
  using white_space_ends by (simp add: trim_def strip_prefixes_id hd_rev)

lemma decode_encode: "decode_base64 (encode_base64 bs) = Ok bs"
  using decode_encoded [of 0 "[]" bs] encode_printable [of _ bs]
  by (simp add: decode_base64_def trim_printable)

subsection \<open>Properties\<close>

text \<open>Decoding an encoded byte string gives it back, for every length: padding, the shifting
  accumulator and the two alphabets agree.\<close>

theorem base64_roundtrip: "decode_base64 (encode_base64 bs) = Ok bs"
  by (rule decode_encode)

end
