(* ===== verification/Kavach_Manifest.thy ===== *)
theory Kavach_Manifest
  imports Kavach_Verdict Kavach_Base64
begin

section \<open>Model bundle manifests\<close>

text \<open>
  Models \<open>crates/kavach-core/src/manifest.rs\<close> (base64 apart) and \<open>keys.rs\<close>: the checks on a
  manifest, its detached signature and the model file, and on a bundle directory. SHA-256,
  strict Ed25519 verification, hexadecimal encoding, the JSON parser and the file system are
  parameters, collected in two records; the properties hold for all of them.
\<close>

datatype DegradedReason =
    BundleMissing string
  | ManifestSchemaInvalid string
  | ManifestSignatureInvalid string
  | OnnxHashMismatch string string \<comment> \<open>expected, actual\<close>
  | RuntimeIncompatible string
  | RollbackRejected u64 u64 \<comment> \<open>minimum, actual\<close>
  | KeyRevoked string

definition show_DegradedReason :: "DegradedReason \<Rightarrow> string" where
  "show_DegradedReason r = (case r of
     BundleMissing msg \<Rightarrow> ''bundle_missing: '' @ msg
   | ManifestSchemaInvalid msg \<Rightarrow> ''manifest_schema_invalid: '' @ msg
   | ManifestSignatureInvalid msg \<Rightarrow> ''manifest_signature_invalid: '' @ msg
   | OnnxHashMismatch expected actual \<Rightarrow>
       ''onnx_hash_mismatch: expected '' @ expected @ '', actual '' @ actual
   | RuntimeIncompatible msg \<Rightarrow> ''runtime_incompatible: '' @ msg
   | RollbackRejected minimum actual \<Rightarrow>
       ''rollback_rejected: bundle generation '' @ show_word actual @ '' < minimum '' @ show_word minimum
   | KeyRevoked key_id \<Rightarrow> ''key_revoked: '' @ key_id)"

record OnnxMetadata =
  onnx_file :: string
  onnx_sha256 :: string
  opset :: u32
  quantization :: string

record TensorContract =
  tensor_name :: string
  direction :: string
  dtype :: string
  shape :: "u64 list"

record SemverRange =
  min_inclusive :: string
  max_exclusive :: string

record CompatibilityMatrix =
  detector :: SemverRange
  onnx_runtime :: SemverRange

record ModelManifest =
  manifest_version :: ArtifactVersion
  bundle_version :: string
  rollback_generation :: u64
  created_at :: string
  manifest_key_id :: string
  onnx :: OnnxMetadata
  tensors :: "TensorContract list"
  compatibility :: CompatibilityMatrix
  evaluation_report_sha256 :: string
  sbom_sha256 :: string

record 'k crypto =
  \<comment> \<open>the crates \<open>sha2\<close>, \<open>ed25519-dalek\<close> and \<open>hex\<close>; \<open>'k\<close> is \<open>VerifyingKey\<close>\<close>
  sha256_digest :: "bytes \<Rightarrow> bytes"
  verify_strict :: "'k \<Rightarrow> bytes \<Rightarrow> bytes \<Rightarrow> string + unit" \<comment> \<open>key, message, signature\<close>
  hex_encode :: "bytes \<Rightarrow> string"
  hex_decode :: "string \<Rightarrow> string + bytes"
  key_from_bytes :: "bytes \<Rightarrow> string + 'k"

record json =
  \<comment> \<open>\<open>serde_json\<close>: a whole manifest, and \<open>/onnx/file\<close> of an untyped value if it is a string\<close>
  parse_manifest :: "bytes \<Rightarrow> string + ModelManifest"
  parse_onnx_file :: "bytes \<Rightarrow> string + string option"

record files =
  path_join :: "string \<Rightarrow> string \<Rightarrow> string"
  read_bytes :: "string \<Rightarrow> string + bytes"
  read_text :: "string \<Rightarrow> string + string"

definition PINNED_REFERENCE_PUBLIC_KEY :: bytes where
  "PINNED_REFERENCE_PUBLIC_KEY = [216, 16, 13, 239, 132, 89, 195, 213, 92, 112, 152, 19, 86, 109,
     193, 194, 113, 140, 2, 74, 6, 25, 162, 54, 197, 120, 188, 223, 15, 14, 234, 175]"

definition pinned_reference_verifying_key :: "('k, 'x) crypto_scheme \<Rightarrow> 'k option" where
  \<comment> \<open>\<open>None\<close> is the panic of \<open>expect\<close>\<close>
  "pinned_reference_verifying_key lib = (case key_from_bytes lib PINNED_REFERENCE_PUBLIC_KEY of
     Ok k \<Rightarrow> Some k | Err _ \<Rightarrow> None)"

definition verify_manifest_and_onnx ::
    "('k, 'x) crypto_scheme \<Rightarrow> json \<Rightarrow> bytes \<Rightarrow> string \<Rightarrow> bytes \<Rightarrow> 'k \<Rightarrow> u64
      \<Rightarrow> DegradedReason + ModelManifest" where
  "verify_manifest_and_onnx lib js manifest_json_bytes sig_str onnx_bytes key min_rollback =
    (case map_err ManifestSchemaInvalid (parse_manifest js manifest_json_bytes) of
       Err e \<Rightarrow> Err e
     | Ok manifest \<Rightarrow>
       if major (manifest_version manifest) \<noteq> 1
         then Err (ManifestSchemaInvalid (''unsupported major version ''
           @ show_word (major (manifest_version manifest))))
       else if rollback_generation manifest < min_rollback
         then Err (RollbackRejected min_rollback (rollback_generation manifest))
       else
         let manifest_digest = sha256_digest lib manifest_json_bytes in
         case map_err (\<lambda>e. ManifestSignatureInvalid (''base64 decode: '' @ e)) (decode_base64 sig_str) of
           Err e \<Rightarrow> Err e
         | Ok sig_bytes \<Rightarrow>
           if length sig_bytes \<noteq> 64
             then Err (ManifestSignatureInvalid (''expected 64 signature bytes, got ''
               @ show_nat (length sig_bytes)))
           else case map_err ManifestSignatureInvalid (verify_strict lib key manifest_digest sig_bytes) of
             Err e \<Rightarrow> Err e
           | Ok _ \<Rightarrow>
             let onnx_actual_hex = hex_encode lib (sha256_digest lib onnx_bytes);
                 expected_hex = to_ascii_lowercase (onnx_sha256 (onnx manifest)) in
             if onnx_actual_hex \<noteq> expected_hex
               then Err (OnnxHashMismatch expected_hex onnx_actual_hex)
             else Ok manifest)"

definition read_or_missing :: "(string \<Rightarrow> string + 'a) \<Rightarrow> string \<Rightarrow> DegradedReason + 'a" where
  "read_or_missing read path = map_err (\<lambda>e. BundleMissing (path @ '': '' @ e)) (read path)"

definition verify_bundle_dir ::
    "('k, 'x) crypto_scheme \<Rightarrow> json \<Rightarrow> ('y) files_scheme \<Rightarrow> string \<Rightarrow> 'k \<Rightarrow> u64
      \<Rightarrow> DegradedReason + ModelManifest" where
  "verify_bundle_dir lib js fs bundle_dir key min_rollback =
    (case read_or_missing (read_bytes fs) (path_join fs bundle_dir ''manifest.json'') of
       Err e \<Rightarrow> Err e
     | Ok manifest_bytes \<Rightarrow>
     (case read_or_missing (read_text fs) (path_join fs bundle_dir ''manifest.sig'') of
       Err e \<Rightarrow> Err e
     | Ok sig_str \<Rightarrow>
     (case map_err ManifestSchemaInvalid (parse_onnx_file js manifest_bytes) of
       Err e \<Rightarrow> Err e
     | Ok None \<Rightarrow> Err (ManifestSchemaInvalid ''missing /onnx/file field'')
     | Ok (Some onnx_file_name) \<Rightarrow>
     (case read_or_missing (read_bytes fs) (path_join fs bundle_dir onnx_file_name) of
       Err e \<Rightarrow> Err e
     | Ok onnx_bytes \<Rightarrow>
       verify_manifest_and_onnx lib js manifest_bytes sig_str onnx_bytes key min_rollback))))"

subsection \<open>What acceptance means\<close>

definition manifest_accepted ::
    "('k, 'x) crypto_scheme \<Rightarrow> json \<Rightarrow> bytes \<Rightarrow> string \<Rightarrow> bytes \<Rightarrow> 'k \<Rightarrow> u64 \<Rightarrow> ModelManifest \<Rightarrow> bool" where
  \<comment> \<open>ADR 004: version, rollback, signature over the manifest digest, model digest\<close>
  "manifest_accepted lib js mb sg ob key min_rollback m \<longleftrightarrow>
     parse_manifest js mb = Ok m \<and> major (manifest_version m) = 1
     \<and> min_rollback \<le> rollback_generation m
     \<and> (\<exists>s. decode_base64 sg = Ok s \<and> length s = 64
          \<and> verify_strict lib key (sha256_digest lib mb) s = Ok ())
     \<and> hex_encode lib (sha256_digest lib ob) = to_ascii_lowercase (onnx_sha256 (onnx m))"

lemma sum_case_Ok: "(case r of Err e \<Rightarrow> Err e | Ok a \<Rightarrow> f a) = Ok b \<longleftrightarrow> (\<exists>a. r = Ok a \<and> f a = Ok b)"
  by (cases r) auto

lemma option_case_Ok:
  "(case a of None \<Rightarrow> Err e | Some x \<Rightarrow> f x) = Ok b \<longleftrightarrow> (\<exists>x. a = Some x \<and> f x = Ok b)"
  by (cases a) auto

lemma if_Err_Ok: "(if c then Err e else x) = Ok b \<longleftrightarrow> \<not> c \<and> x = Ok b"
  by simp

lemma verify_manifest_Ok:
  "verify_manifest_and_onnx lib js mb sg ob key min_rollback = Ok m \<longleftrightarrow>
     manifest_accepted lib js mb sg ob key min_rollback m"
  by (auto simp: verify_manifest_and_onnx_def manifest_accepted_def sum_case_Ok if_Err_Ok Let_def not_less)

lemma read_or_missing_Ok [simp]: "read_or_missing read p = Ok a \<longleftrightarrow> read p = Ok a"
  by (simp add: read_or_missing_def)

lemma verify_bundle_Ok:
  "verify_bundle_dir lib js fs dir key min_rollback = Ok m \<longleftrightarrow>
     (\<exists>mb sg name ob. read_bytes fs (path_join fs dir ''manifest.json'') = Ok mb
        \<and> read_text fs (path_join fs dir ''manifest.sig'') = Ok sg
        \<and> parse_onnx_file js mb = Ok (Some name)
        \<and> read_bytes fs (path_join fs dir name) = Ok ob
        \<and> manifest_accepted lib js mb sg ob key min_rollback m)"
  by (auto simp: verify_bundle_dir_def sum_case_Ok option_case_Ok verify_manifest_Ok)

definition sample_manifest :: ModelManifest where
  "sample_manifest = \<lparr>manifest_version = \<lparr>major = 1, minor = 0\<rparr>, bundle_version = ''0.1.0'',
     rollback_generation = 2, created_at = ''2026'', manifest_key_id = ''k'',
     onnx = \<lparr>onnx_file = ''m.onnx'', onnx_sha256 = ''AB'', opset = 21, quantization = ''int8_qdq''\<rparr>,
     tensors = [], compatibility = \<lparr>detector = \<lparr>min_inclusive = ''0.1.0'', max_exclusive = ''0.2.0''\<rparr>,
       onnx_runtime = \<lparr>min_inclusive = ''1.20.0'', max_exclusive = ''1.22.0''\<rparr>\<rparr>,
     evaluation_report_sha256 = [], sbom_sha256 = []\<rparr>"

definition sample_crypto :: "unit crypto" where
  \<comment> \<open>a digest and an encoding that lose nothing; every signature verifies\<close>
  "sample_crypto = \<lparr>sha256_digest = (\<lambda>b. b), verify_strict = (\<lambda>_ _ _. Ok ()),
     hex_encode = string_of_bytes, hex_decode = (\<lambda>s. Ok (as_bytes s)), key_from_bytes = (\<lambda>_. Ok ())\<rparr>"

definition sample_json :: json where
  "sample_json = \<lparr>parse_manifest = (\<lambda>_. Ok sample_manifest), parse_onnx_file = (\<lambda>_. Ok (Some ''m.onnx''))\<rparr>"

lemma inj_string_of_bytes: "inj string_of_bytes"
  by (rule inj_on_inverseI [of _ as_bytes]) simp

lemma sample_accepted:
  "verify_manifest_and_onnx sample_crypto sample_json [] (encode_base64 (replicate 64 n)) (as_bytes ''ab'') () 1
     = Ok sample_manifest"
  unfolding verify_manifest_Ok
  by (simp add: manifest_accepted_def sample_crypto_def sample_json_def sample_manifest_def decode_encode
      to_ascii_lowercase_def to_ascii_lowercase_char_def char_of_eval)

subsection \<open>Properties\<close>


text \<open>C33: the signed manifest pins the model: two model files accepted under the same manifest
  bytes have the same SHA-256 digest, whatever the signatures, as hexadecimal encoding
  loses nothing.\<close>

theorem manifest_pins_model:
  assumes "inj (hex_encode lib)"
    and "verify_manifest_and_onnx lib js mb sg ob key g = Ok m"
    and "verify_manifest_and_onnx lib js mb sg' ob' key' g' = Ok m'"
  shows "m' = m \<and> sha256_digest lib ob' = sha256_digest lib ob"
  using assms by (auto simp: verify_manifest_Ok manifest_accepted_def inj_def)

theorem manifest_pins_model_witness:
  "is_ok (verify_manifest_and_onnx sample_crypto sample_json [] (encode_base64 (replicate 64 0)) (as_bytes ''ab'') () 1)
   \<and> is_ok (verify_manifest_and_onnx sample_crypto sample_json [] (encode_base64 (replicate 64 1)) (as_bytes ''ab'') () 1)
   \<and> sha256_digest sample_crypto (as_bytes ''ab'') = sha256_digest sample_crypto (as_bytes ''ab'')"
  using manifest_pins_model [OF _ sample_accepted [of 0] sample_accepted [of 1]] sample_accepted
  by (simp add: sample_crypto_def inj_string_of_bytes)

end
