(* ===== verification/Kavach_Config.thy ===== *)
theory Kavach_Config
  imports Kavach_Verdict
begin

section \<open>Configuration\<close>

text \<open>
  Models \<open>crates/kavach-core/src/config.rs\<close>: the configuration of \<open>kavach.toml\<close>, its compiled-in
  defaults, the validation of every bound with its message, and loading with the fallback to
  the safe defaults. The TOML parser and the file system are parameters.
\<close>

record ContainmentConfig =
  cfg_hard_kill_enabled :: bool
  cfg_minimum_corroborating_evidence :: u8
  suspend_action_ttl_seconds :: u32

record AllowlistConfig =
  manifest_path :: string
  required_policy_generation :: u64

record ModelConfig =
  bundle_directory :: string
  minimum_rollback_generation :: u64
  minimum_keyring_generation :: u64
  allow_last_known_good :: bool

record WslConfig =
  cfg_correlation_window_ms :: u32
  maximum_clock_uncertainty_ms :: u32
  clock_sync_interval_seconds :: u32
  clock_sync_stale_after_seconds :: u32
  ambiguous_vm_containment_enabled :: bool

record KavachConfig =
  config_version :: ArtifactVersion
  containment :: ContainmentConfig
  allowlist :: AllowlistConfig
  model :: ModelConfig
  wsl :: WslConfig

definition default_min_evidence :: u8 where
  [kavach_const]: "default_min_evidence = 3"

definition default_suspend_ttl :: u32 where
  [kavach_const]: "default_suspend_ttl = 3600"

definition default_allowlist_manifest :: string where
  [kavach_const]: "default_allowlist_manifest = ''policy/allowlist.json''"

definition default_model_bundle_dir :: string where
  [kavach_const]: "default_model_bundle_dir = ''models/active''"

definition default_correlation_window_ms :: u32 where
  [kavach_const]: "default_correlation_window_ms = 250"

definition default_max_clock_uncertainty_ms :: u32 where
  [kavach_const]: "default_max_clock_uncertainty_ms = 50"

definition default_clock_sync_interval :: u32 where
  [kavach_const]: "default_clock_sync_interval = 30"

definition default_clock_sync_stale :: u32 where
  [kavach_const]: "default_clock_sync_stale = 90"

definition containment_default :: ContainmentConfig where
  "containment_default = \<lparr>cfg_hard_kill_enabled = False,
     cfg_minimum_corroborating_evidence = default_min_evidence,
     suspend_action_ttl_seconds = default_suspend_ttl\<rparr>"

definition allowlist_default :: AllowlistConfig where
  "allowlist_default = \<lparr>manifest_path = default_allowlist_manifest, required_policy_generation = 0\<rparr>"

definition model_default :: ModelConfig where
  "model_default = \<lparr>bundle_directory = default_model_bundle_dir, minimum_rollback_generation = 0,
     minimum_keyring_generation = 0, allow_last_known_good = True\<rparr>"

definition wsl_default :: WslConfig where
  "wsl_default = \<lparr>cfg_correlation_window_ms = default_correlation_window_ms,
     maximum_clock_uncertainty_ms = default_max_clock_uncertainty_ms,
     clock_sync_interval_seconds = default_clock_sync_interval,
     clock_sync_stale_after_seconds = default_clock_sync_stale,
     ambiguous_vm_containment_enabled = False\<rparr>"

definition safe_defaults :: KavachConfig where
  "safe_defaults = \<lparr>config_version = \<lparr>major = 1, minor = 0\<rparr>, containment = containment_default,
     allowlist = allowlist_default, model = model_default, wsl = wsl_default\<rparr>"

datatype ConfigError =
    IoError string
  | ParseError string
  | UnsupportedMajorVersion u16
  | InvalidBounds string

definition show_ConfigError :: "ConfigError \<Rightarrow> string" where
  "show_ConfigError e = (case e of
     IoError msg \<Rightarrow> ''configuration I/O error: '' @ msg
   | ParseError msg \<Rightarrow> ''configuration syntax error: '' @ msg
   | UnsupportedMajorVersion v \<Rightarrow> ''unsupported configuration major version: '' @ show_word v
   | InvalidBounds msg \<Rightarrow> ''configuration bounds violation: '' @ msg)"

definition validate :: "KavachConfig \<Rightarrow> ConfigError + unit" where
  "validate c =
    (if major (config_version c) \<noteq> 1
       then Err (UnsupportedMajorVersion (major (config_version c)))
     else if cfg_minimum_corroborating_evidence (containment c) = 0
       then Err (InvalidBounds ''minimum_corroborating_evidence must be between 1 and 255'')
     else if \<not> (60 \<le> suspend_action_ttl_seconds (containment c)
                \<and> suspend_action_ttl_seconds (containment c) \<le> 86400)
       then Err (InvalidBounds (''suspend_action_ttl_seconds (''
         @ show_word (suspend_action_ttl_seconds (containment c)) @ '') must be between 60 and 86400''))
     else if \<not> (10 \<le> cfg_correlation_window_ms (wsl c) \<and> cfg_correlation_window_ms (wsl c) \<le> 250)
       then Err (InvalidBounds (''correlation_window_ms (''
         @ show_word (cfg_correlation_window_ms (wsl c)) @ '') must be between 10 and 250 in v1''))
     else if \<not> (1 \<le> maximum_clock_uncertainty_ms (wsl c) \<and> maximum_clock_uncertainty_ms (wsl c) \<le> 50)
       then Err (InvalidBounds (''maximum_clock_uncertainty_ms (''
         @ show_word (maximum_clock_uncertainty_ms (wsl c)) @ '') must be between 1 and 50''))
     else if clock_sync_interval_seconds (wsl c) \<noteq> 30
       then Err (InvalidBounds (''clock_sync_interval_seconds (''
         @ show_word (clock_sync_interval_seconds (wsl c)) @ '') is fixed at 30 in v1''))
     else if clock_sync_stale_after_seconds (wsl c) \<noteq> 90
       then Err (InvalidBounds (''clock_sync_stale_after_seconds (''
         @ show_word (clock_sync_stale_after_seconds (wsl c)) @ '') is fixed at 90 in v1''))
     else Ok ())"

definition from_toml_str ::
    "(string \<Rightarrow> string + KavachConfig) \<Rightarrow> string \<Rightarrow> ConfigError + KavachConfig" where
  "from_toml_str parse_toml s = (case map_err ParseError (parse_toml s) of
     Err e \<Rightarrow> Err e
   | Ok config \<Rightarrow> (case validate config of Err e \<Rightarrow> Err e | Ok _ \<Rightarrow> Ok config))"

definition load_or_safe_defaults ::
    "(string \<Rightarrow> string + KavachConfig) \<Rightarrow> (string \<Rightarrow> string + string) \<Rightarrow> string
      \<Rightarrow> KavachConfig \<times> ConfigError option" where
  "load_or_safe_defaults parse_toml read_to_string path = (case read_to_string path of
     Err e \<Rightarrow> (safe_defaults, Some (IoError e))
   | Ok content \<Rightarrow> (case from_toml_str parse_toml content of
       Ok cfg \<Rightarrow> (cfg, None)
     | Err err \<Rightarrow> (safe_defaults, Some err)))"

subsection \<open>Properties\<close>

definition within_bounds :: "KavachConfig \<Rightarrow> bool" where
  \<comment> \<open>the bounds of \<open>docs/config-schema.md\<close>\<close>
  "within_bounds c \<longleftrightarrow> major (config_version c) = 1
     \<and> unat (cfg_minimum_corroborating_evidence (containment c)) \<in> {1..255}
     \<and> unat (suspend_action_ttl_seconds (containment c)) \<in> {60..86400}
     \<and> unat (cfg_correlation_window_ms (wsl c)) \<in> {10..250}
     \<and> unat (maximum_clock_uncertainty_ms (wsl c)) \<in> {1..50}
     \<and> unat (clock_sync_interval_seconds (wsl c)) = 30
     \<and> unat (clock_sync_stale_after_seconds (wsl c)) = 90"

lemma unat_eq_30_90: "unat w = 30 \<longleftrightarrow> w = 30" "unat w = 90 \<longleftrightarrow> w = 90" for w :: u32
  by (simp_all add: word_unat_eq_iff)

lemma validate_Ok: "validate c = Ok () \<longleftrightarrow> within_bounds c"
proof -
  have "unat (cfg_minimum_corroborating_evidence (containment c)) \<le> 255"
    using unat_bound [of "cfg_minimum_corroborating_evidence (containment c)"] by simp
  moreover have "unat (cfg_minimum_corroborating_evidence (containment c)) = 0
      \<longleftrightarrow> cfg_minimum_corroborating_evidence (containment c) = 0"
    by (rule unat_eq_0)
  ultimately show ?thesis
    by (auto simp: validate_def within_bounds_def word_le_nat_alt unat_eq_30_90)
qed

lemma validate_safe_defaults: "validate safe_defaults = Ok ()"
  by (simp add: validate_def safe_defaults_def containment_default_def wsl_default_def kavach_const)

text \<open>C26: whatever is on disk and whatever the parser makes of it, the loaded configuration
  satisfies every bound of the schema; it is the parsed one exactly when reading, parsing and
  validation succeed, and otherwise the safe defaults together with the error.\<close>

theorem loaded_config_within_bounds:
  fixes parse_toml read_to_string path
  defines "r \<equiv> load_or_safe_defaults parse_toml read_to_string path"
  shows "within_bounds (fst r)
    \<and> (snd r = None \<longleftrightarrow> (\<exists>content. read_to_string path = Ok content
          \<and> parse_toml content = Ok (fst r) \<and> within_bounds (fst r)))
    \<and> (snd r = None \<or> fst r = safe_defaults)"
proof -
  have bounds: "within_bounds safe_defaults" using validate_Ok validate_safe_defaults by blast
  show ?thesis
  proof (cases "read_to_string path")
    case (Inl e)
    with bounds show ?thesis by (simp add: r_def load_or_safe_defaults_def)
  next
    case (Inr content)
    show ?thesis
    proof (cases "parse_toml content")
      case (Inl e)
      with bounds \<open>read_to_string path = Ok content\<close> show ?thesis
        by (simp add: r_def load_or_safe_defaults_def from_toml_str_def)
    next
      case (Inr cfg)
      with bounds validate_Ok [of cfg] \<open>read_to_string path = Ok content\<close> show ?thesis
        by (cases "validate cfg") (auto simp: r_def load_or_safe_defaults_def from_toml_str_def)
    qed
  qed
qed

end
