(* ===== verification/Kavach_Onnx.thy ===== *)
theory Kavach_Onnx
  imports Kavach_Prelude
begin

section \<open>The protobuf writer and the stub model\<close>

text \<open>
  Models \<open>tools/kavach-pack/src/onnx_builder.rs\<close>: the protobuf writer, the message builders and
  the generated reference model. The wire format is specified independently by a reader
  (\<open>read_varint\<close>, \<open>parse_message\<close>), against which the writer is proved.
\<close>

record ProtoWriter =
  proto_bytes :: bytes

definition writer_new :: ProtoWriter where
  "writer_new = \<lparr>proto_bytes = []\<rparr>"

lemma unat_drop_bit_7: "unat (drop_bit 7 v) = unat v div 128" for v :: u64
  unfolding unat_drop_bit_eq by (simp add: drop_bit_eq_div)

lemma drop_bit_7_less: "\<not> v < 0x80 \<Longrightarrow> unat (drop_bit 7 v) < unat v" for v :: u64
  unfolding unat_drop_bit_7 by (simp add: not_less word_le_nat_alt)

function varint :: "u64 \<Rightarrow> bytes" where
  \<comment> \<open>the bytes the loop of \<open>write_varint\<close> pushes\<close>
  "varint v = (if v \<ge> 0x80 then ((ucast (v AND 0x7F)) OR 0x80) # varint (drop_bit 7 v)
     else [ucast v])"
  by auto
termination
  by (relation "measure unat") (simp_all add: drop_bit_7_less not_less)

declare varint.simps [simp del]

definition write_varint :: "ProtoWriter \<Rightarrow> u64 \<Rightarrow> ProtoWriter" where
  "write_varint w v = w\<lparr>proto_bytes := proto_bytes w @ varint v\<rparr>"

definition write_tag :: "ProtoWriter \<Rightarrow> u32 \<Rightarrow> u8 \<Rightarrow> ProtoWriter" where
  "write_tag w field_number wire_type =
     write_varint w ((push_bit 3 (ucast field_number)) OR (ucast wire_type))"

definition write_int64 :: "ProtoWriter \<Rightarrow> u32 \<Rightarrow> i64 \<Rightarrow> ProtoWriter" where
  "write_int64 w field_number val = write_varint (write_tag w field_number 0) (word_of_int val)"

definition write_string :: "ProtoWriter \<Rightarrow> u32 \<Rightarrow> string \<Rightarrow> ProtoWriter" where
  "write_string w field_number s =
    (let w = write_varint (write_tag w field_number 2) (word_of_nat (length s))
     in w\<lparr>proto_bytes := proto_bytes w @ as_bytes s\<rparr>)"

definition write_message :: "ProtoWriter \<Rightarrow> u32 \<Rightarrow> ProtoWriter \<Rightarrow> ProtoWriter" where
  "write_message w field_number sub =
    (let w = write_varint (write_tag w field_number 2) (word_of_nat (length (proto_bytes sub)))
     in w\<lparr>proto_bytes := proto_bytes w @ proto_bytes sub\<rparr>)"

definition ONNX_DTYPE_FLOAT :: i64 where
  [kavach_const]: "ONNX_DTYPE_FLOAT = 1"

definition ONNX_DTYPE_INT8 :: i64 where
  [kavach_const]: "ONNX_DTYPE_INT8 = 3"

definition build_tensor_value_info :: "string \<Rightarrow> i64 \<Rightarrow> i64 list \<Rightarrow> ProtoWriter" where
  "build_tensor_value_info name elem_type dims =
    (let shape_writer = foldl (\<lambda>sw d. write_message sw 1 (write_int64 writer_new 1 d)) writer_new dims;
         tensor_type_writer = write_message (write_int64 writer_new 1 elem_type) 2 shape_writer;
         type_writer = write_message writer_new 1 tensor_type_writer
     in write_message (write_string writer_new 1 name) 2 type_writer)"

definition build_int_attribute :: "string \<Rightarrow> i64 \<Rightarrow> ProtoWriter" where
  "build_int_attribute name val = write_int64 (write_int64 (write_string writer_new 1 name) 2 val) 20 2"

definition build_node ::
    "string \<Rightarrow> string list \<Rightarrow> string list \<Rightarrow> string \<Rightarrow> ProtoWriter list \<Rightarrow> ProtoWriter" where
  "build_node op_type inputs outputs name attributes =
    (let node = foldl (\<lambda>n inp. write_string n 1 inp) writer_new inputs;
         node = foldl (\<lambda>n out. write_string n 2 out) node outputs;
         node = write_string node 3 name;
         node = write_string node 4 op_type
     in foldl (\<lambda>n attr. write_message n 5 attr) node attributes)"

definition stub_graph :: ProtoWriter where
  \<comment> \<open>the graph of \<open>generate_kavach_stub_onnx\<close>, lines 107 to 195\<close>
  "stub_graph =
    (let g = write_string (write_string writer_new 2 ''kavach_multitask_graph'') 5
               ''Kavach Multi-Task INT8 Detection Graph'';
         g = write_message g 11 (build_tensor_value_info ''io_input'' ONNX_DTYPE_INT8 [1, 10, 4]);
         g = write_message g 11 (build_tensor_value_info ''net_input'' ONNX_DTYPE_INT8 [1, 32, 4]);
         g = write_message g 11 (build_tensor_value_info ''audit_input'' ONNX_DTYPE_INT8 [1, 16, 4]);
         g = write_message g 12 (build_tensor_value_info ''io_score'' ONNX_DTYPE_FLOAT [1, 1]);
         g = write_message g 12 (build_tensor_value_info ''net_score'' ONNX_DTYPE_FLOAT [1, 1]);
         g = write_message g 12 (build_tensor_value_info ''audit_score'' ONNX_DTYPE_FLOAT [1, 1]);
         cast_to_float = build_int_attribute ''to'' ONNX_DTYPE_FLOAT;
         keepdims = build_int_attribute ''keepdims'' 1;
         g = write_message g 1 (build_node ''Cast'' [''io_input''] [''io_float''] ''node_io_cast'' [cast_to_float]);
         g = write_message g 1 (build_node ''ReduceMean'' [''io_float''] [''io_score''] ''node_io_reduce'' [keepdims]);
         g = write_message g 1 (build_node ''Cast'' [''net_input''] [''net_float''] ''node_net_cast'' [cast_to_float]);
         g = write_message g 1 (build_node ''ReduceMean'' [''net_float''] [''net_score''] ''node_net_reduce'' [keepdims]);
         g = write_message g 1 (build_node ''Cast'' [''audit_input''] [''audit_float''] ''node_audit_cast'' [cast_to_float]);
         g = write_message g 1 (build_node ''ReduceMean'' [''audit_float''] [''audit_score''] ''node_audit_reduce'' [keepdims])
     in g)"

definition generate_kavach_stub_onnx :: "i64 \<Rightarrow> bytes" where
  "generate_kavach_stub_onnx opset_version =
    (let opset_writer = write_int64 (write_string writer_new 1 []) 2 opset_version;
         mw = write_int64 writer_new 1 9;
         mw = write_string mw 2 ''kavach-pack'';
         mw = write_string mw 3 ''0.1.0'';
         mw = write_string mw 4 ''ai.kavach'';
         mw = write_int64 mw 5 1;
         mw = write_string mw 6 ''Kavach-NPU Multitask INT8 Computational Graph'';
         mw = write_message mw 7 stub_graph;
         mw = write_message mw 8 opset_writer
     in proto_bytes mw)"

subsection \<open>The wire format\<close>

fun read_varint :: "bytes \<Rightarrow> (nat \<times> bytes) option" where
  "read_varint [] = None"
| "read_varint (b # bs) =
     (if b < 0x80 then Some (unat b, bs)
      else case read_varint bs of
        None \<Rightarrow> None
      | Some (n, rest) \<Rightarrow> Some (unat (b AND 0x7F) + 128 * n, rest))"

datatype field = Varint nat nat | Delimited nat bytes \<comment> \<open>field number, contents\<close>

definition read_field :: "bytes \<Rightarrow> (field \<times> bytes) option" where
  "read_field bs = (case read_varint bs of
     None \<Rightarrow> None
   | Some (tag, rest) \<Rightarrow>
       if tag mod 8 = 0 then map_option (\<lambda>(n, r). (Varint (tag div 8) n, r)) (read_varint rest)
       else if tag mod 8 = 2 then
         (case read_varint rest of
           None \<Rightarrow> None
         | Some (n, r) \<Rightarrow> if n \<le> length r then Some (Delimited (tag div 8) (take n r), drop n r) else None)
       else None)"

fun read_fields :: "nat \<Rightarrow> bytes \<Rightarrow> field list option" where
  \<comment> \<open>a field takes at least one byte, so the length of the input is enough fuel\<close>
  "read_fields n [] = Some []"
| "read_fields 0 (b # bs) = None"
| "read_fields (Suc n) (b # bs) = (case read_field (b # bs) of
     None \<Rightarrow> None
   | Some (f, rest) \<Rightarrow> map_option (\<lambda>fs. f # fs) (read_fields n rest))"

definition parse_message :: "bytes \<Rightarrow> field list option" where
  "parse_message bs = read_fields (length bs) bs"

lemma unat_low7: "unat (ucast (v AND 0x7F) :: u8) = unat v mod 128" for v :: u64
proof -
  have m: "v AND 0x7F = take_bit 7 v" by (simp add: take_bit_eq_mask mask_eq_exp_minus_1)
  show ?thesis unfolding m unsigned_ucast_eq unsigned_take_bit_eq by (simp add: take_bit_eq_mod mod_mod_cancel)
qed

lemma continuation_byte:
  fixes v :: u64
  defines "b \<equiv> (ucast (v AND 0x7F) OR 0x80 :: u8)"
  shows "\<not> b < 0x80" "unat (b AND 0x7F) = unat v mod 128"
proof -
  have mm: "(0x7F :: u8) = mask 7" "(0x80 :: u8) = push_bit 7 1" "(0x7F :: u64) = mask 7"
    by (simp_all add: mask_eq_exp_minus_1)
  have "0x80 \<le> b" unfolding b_def by (subst or.commute) (rule le_word_or2)
  then show "\<not> b < 0x80" by (simp add: not_less)
  have "b AND 0x7F = ucast (v AND 0x7F)"
    unfolding b_def mm by (rule byte_eqI) (simp_all add: bit_simps)
  then show "unat (b AND 0x7F) = unat v mod 128" by (simp only: unat_low7)
qed

lemma read_varint_varint: "read_varint (varint v @ rest) = Some (unat v, rest)"
proof (induction v rule: varint.induct)
  case (1 v)
  show ?case
  proof (cases "v \<ge> 0x80")
    case True
    then have IH: "read_varint (varint (drop_bit 7 v) @ rest) = Some (unat v div 128, rest)"
      using 1 by (simp add: unat_drop_bit_7)
    have "varint v = (ucast (v AND 0x7F) OR 0x80) # varint (drop_bit 7 v)"
      using True by (subst varint.simps) simp
    then show ?thesis
      using IH continuation_byte [of v] by (simp only: append_Cons read_varint.simps if_False option.case prod.case)
        (simp add: mult.commute [of 128])
  next
    case False
    then have small: "unat v < 128" by (simp add: not_le word_less_nat_alt)
    then have "unat (ucast v :: u8) = unat v"
      unfolding unsigned_ucast_eq by (simp add: take_bit_nat_eq_self)
    then show ?thesis
      using False small by (subst varint.simps) (simp add: word_less_nat_alt)
  qed
qed

lemma varint_not_Nil [simp]: "varint v \<noteq> []"
  by (subst varint.simps) simp

definition field_tag :: "u32 \<Rightarrow> u8 \<Rightarrow> u64" where
  "field_tag n t = (push_bit 3 (ucast n)) OR (ucast t)"

lemma unat_field_tag: "unat (field_tag n 0) = 8 * unat n" "unat (field_tag n 2) = 8 * unat n + 2"
proof -
  have "unat n < 2 ^ 32" using unat_bound [of n] by simp
  then have sh: "unat (push_bit 3 (ucast n) :: u64) = 8 * unat n"
    unfolding unsigned_push_bit_eq unsigned_ucast_eq
    by (simp add: push_bit_eq_mult take_bit_eq_mod)
  then show "unat (field_tag n 0) = 8 * unat n" by (simp add: field_tag_def)
  have "\<not> bit (push_bit 3 (ucast n) :: u64) k \<or> \<not> bit (2 :: u64) k" for k
    by (auto simp: bit_2_iff bit_push_bit_iff)
  then have "field_tag n 2 = push_bit 3 (ucast n) + 2"
    unfolding field_tag_def by (simp add: disjunctive_add)
  moreover have "unat (push_bit 3 (ucast n) + 2 :: u64) = unat (push_bit 3 (ucast n) :: u64) + 2"
    using sh \<open>unat n < 2 ^ 32\<close> by (subst unat_add_no_wrap) simp_all
  ultimately show "unat (field_tag n 2) = 8 * unat n + 2" using sh by simp
qed

subsection \<open>The writer against the reader\<close>

fun encode_field :: "field \<Rightarrow> bytes" where
  "encode_field (Varint n v) = varint (field_tag (word_of_nat n) 0) @ varint (word_of_nat v)"
| "encode_field (Delimited n bs) =
     varint (field_tag (word_of_nat n) 2) @ varint (word_of_nat (length bs)) @ bs"

fun valid_field :: "field \<Rightarrow> bool" where
  "valid_field (Varint n v) \<longleftrightarrow> n < 2 ^ 32 \<and> v < 2 ^ 64"
| "valid_field (Delimited n bs) \<longleftrightarrow> n < 2 ^ 32 \<and> length bs < 2 ^ 64"

lemma read_field_encode: "valid_field f \<Longrightarrow> read_field (encode_field f @ rest) = Some (f, rest)"
proof (cases f)
  case (Varint n v)
  assume "valid_field f"
  with Varint have "unat (word_of_nat n :: u32) = n" "unat (word_of_nat v :: u64) = v"
    by (simp_all add: unat_of_nat)
  then show ?thesis
    using read_varint_varint [of "word_of_nat v" rest]
    by (simp add: Varint read_field_def read_varint_varint unat_field_tag)
next
  case (Delimited n bs)
  assume "valid_field f"
  with Delimited have "unat (word_of_nat n :: u32) = n" "unat (word_of_nat (length bs) :: u64) = length bs"
    by (simp_all add: unat_of_nat)
  moreover have "(8 * n + 2) mod 8 = 2" "(8 * n + 2) div 8 = n" by presburger+
  ultimately show ?thesis
    by (simp add: Delimited read_field_def read_varint_varint unat_field_tag)
qed

lemma encode_field_Nil [simp]: "encode_field f \<noteq> []"
  by (cases f) simp_all

definition encode_fields :: "field list \<Rightarrow> bytes" where
  "encode_fields fs = concat (map encode_field fs)"

lemma read_fields_encode:
  "\<forall>f \<in> set fs. valid_field f \<Longrightarrow> length (encode_fields fs) \<le> n \<Longrightarrow>
     read_fields n (encode_fields fs) = Some fs"
proof (induction fs arbitrary: n)
  case Nil
  show ?case by (simp add: encode_fields_def)
next
  case (Cons f fs)
  let ?b = "encode_field f @ encode_fields fs"
  have e: "encode_fields (f # fs) = ?b" by (simp add: encode_fields_def)
  have p: "0 < length (encode_field f)" by simp
  obtain k where n: "n = Suc k" using Cons.prems(2) p unfolding e by (cases n) auto
  have k: "length (encode_fields fs) \<le> k"
    using Cons.prems(2) p unfolding e n length_append by linarith
  have "read_fields (Suc k) ?b = (case read_field ?b of None \<Rightarrow> None
      | Some (g, rest) \<Rightarrow> map_option (\<lambda>gs. g # gs) (read_fields k rest))"
    by (cases ?b) simp_all
  then show ?case using Cons.IH [OF _ k] Cons.prems(1) by (simp add: n e read_field_encode)
qed

lemma parse_encode: "\<forall>f \<in> set fs. valid_field f \<Longrightarrow> parse_message (encode_fields fs) = Some fs"
  by (simp add: parse_message_def read_fields_encode)

lemma encode_fields_simps [simp]:
  "encode_fields [] = []" "encode_fields (fs @ gs) = encode_fields fs @ encode_fields gs"
  "encode_fields (f # fs) = encode_field f @ encode_fields fs"
  by (simp_all add: encode_fields_def)

lemma write_int64_field:
  "proto_bytes (write_int64 w n v) = proto_bytes w @ encode_field (Varint (unat n) (unat (word_of_int v :: u64)))"
  by (simp add: write_int64_def write_tag_def write_varint_def field_tag_def)

lemma write_string_field:
  "proto_bytes (write_string w n s) = proto_bytes w @ encode_field (Delimited (unat n) (as_bytes s))"
  by (simp add: write_string_def write_tag_def write_varint_def field_tag_def Let_def)

lemma write_message_field:
  "proto_bytes (write_message w n sub) = proto_bytes w @ encode_field (Delimited (unat n) (proto_bytes sub))"
  by (simp add: write_message_def write_tag_def write_varint_def field_tag_def Let_def)

lemmas write_fields = write_int64_field write_string_field write_message_field

lemma writer_new_bytes [simp]: "proto_bytes writer_new = []"
  by (simp add: writer_new_def)

lemma length_varint_small:
  "unat v < 128 \<Longrightarrow> length (varint v) = 1"
  "128 \<le> unat v \<Longrightarrow> unat v < 16384 \<Longrightarrow> length (varint v) = 2"
proof -
  show small: "length (varint v) = 1" if "unat v < 128" for v
    using that by (subst varint.simps) (simp add: word_le_nat_alt)
  show "length (varint v) = 2" if "128 \<le> unat v" "unat v < 16384"
    using that small [of "drop_bit 7 v"] by (subst varint.simps) (simp add: word_le_nat_alt unat_drop_bit_7)
qed

lemma length_varint_bound: "0 < n \<Longrightarrow> unat v < 128 ^ n \<Longrightarrow> length (varint v) \<le> n"
proof (induction n arbitrary: v)
  case 0
  then show ?case by simp
next
  case (Suc n)
  show ?case
  proof (cases "unat v < 128")
    case True
    then show ?thesis by (simp add: length_varint_small)
  next
    case False
    then have "n \<noteq> 0" using Suc.prems by (cases n) simp_all
    moreover have "unat (drop_bit 7 v) < 128 ^ n"
      using Suc.prems by (simp add: unat_drop_bit_7 less_mult_imp_div_less mult.commute)
    ultimately show ?thesis
      using False Suc.IH [of "drop_bit 7 v"] by (subst varint.simps) (simp add: word_le_nat_alt)
  qed
qed

lemma length_varint: "length (varint v) \<le> 10"
  using unat_bound [of v] by (intro length_varint_bound) simp_all

lemma length_encode_field:
  "length (encode_field (Varint n v)) = length (varint (field_tag (word_of_nat n) 0)) + length (varint (word_of_nat v))"
  "length (encode_field (Delimited n bs)) =
     length (varint (field_tag (word_of_nat n) 2)) + length (varint (word_of_nat (length bs))) + length bs"
  by simp_all

lemmas length_fields = write_fields length_encode_field length_varint_small unat_field_tag unat_of_nat

lemma length_attributes:
  "length (proto_bytes (build_int_attribute ''to'' ONNX_DTYPE_FLOAT)) = 9"
  "length (proto_bytes (build_int_attribute ''keepdims'' 1)) = 15"
  by (simp_all add: build_int_attribute_def length_fields kavach_const del: encode_field.simps)

lemmas length_build = build_tensor_value_info_def build_node_def length_fields length_attributes kavach_const Let_def

lemma length_value_infos:
  "length (proto_bytes (build_tensor_value_info ''io_input'' ONNX_DTYPE_INT8 [1, 10, 4])) = 30"
  "length (proto_bytes (build_tensor_value_info ''net_input'' ONNX_DTYPE_INT8 [1, 32, 4])) = 31"
  "length (proto_bytes (build_tensor_value_info ''audit_input'' ONNX_DTYPE_INT8 [1, 16, 4])) = 33"
  "length (proto_bytes (build_tensor_value_info ''io_score'' ONNX_DTYPE_FLOAT [1, 1])) = 26"
  "length (proto_bytes (build_tensor_value_info ''net_score'' ONNX_DTYPE_FLOAT [1, 1])) = 27"
  "length (proto_bytes (build_tensor_value_info ''audit_score'' ONNX_DTYPE_FLOAT [1, 1])) = 29"
  by (simp_all add: length_build del: encode_field.simps)

abbreviation cast_attr :: ProtoWriter where
  "cast_attr \<equiv> build_int_attribute ''to'' ONNX_DTYPE_FLOAT"

abbreviation keepdims_attr :: ProtoWriter where
  "keepdims_attr \<equiv> build_int_attribute ''keepdims'' 1"

lemma length_nodes:
  "length (proto_bytes (build_node ''Cast'' [''io_input''] [''io_float''] ''node_io_cast'' [cast_attr])) = 51"
  "length (proto_bytes (build_node ''ReduceMean'' [''io_float''] [''io_score''] ''node_io_reduce'' [keepdims_attr])) = 65"
  "length (proto_bytes (build_node ''Cast'' [''net_input''] [''net_float''] ''node_net_cast'' [cast_attr])) = 54"
  "length (proto_bytes (build_node ''ReduceMean'' [''net_float''] [''net_score''] ''node_net_reduce'' [keepdims_attr])) = 68"
  "length (proto_bytes (build_node ''Cast'' [''audit_input''] [''audit_float''] ''node_audit_cast'' [cast_attr])) = 60"
  "length (proto_bytes (build_node ''ReduceMean'' [''audit_float''] [''audit_score''] ''node_audit_reduce'' [keepdims_attr])) = 74"
  by (simp_all add: build_node_def length_fields length_attributes del: encode_field.simps)

lemma stub_graph_bytes:
  "proto_bytes stub_graph = encode_fields
     ([Delimited 2 (as_bytes ''kavach_multitask_graph''),
       Delimited 5 (as_bytes ''Kavach Multi-Task INT8 Detection Graph'')]
      @ map (\<lambda>w. Delimited 11 (proto_bytes w))
          [build_tensor_value_info ''io_input'' ONNX_DTYPE_INT8 [1, 10, 4],
           build_tensor_value_info ''net_input'' ONNX_DTYPE_INT8 [1, 32, 4],
           build_tensor_value_info ''audit_input'' ONNX_DTYPE_INT8 [1, 16, 4]]
      @ map (\<lambda>w. Delimited 12 (proto_bytes w))
          [build_tensor_value_info ''io_score'' ONNX_DTYPE_FLOAT [1, 1],
           build_tensor_value_info ''net_score'' ONNX_DTYPE_FLOAT [1, 1],
           build_tensor_value_info ''audit_score'' ONNX_DTYPE_FLOAT [1, 1]]
      @ map (\<lambda>w. Delimited 1 (proto_bytes w))
          [build_node ''Cast'' [''io_input''] [''io_float''] ''node_io_cast'' [cast_attr],
           build_node ''ReduceMean'' [''io_float''] [''io_score''] ''node_io_reduce'' [keepdims_attr],
           build_node ''Cast'' [''net_input''] [''net_float''] ''node_net_cast'' [cast_attr],
           build_node ''ReduceMean'' [''net_float''] [''net_score''] ''node_net_reduce'' [keepdims_attr],
           build_node ''Cast'' [''audit_input''] [''audit_float''] ''node_audit_cast'' [cast_attr],
           build_node ''ReduceMean'' [''audit_float''] [''audit_score''] ''node_audit_reduce'' [keepdims_attr]])"
  by (simp add: stub_graph_def write_fields Let_def del: encode_field.simps)

lemma length_stub_graph: "length (proto_bytes stub_graph) = 636"
  by (simp add: stub_graph_bytes length_encode_field length_varint_small unat_field_tag unat_of_nat
      length_value_infos length_nodes del: encode_field.simps)

subsection \<open>Properties\<close>

text \<open>The variable-length integers of the writer are read back exactly, for every 64-bit value
  and whatever follows them.\<close>

theorem varint_roundtrip: "read_varint (varint v @ rest) = Some (unat v, rest)"
  by (rule read_varint_varint)

text \<open>The generated model is a well-formed protobuf message with exactly the eight fields of a
  model proto (IR version 9, producer, graph, opset import), for every opset, and its graph
  is a well-formed message with the name, one field 5, three inputs, three outputs and six
  nodes, in that order.\<close>

theorem stub_onnx_parses:
  "parse_message (generate_kavach_stub_onnx opset_version) = Some
     [Varint 1 9, Delimited 2 (as_bytes ''kavach-pack''), Delimited 3 (as_bytes ''0.1.0''),
      Delimited 4 (as_bytes ''ai.kavach''), Varint 5 1,
      Delimited 6 (as_bytes ''Kavach-NPU Multitask INT8 Computational Graph''),
      Delimited 7 (proto_bytes stub_graph),
      Delimited 8 (proto_bytes (write_int64 (write_string writer_new 1 []) 2 opset_version))]
   \<and> map_option (map (\<lambda>f. case f of Varint n _ \<Rightarrow> n | Delimited n _ \<Rightarrow> n)) (parse_message (proto_bytes stub_graph))
       = Some [2, 5, 11, 11, 11, 12, 12, 12, 1, 1, 1, 1, 1, 1]"
proof
  let ?opset = "proto_bytes (write_int64 (write_string writer_new 1 []) 2 opset_version)"
  let ?fs = "[Varint 1 9, Delimited 2 (as_bytes ''kavach-pack''), Delimited 3 (as_bytes ''0.1.0''),
      Delimited 4 (as_bytes ''ai.kavach''), Varint 5 1,
      Delimited 6 (as_bytes ''Kavach-NPU Multitask INT8 Computational Graph''),
      Delimited 7 (proto_bytes stub_graph), Delimited 8 ?opset]"
  have "generate_kavach_stub_onnx opset_version = encode_fields ?fs"
    by (simp add: generate_kavach_stub_onnx_def write_fields Let_def del: encode_field.simps)
  moreover have "length ?opset < 2 ^ 64"
    using length_varint [of "word_of_int opset_version"]
    by (simp add: length_fields del: encode_field.simps)
  ultimately show "parse_message (generate_kavach_stub_onnx opset_version) = Some ?fs"
    by (simp add: parse_encode length_stub_graph del: encode_fields_simps)
  show "map_option (map (\<lambda>f. case f of Varint n _ \<Rightarrow> n | Delimited n _ \<Rightarrow> n)) (parse_message (proto_bytes stub_graph))
      = Some [2, 5, 11, 11, 11, 12, 12, 12, 1, 1, 1, 1, 1, 1]"
    unfolding stub_graph_bytes
    by (subst parse_encode) (simp_all add: length_value_infos length_nodes)
qed

end
