(* ===== verification/Kavach_Reference_Onnx.thy ===== *)
theory Kavach_Reference_Onnx
  imports Kavach_Onnx Kavach_Float
begin

section \<open>The reference model\<close>

text \<open>
  Models the generator of the built-in reference model in
  \<open>crates/kavach-core/src/npu_backend.rs\<close>. That file has its own copy of the pack tool's protobuf
  writer and node builder: the copy is modelled with its loop as written and proved equal to the writer of
  \<^verbatim>\<open>Kavach_Onnx\<close>, which then serves for both; the value infos, the integer attribute, the weight tensors and
  the graph are its own.
\<close>

subsection \<open>The writer\<close>

function core_write_varint :: "ProtoWriter \<Rightarrow> u64 \<Rightarrow> ProtoWriter" where
  "core_write_varint w v =
    (if v \<ge> 0x80
     then core_write_varint (w\<lparr>proto_bytes := proto_bytes w @ [ucast (v AND 0x7F) OR 0x80]\<rparr>) (drop_bit 7 v)
     else w\<lparr>proto_bytes := proto_bytes w @ [ucast v]\<rparr>)"
  by auto
termination
  by (relation "measure (\<lambda>(w, v). unat v)") (simp_all add: drop_bit_7_less not_less)

declare core_write_varint.simps [simp del]

definition core_write_tag :: "ProtoWriter \<Rightarrow> u32 \<Rightarrow> u8 \<Rightarrow> ProtoWriter" where
  "core_write_tag w field_number wire_type = core_write_varint w (push_bit 3 (ucast field_number) OR ucast wire_type)"

definition core_write_int64 :: "ProtoWriter \<Rightarrow> u32 \<Rightarrow> i64 \<Rightarrow> ProtoWriter" where
  "core_write_int64 w field_number val = core_write_varint (core_write_tag w field_number 0) (word_of_int val)"

definition core_write_string :: "ProtoWriter \<Rightarrow> u32 \<Rightarrow> string \<Rightarrow> ProtoWriter" where
  "core_write_string w field_number s =
    (let w = core_write_varint (core_write_tag w field_number 2) (word_of_nat (length s))
     in w\<lparr>proto_bytes := proto_bytes w @ as_bytes s\<rparr>)"

definition core_write_message :: "ProtoWriter \<Rightarrow> u32 \<Rightarrow> ProtoWriter \<Rightarrow> ProtoWriter" where
  "core_write_message w field_number sub =
    (let w = core_write_varint (core_write_tag w field_number 2) (word_of_nat (length (proto_bytes sub)))
     in w\<lparr>proto_bytes := proto_bytes w @ proto_bytes sub\<rparr>)"

definition core_build_node ::
    "string \<Rightarrow> string list \<Rightarrow> string list \<Rightarrow> string \<Rightarrow> ProtoWriter list \<Rightarrow> ProtoWriter" where
  "core_build_node op_type inputs outputs name attrs =
    (let node = foldl (\<lambda>node inp. core_write_string node 1 inp) writer_new inputs;
         node = foldl (\<lambda>node out. core_write_string node 2 out) node outputs;
         node = core_write_string node 3 name;
         node = core_write_string node 4 op_type
     in foldl (\<lambda>node a. core_write_message node 5 a) node attrs)"

lemma core_write_varint: "core_write_varint = write_varint"
proof (intro ext)
  fix w v
  show "core_write_varint w v = write_varint w v"
  proof (induction w v rule: core_write_varint.induct)
    case (1 w v)
    show ?case
      by (subst core_write_varint.simps, subst write_varint_def, subst varint.simps) (use 1 in \<open>simp add: write_varint_def\<close>)
  qed
qed

lemma core_writer:
  "core_write_tag = write_tag" "core_write_int64 = write_int64" "core_write_string = write_string"
  "core_write_message = write_message" "core_build_node = build_node"
proof -
  show tag: "core_write_tag = write_tag" by (intro ext) (simp add: core_write_tag_def write_tag_def core_write_varint)
  show "core_write_int64 = write_int64" by (intro ext) (simp add: core_write_int64_def write_int64_def core_write_varint tag)
  show str: "core_write_string = write_string" by (intro ext) (simp add: core_write_string_def write_string_def core_write_varint tag)
  show msg: "core_write_message = write_message" by (intro ext) (simp add: core_write_message_def write_message_def core_write_varint tag)
  show "core_build_node = build_node" by (intro ext) (simp add: core_build_node_def build_node_def str msg)
qed

subsection \<open>The model\<close>

definition build_tensor_vi :: "string \<Rightarrow> i64 \<Rightarrow> i64 list \<Rightarrow> ProtoWriter" where
  "build_tensor_vi name elem_type dims =
    (let shape_w = foldl (\<lambda>sw d. write_message sw 1 (write_int64 writer_new 1 d)) writer_new dims;
         tensor_type_w = write_message (write_int64 writer_new 1 elem_type) 2 shape_w;
         type_w = write_message writer_new 1 tensor_type_w
     in write_message (write_string writer_new 1 name) 2 type_w)"

definition build_int_attr :: "string \<Rightarrow> i64 \<Rightarrow> ProtoWriter" where
  "build_int_attr name val = write_int64 (write_int64 (write_string writer_new 1 name) 3 val) 20 2"

definition build_tensor_proto_f32 :: "string \<Rightarrow> i64 list \<Rightarrow> fl list \<Rightarrow> ProtoWriter" where
  "build_tensor_proto_f32 name dims data =
    (let tp = foldl (\<lambda>w d. write_int64 w 1 d) writer_new dims;
         tp = write_int64 tp 2 1;
         tp = write_string tp 8 name;
         raw = concat (map f32_to_le_bytes data);
         tp = write_varint (write_tag tp 9 2) (word_of_nat (length raw))
     in tp\<lparr>proto_bytes := proto_bytes tp @ raw\<rparr>)"

definition head_nodes :: "string \<Rightarrow> ProtoWriter list" where
  \<comment> \<open>the four nodes of the head named \<open>h\<close>\<close>
  "head_nodes h =
    [build_node ''Cast'' [h @ ''_input''] [h @ ''_f''] (''cast_'' @ h) [build_int_attr ''to'' 1],
     build_node ''MatMul'' [h @ ''_f'', ''w_'' @ h] [h @ ''_weighted''] (''matmul_'' @ h) [],
     build_node ''Flatten'' [h @ ''_weighted''] [h @ ''_flat''] (''flat_'' @ h) [build_int_attr ''axis'' 1],
     build_node ''ReduceMean'' [h @ ''_flat''] [h @ ''_score''] (''mean_'' @ h) [build_int_attr ''keepdims'' 1]]"

definition reference_graph :: ProtoWriter where
  "reference_graph =
    (let g = write_string writer_new 2 ''kavach_multitask_graph'';
         g = write_string g 10 ''Kavach Multi-Task INT8 Detection Graph'';
         g = write_message g 11 (build_tensor_vi ''io_input'' 3 [1, 10, 4]);
         g = write_message g 11 (build_tensor_vi ''net_input'' 3 [1, 32, 4]);
         g = write_message g 11 (build_tensor_vi ''audit_input'' 3 [1, 16, 4]);
         g = write_message g 5 (build_tensor_proto_f32 ''w_io'' [4, 1] [fround b32 (7 / 10), Fin 0, Fin 0, fround b32 (3 / 10)]);
         g = write_message g 5 (build_tensor_proto_f32 ''w_net'' [4, 1] [Fin 1, Fin 0, Fin 0, Fin 0]);
         g = write_message g 5 (build_tensor_proto_f32 ''w_audit'' [4, 1] [Fin 1, Fin 0, Fin 0, Fin 0]);
         g = write_message g 12 (build_tensor_vi ''io_score'' 1 [1, 1]);
         g = write_message g 12 (build_tensor_vi ''net_score'' 1 [1, 1]);
         g = write_message g 12 (build_tensor_vi ''audit_score'' 1 [1, 1]);
         g = foldl (\<lambda>g n. write_message g 1 n) g (head_nodes ''io'');
         g = foldl (\<lambda>g n. write_message g 1 n) g (head_nodes ''net'');
         g = foldl (\<lambda>g n. write_message g 1 n) g (head_nodes ''audit'')
     in g)"

definition generate_reference_onnx :: bytes where
  "generate_reference_onnx =
    (let opset_w = write_int64 (write_string writer_new 1 []) 2 21;
         model = write_int64 writer_new 1 9;
         model = write_string model 2 ''kavach-pack'';
         model = write_string model 3 ''0.1.0'';
         model = write_string model 4 ''ai.kavach'';
         model = write_int64 model 5 1;
         model = write_string model 6 ''Kavach-NPU Multitask INT8 Computational Graph'';
         model = write_message model 7 reference_graph;
         model = write_message model 8 opset_w
     in proto_bytes model)"

subsection \<open>Sizes\<close>

lemma write_int64_size: "length (proto_bytes (write_int64 w n v)) \<le> length (proto_bytes w) + 20"
  using length_varint [of "field_tag n 0"] length_varint [of "word_of_int v"]
  by (simp add: write_int64_field)

lemma write_string_size: "length (proto_bytes (write_string w n s)) \<le> length (proto_bytes w) + 20 + length s"
  using length_varint [of "field_tag n 2"] length_varint [of "word_of_nat (length s)"]
  by (simp add: write_string_field)

lemma write_message_size:
  "length (proto_bytes (write_message w n s)) \<le> length (proto_bytes w) + 20 + length (proto_bytes s)"
  using length_varint [of "field_tag n 2"] length_varint [of "word_of_nat (length (proto_bytes s))"]
  by (simp add: write_message_field)

lemma write_strings_size:
  "length (proto_bytes (foldl (\<lambda>w s. write_string w n s) w ss))
     \<le> length (proto_bytes w) + sum_list (map (\<lambda>s. 20 + length s) ss)"
proof (induction ss arbitrary: w)
  case (Cons s ss)
  show ?case using Cons.IH [of "write_string w n s"] write_string_size [of w n s] by simp
qed simp

lemma write_messages_size:
  "length (proto_bytes (foldl (\<lambda>w x. write_message w n (f x)) w xs))
     \<le> length (proto_bytes w) + sum_list (map (\<lambda>x. 20 + length (proto_bytes (f x))) xs)"
proof (induction xs arbitrary: w)
  case (Cons x xs)
  show ?case using Cons.IH [of "write_message w n (f x)"] write_message_size [of w n "f x"] by simp
qed simp

lemma node_size:
  "length (proto_bytes (build_node op ins outs name attrs)) \<le>
     sum_list (map (\<lambda>s. 20 + length s) (ins @ outs @ [name, op]))
     + sum_list (map (\<lambda>a. 20 + length (proto_bytes a)) attrs)"
proof -
  let ?a = "foldl (\<lambda>n inp. write_string n 1 inp) writer_new ins"
  let ?b = "foldl (\<lambda>n out. write_string n 2 out) ?a outs"
  let ?c = "write_string ?b 3 name" and ?d = "write_string (write_string ?b 3 name) 4 op"
  show ?thesis
    using write_strings_size [of 1 writer_new ins] write_strings_size [of 2 ?a outs]
      write_string_size [of ?b 3 name] write_string_size [of ?c 4 op]
      write_messages_size [of 5 "\<lambda>a. a" ?d attrs]
    by (simp add: build_node_def Let_def)
qed

lemma int_attr_size: "length (proto_bytes (build_int_attr name v)) \<le> 60 + length name"
  using write_string_size [of writer_new 1 name] write_int64_size [of "write_string writer_new 1 name" 3 v]
    write_int64_size [of "write_int64 (write_string writer_new 1 name) 3 v" 20 2]
  by (simp add: build_int_attr_def)

lemma head_nodes_size:
  assumes "length h \<le> 5" "n \<in> set (head_nodes h)"
  shows "length (proto_bytes n) \<le> 1000"
proof -
  note at = int_attr_size [of "''to''" 1] int_attr_size [of "''axis''" 1] int_attr_size [of "''keepdims''" 1]
  have "length (proto_bytes (build_node op ins outs name attrs)) \<le> 1000"
    if "sum_list (map (\<lambda>s. 20 + length s) (ins @ outs @ [name, op])) \<le> 500"
      "sum_list (map (\<lambda>a. 20 + length (proto_bytes a)) attrs) \<le> 500" for op ins outs name attrs
    using that node_size [of op ins outs name attrs] by linarith
  then show ?thesis using assms at unfolding head_nodes_def by fastforce
qed

lemma tensor_vi_size:
  "length (proto_bytes (build_tensor_vi name ty dims)) \<le> 100 + length name + 40 * length dims"
proof -
  let ?f = "\<lambda>d. write_int64 writer_new 1 d"
  let ?s = "foldl (\<lambda>sw d. write_message sw 1 (?f d)) writer_new dims"
  let ?tt = "write_message (write_int64 writer_new 1 ty) 2 ?s"
  let ?t = "write_message writer_new 1 ?tt"
  have "sum_list (map (\<lambda>d. 20 + length (proto_bytes (?f d))) dims) \<le> sum_list (map (\<lambda>d. 40) dims)"
    using write_int64_size [of writer_new 1] by (intro sum_list_mono) simp
  then have "length (proto_bytes ?s) \<le> 40 * length dims"
    using write_messages_size [of 1 ?f writer_new dims] by (simp add: sum_list_triv)
  then show ?thesis
    using write_int64_size [of writer_new 1 ty] write_message_size [of "write_int64 writer_new 1 ty" 2 ?s]
      write_message_size [of writer_new 1 ?tt] write_string_size [of writer_new 1 name]
      write_message_size [of "write_string writer_new 1 name" 2 ?t]
    by (simp add: build_tensor_vi_def Let_def)
qed

lemma tensor_proto_bytes:
  "proto_bytes (build_tensor_proto_f32 name [d, e] data) = encode_fields
     [Varint 1 (unat (word_of_int d :: u64)), Varint 1 (unat (word_of_int e :: u64)), Varint 2 1,
      Delimited 8 (as_bytes name), Delimited 9 (concat (map f32_to_le_bytes data))]"
  by (simp add: build_tensor_proto_f32_def write_int64_field write_string_field Let_def
      write_tag_def write_varint_def field_tag_def)

lemma encode_size:
  "length (encode_field (Varint n v)) \<le> 20" "length (encode_field (Delimited n bs)) \<le> 20 + length bs"
  using length_varint [of "field_tag (word_of_nat n) 0"] length_varint [of "word_of_nat v"]
    length_varint [of "field_tag (word_of_nat n) 2"] length_varint [of "word_of_nat (length bs)"]
  by simp_all

lemma tensor_proto_size:
  "length (proto_bytes (build_tensor_proto_f32 name [d, e] data)) \<le> 100 + length name + 4 * length data"
proof -
  have raw: "length (concat (map f32_to_le_bytes data)) = 4 * length data" by (induction data) simp_all
  show ?thesis
    using raw encode_size(1) [of 1 "unat (word_of_int d :: u64)"] encode_size(1) [of 1 "unat (word_of_int e :: u64)"]
      encode_size(1) [of 2 1] encode_size(2) [of 8 "as_bytes name"]
      encode_size(2) [of 9 "concat (map f32_to_le_bytes data)"]
    unfolding tensor_proto_bytes by (simp del: encode_field.simps)
qed

lemma reference_graph_bytes:
  "proto_bytes reference_graph = encode_fields
     ([Delimited 2 (as_bytes ''kavach_multitask_graph''),
       Delimited 10 (as_bytes ''Kavach Multi-Task INT8 Detection Graph'')]
      @ map (\<lambda>w. Delimited 11 (proto_bytes w))
          [build_tensor_vi ''io_input'' 3 [1, 10, 4], build_tensor_vi ''net_input'' 3 [1, 32, 4],
           build_tensor_vi ''audit_input'' 3 [1, 16, 4]]
      @ map (\<lambda>w. Delimited 5 (proto_bytes w))
          [build_tensor_proto_f32 ''w_io'' [4, 1] [fround b32 (7 / 10), Fin 0, Fin 0, fround b32 (3 / 10)],
           build_tensor_proto_f32 ''w_net'' [4, 1] [Fin 1, Fin 0, Fin 0, Fin 0],
           build_tensor_proto_f32 ''w_audit'' [4, 1] [Fin 1, Fin 0, Fin 0, Fin 0]]
      @ map (\<lambda>w. Delimited 12 (proto_bytes w))
          [build_tensor_vi ''io_score'' 1 [1, 1], build_tensor_vi ''net_score'' 1 [1, 1],
           build_tensor_vi ''audit_score'' 1 [1, 1]]
      @ map (\<lambda>w. Delimited 1 (proto_bytes w)) (head_nodes ''io'' @ head_nodes ''net'' @ head_nodes ''audit''))"
  (is "_ = encode_fields ?fs")
  by (simp add: reference_graph_def write_fields head_nodes_def Let_def del: encode_field.simps)

lemma encode_fields_size:
  "(\<And>f. f \<in> set fs \<Longrightarrow> length (encode_field f) \<le> k) \<Longrightarrow> length (encode_fields fs) \<le> length fs * k"
  by (induction fs) (simp_all add: add_mono)

definition reference_parts :: "ProtoWriter list" where
  "reference_parts =
    [build_tensor_vi ''io_input'' 3 [1, 10, 4], build_tensor_vi ''net_input'' 3 [1, 32, 4],
     build_tensor_vi ''audit_input'' 3 [1, 16, 4],
     build_tensor_proto_f32 ''w_io'' [4, 1] [fround b32 (7 / 10), Fin 0, Fin 0, fround b32 (3 / 10)],
     build_tensor_proto_f32 ''w_net'' [4, 1] [Fin 1, Fin 0, Fin 0, Fin 0],
     build_tensor_proto_f32 ''w_audit'' [4, 1] [Fin 1, Fin 0, Fin 0, Fin 0],
     build_tensor_vi ''io_score'' 1 [1, 1], build_tensor_vi ''net_score'' 1 [1, 1],
     build_tensor_vi ''audit_score'' 1 [1, 1]]
    @ head_nodes ''io'' @ head_nodes ''net'' @ head_nodes ''audit''"

lemma reference_parts_small: "w \<in> set reference_parts \<Longrightarrow> length (proto_bytes w) \<le> 1000"
proof -
  have vi: "length (proto_bytes (build_tensor_vi name ty dims)) \<le> 1000" if "length name \<le> 20" "length dims \<le> 3"
    for name ty dims using tensor_vi_size [of name ty dims] that by linarith
  have tp: "length (proto_bytes (build_tensor_proto_f32 name [d, e] data)) \<le> 1000" if "length name \<le> 20" "length data \<le> 4"
    for name d e data using tensor_proto_size [of name d e data] that by linarith
  show "length (proto_bytes w) \<le> 1000" if "w \<in> set reference_parts"
    using that vi tp head_nodes_size [of "''io''" w] head_nodes_size [of "''net''" w] head_nodes_size [of "''audit''" w]
    unfolding reference_parts_def by auto
qed

definition graph_numbers :: "nat list" where
  \<comment> \<open>inputs, initializers, outputs, nodes\<close>
  "graph_numbers = replicate 3 11 @ replicate 3 5 @ replicate 3 12 @ replicate 12 1"

lemma reference_graph_parts:
  "proto_bytes reference_graph = encode_fields
     ([Delimited 2 (as_bytes ''kavach_multitask_graph''),
       Delimited 10 (as_bytes ''Kavach Multi-Task INT8 Detection Graph'')]
      @ map2 (\<lambda>n w. Delimited n (proto_bytes w))
          graph_numbers reference_parts)"
  unfolding reference_graph_bytes
  by (simp add: reference_parts_def head_nodes_def graph_numbers_def eval_nat_numeral
      del: encode_field.simps)

lemma reference_graph_valid:
  assumes "f \<in> set (map2 (\<lambda>n w. Delimited n (proto_bytes w))
      graph_numbers reference_parts)"
  shows "valid_field f" "length (encode_field f) \<le> 1020"
proof -
  from assms obtain p where p: "p \<in> set (zip graph_numbers reference_parts)"
    and fp: "f = (\<lambda>(n, w). Delimited n (proto_bytes w)) p" unfolding set_map by (rule imageE)
  obtain n w where "p = (n, w)" by (cases p)
  with p fp have f: "f = Delimited n (proto_bytes w)" "w \<in> set reference_parts" "n \<in> set graph_numbers"
    by (auto dest: set_zip_leftD set_zip_rightD)
  from f(3) have "n < 2 ^ 32" by (auto simp: graph_numbers_def)
  then show "valid_field f" using f reference_parts_small [of w] by simp
  show "length (encode_field f) \<le> 1020"
    unfolding f(1) using reference_parts_small [OF f(2)] encode_size(2) [of n "proto_bytes w"] by linarith
qed

lemma length_reference_graph: "length (proto_bytes reference_graph) \<le> 100000"
proof -
  let ?m = "map2 (\<lambda>n w. Delimited n (proto_bytes w))
      graph_numbers reference_parts"
  have "length (encode_fields ?m) \<le> length ?m * 1020"
    by (rule encode_fields_size) (rule reference_graph_valid(2))
  moreover have "length ?m \<le> 21" by (simp add: graph_numbers_def)
  ultimately have "length (encode_fields ?m) \<le> 21 * 1020" by linarith
  then show ?thesis
    using encode_size(2) [of 2 "as_bytes ''kavach_multitask_graph''"]
      encode_size(2) [of 10 "as_bytes ''Kavach Multi-Task INT8 Detection Graph''"]
    unfolding reference_graph_parts by (simp del: encode_field.simps)
qed

lemma length_reference_parts: "length reference_parts = 21"
  by (simp add: reference_parts_def head_nodes_def)

lemma reference_model_parses:
  "parse_message generate_reference_onnx = Some
     [Varint 1 9, Delimited 2 (as_bytes ''kavach-pack''), Delimited 3 (as_bytes ''0.1.0''),
      Delimited 4 (as_bytes ''ai.kavach''), Varint 5 1,
      Delimited 6 (as_bytes ''Kavach-NPU Multitask INT8 Computational Graph''),
      Delimited 7 (proto_bytes reference_graph),
      Delimited 8 (encode_fields [Delimited 1 [], Varint 2 21])]" (is "_ = Some ?fs")
proof -
  have op: "length (encode_fields [Delimited 1 [], Varint 2 21]) < 2 ^ 64"
    using encode_size(2) [of 1 "[]"] encode_size(1) [of 2 21] by (simp del: encode_field.simps)
  have "as_bytes [] = []" by (simp add: as_bytes_def)
  then have "generate_reference_onnx = encode_fields ?fs"
    by (simp add: generate_reference_onnx_def write_fields Let_def del: encode_field.simps)
  moreover have "\<forall>f \<in> set ?fs. valid_field f"
    using op length_reference_graph by (simp del: encode_fields_simps)
  ultimately show ?thesis using parse_encode [of ?fs] by (simp only: parse_encode)
qed

lemma part_numbers:
  "length ms = length ws \<Longrightarrow> map (\<lambda>f. case f of Varint n _ \<Rightarrow> n | Delimited n _ \<Rightarrow> n)
     (map2 (\<lambda>n w. Delimited n (proto_bytes w)) ms ws) = ms"
  by (induction ms ws rule: list_induct2) simp_all

lemma reference_graph_parses:
  "map_option (map (\<lambda>f. case f of Varint n _ \<Rightarrow> n | Delimited n _ \<Rightarrow> n)) (parse_message (proto_bytes reference_graph))
     = Some (2 # 10 # graph_numbers)"
proof -
  let ?hs = "[Delimited 2 (as_bytes ''kavach_multitask_graph''),
      Delimited 10 (as_bytes ''Kavach Multi-Task INT8 Detection Graph'')]"
  let ?ms = "map2 (\<lambda>n w. Delimited n (proto_bytes w)) graph_numbers reference_parts"
  have "\<forall>f \<in> set ?hs. valid_field f" by simp
  then have "\<forall>f \<in> set (?hs @ ?ms). valid_field f"
    using reference_graph_valid(1) unfolding set_append by blast
  then have g: "parse_message (proto_bytes reference_graph) = Some (?hs @ ?ms)"
    unfolding reference_graph_parts by (rule parse_encode)
  show ?thesis using part_numbers [of graph_numbers reference_parts]
    unfolding g by (simp add: length_reference_parts graph_numbers_def)
qed

lemma reference_weights_parse:
  "parse_message (proto_bytes (build_tensor_proto_f32 ''w_io'' [4, 1] [a, b, c, d]))
     = Some [Varint 1 4, Varint 1 1, Varint 2 1, Delimited 8 (as_bytes ''w_io''), Delimited 9
         (f32_to_le_bytes a @ f32_to_le_bytes b @ f32_to_le_bytes c @ f32_to_le_bytes d)]"
  unfolding tensor_proto_bytes by (subst parse_encode) simp_all

lemma int_attr_parses:
  "parse_message (proto_bytes (build_int_attr ''axis'' 1)) = Some [Delimited 1 (as_bytes ''axis''), Varint 3 1, Varint 20 2]"
proof -
  have "proto_bytes (build_int_attr ''axis'' 1) = encode_fields [Delimited 1 (as_bytes ''axis''), Varint 3 1, Varint 20 2]"
    by (simp add: build_int_attr_def write_fields del: encode_field.simps)
  then show ?thesis by (simp add: parse_encode del: encode_fields_simps)
qed

subsection \<open>Properties\<close>

text \<open>The built-in reference model is a well-formed protobuf message: the model has its eight fields
  with the opset import 21, its graph has name, description, three inputs, three weight tensors,
  three outputs and twelve nodes in the order of the ONNX field numbers written, the weights of
  the I/O head are a 4 by 1 tensor of single-precision numbers, and integer attributes carry their
  value in field 3.\<close>

theorem reference_onnx_parses:
  "parse_message generate_reference_onnx = Some
     [Varint 1 9, Delimited 2 (as_bytes ''kavach-pack''), Delimited 3 (as_bytes ''0.1.0''),
      Delimited 4 (as_bytes ''ai.kavach''), Varint 5 1,
      Delimited 6 (as_bytes ''Kavach-NPU Multitask INT8 Computational Graph''),
      Delimited 7 (proto_bytes reference_graph),
      Delimited 8 (encode_fields [Delimited 1 [], Varint 2 21])]
   \<and> map_option (map (\<lambda>f. case f of Varint n _ \<Rightarrow> n | Delimited n _ \<Rightarrow> n)) (parse_message (proto_bytes reference_graph))
       = Some (2 # 10 # replicate 3 11 @ replicate 3 5 @ replicate 3 12 @ replicate 12 1)
   \<and> parse_message (proto_bytes (build_tensor_proto_f32 ''w_io'' [4, 1] [fround b32 (7 / 10), Fin 0, Fin 0, fround b32 (3 / 10)]))
       = Some [Varint 1 4, Varint 1 1, Varint 2 1, Delimited 8 (as_bytes ''w_io''), Delimited 9
           (f32_to_le_bytes (fround b32 (7 / 10)) @ f32_to_le_bytes (Fin 0) @ f32_to_le_bytes (Fin 0)
            @ f32_to_le_bytes (fround b32 (3 / 10)))]
   \<and> parse_message (proto_bytes (build_int_attr ''axis'' 1)) = Some [Delimited 1 (as_bytes ''axis''), Varint 3 1, Varint 20 2]"
  using reference_model_parses reference_graph_parses [unfolded graph_numbers_def] reference_weights_parse int_attr_parses by blast

end
