(* ===== verification/Kavach_Npu.thy ===== *)
theory Kavach_Npu
  imports Kavach_Tensor Kavach_Manifest Kavach_Config Kavach_Reference_Onnx
begin

section \<open>The inference session\<close>

text \<open>
  Models \<open>crates/kavach-core/src/npu_backend.rs\<close> (hardware probe, execution-provider cascade, scoring
  engine) and \<open>npu.rs\<close> (session and degraded mode). The operating system (files, environment,
  PowerShell) and the crate \<open>ort\<close> are parameters. A build without the feature \<open>npu-hardware\<close> is an
  environment with no ONNX runtime.
\<close>

datatype ExecutionProviderBackend = AmdXdnaNpu | DirectMlGpu | NativeCpuBaseline

fun show_backend :: "ExecutionProviderBackend \<Rightarrow> string" where
  "show_backend AmdXdnaNpu = ''AMD XDNA NPU (VitisAI Target X1)''"
| "show_backend DirectMlGpu = ''DirectML (AMD Radeon 780M GPU)''"
| "show_backend NativeCpuBaseline = ''Native SIMD CPU Baseline''"

record NpuHardwareInfo =
  device_detected :: bool
  driver_version :: "string option"
  runtime_bin_dir :: "string option"
  xclbin_path :: "string option"
  selected_backend :: ExecutionProviderBackend

record npu_os =
  \<comment> \<open>\<open>Path\<close>, \<open>std::env\<close> and \<open>std::process\<close>; the text of a command is \<open>None\<close> when it cannot be run\<close>
  is_windows :: bool
  os_join :: "string \<Rightarrow> string \<Rightarrow> string"
  is_file :: "string \<Rightarrow> bool"
  canonicalize :: "string \<Rightarrow> string option"
  env_var :: "string \<Rightarrow> string option"
  powershell :: "string \<Rightarrow> string option"

definition unwrap_or :: "'a option \<Rightarrow> 'a \<Rightarrow> 'a" where
  "unwrap_or x d = (case x of Some y \<Rightarrow> y | None \<Rightarrow> d)"

fun local_runtime :: "npu_os \<Rightarrow> string list \<Rightarrow> (string \<times> string) option" where
  "local_runtime os [] = None"
| "local_runtime os (base # bases) =
    (let bin = os_join os base ''ryzen_ai_deployment/runtimes/win-x64/native'';
         xclbin = os_join os base ''NPU_RAI_376_WHQL/npu_mcdm_stack_prod/1x4.xclbin''
     in if is_file os (os_join os bin ''onnxruntime.dll'') \<and> is_file os xclbin
        then Some (unwrap_or (canonicalize os bin) bin, unwrap_or (canonicalize os xclbin) xclbin)
        else local_runtime os bases)"

definition resolve_npu_paths :: "npu_os \<Rightarrow> string option \<times> string option" where
  "resolve_npu_paths os =
    (case local_runtime os [''npu_runtime'', ''../npu_runtime'', ''../../npu_runtime''] of
       Some (bin, xclbin) \<Rightarrow> (Some bin, Some xclbin)
     | None \<Rightarrow>
       (case env_var os ''RYZEN_AI_INSTALLATION_PATH'' of
          None \<Rightarrow> (None, None)
        | Some sdk \<Rightarrow>
          let bin = os_join os sdk ''bin'';
              xclbin = os_join os sdk ''voe-4.0-win_amd64/xclbins/phoenix/1x4.xclbin''
          in if is_file os (os_join os bin ''onnxruntime.dll'') \<and> is_file os xclbin
             then (Some bin, Some xclbin) else (None, None)))"

fun contains :: "string \<Rightarrow> string \<Rightarrow> bool" where
  "contains pat [] = (pat = [])"
| "contains pat (c # cs) = (take (length pat) (c # cs) = pat \<or> contains pat cs)"

definition DEVICE_QUERY :: string where
  "DEVICE_QUERY = ''Get-PnpDevice -FriendlyName '' @ [CHR 0x27] @ ''*NPU Compute Accelerator*'' @ [CHR 0x27]
     @ '' -ErrorAction SilentlyContinue | Where-Object { $_.Status -eq '' @ [CHR 0x27] @ ''OK'' @ [CHR 0x27]
     @ '' } | Select-Object -ExpandProperty InstanceId''"

definition DRIVER_QUERY :: string where
  "DRIVER_QUERY = ''Get-CimInstance Win32_PnPSignedDriver | Where-Object { $_.DeviceName -like '' @ [CHR 0x27]
     @ ''*NPU Compute Accelerator*'' @ [CHR 0x27]
     @ '' } | Select-Object -First 1 -ExpandProperty DriverVersion''"

definition check_npu_hardware_device :: "npu_os \<Rightarrow> bool" where
  "check_npu_hardware_device os =
    (is_windows os \<and> (case powershell os DEVICE_QUERY of
       Some out \<Rightarrow> contains ''VEN_1022&DEV_1502'' out \<or> trim out \<noteq> []
     | None \<Rightarrow> False))"

definition check_npu_driver_version :: "npu_os \<Rightarrow> string option" where
  "check_npu_driver_version os =
    (if \<not> is_windows os then None
     else case powershell os DRIVER_QUERY of
       Some out \<Rightarrow> if trim out \<noteq> [] then Some (trim out) else None
     | None \<Rightarrow> None)"

definition probe :: "npu_os \<Rightarrow> NpuHardwareInfo" where
  "probe os =
    (let (bin, xclbin) = resolve_npu_paths os;
         has_runtime = (bin \<noteq> None \<and> xclbin \<noteq> None);
         detected = check_npu_hardware_device os
     in \<lparr>device_detected = detected, driver_version = check_npu_driver_version os,
         runtime_bin_dir = bin, xclbin_path = xclbin,
         selected_backend = (if detected \<and> has_runtime then AmdXdnaNpu
           else if has_runtime then DirectMlGpu else NativeCpuBaseline)\<rparr>)"

subsection \<open>The ONNX runtime\<close>

datatype provider = Vitis "string option" | DirectML | CpuProvider \<comment> \<open>the configuration file of Vitis\<close>

record ('s, 't) ort =
  \<comment> \<open>the crate \<open>ort\<close>: library start, session from memory, tensors, a run, the first element of an output\<close>
  init_from :: "string \<Rightarrow> string + unit"
  commit_from_memory :: "provider \<Rightarrow> bytes \<Rightarrow> string + 's"
  tensor_from_array :: "nat list \<Rightarrow> i8 list \<Rightarrow> string + 't"
  session_run :: "'s \<Rightarrow> (string \<times> 't) list \<Rightarrow> string + (string \<Rightarrow> string + fl)"

record ort_state =
  INITIALIZED :: bool

definition init_ort_runtime ::
    "npu_os \<Rightarrow> ('s, 't, 'x) ort_scheme \<Rightarrow> ort_state \<Rightarrow> string \<Rightarrow> (string + unit) \<times> ort_state" where
  "init_ort_runtime os lib st dylib_path =
    (if INITIALIZED st then (Ok (), st)
     else if \<not> is_file os dylib_path
       then (Err (''failed to initialize ONNX Runtime from '' @ dylib_path @ '': file not found''), st)
     else case init_from lib dylib_path of
       Err e \<Rightarrow> (Err (''failed to initialize ONNX Runtime from '' @ dylib_path @ '': '' @ e), st)
     | Ok _ \<Rightarrow> (Ok (), st\<lparr>INITIALIZED := True\<rparr>))"

definition init_ort_runtime_disabled :: "string \<Rightarrow> string + unit" where
  \<comment> \<open>\<open>init_ort_runtime\<close> of a build without the feature \<open>npu-hardware\<close>\<close>
  "init_ort_runtime_disabled dylib_path = Err ''npu-hardware feature is not enabled; compile with --features npu-hardware''"

record 's OrtBackendSession =
  ort_handle :: 's
  ort_backend :: ExecutionProviderBackend

definition vitis_enabled :: "npu_os \<Rightarrow> NpuHardwareInfo \<Rightarrow> bool" where
  "vitis_enabled os info \<longleftrightarrow> env_var os ''KAVACH_ENABLE_VITIS_AI'' \<noteq> None
     \<and> device_detected info \<and> runtime_bin_dir info \<noteq> None \<and> xclbin_path info \<noteq> None"

definition vitis_provider :: "npu_os \<Rightarrow> NpuHardwareInfo \<Rightarrow> provider" where
  "vitis_provider os info = Vitis (case runtime_bin_dir info of
     None \<Rightarrow> None
   | Some bin \<Rightarrow> let cfg = os_join os bin ''vaip_config.json'' in if is_file os cfg then Some cfg else None)"

definition cpu_session :: "('s, 't, 'x) ort_scheme \<Rightarrow> bytes \<Rightarrow> string \<Rightarrow> string + 's OrtBackendSession" where
  "cpu_session lib onnx_bytes last_err = (case commit_from_memory lib CpuProvider onnx_bytes of
     Ok s \<Rightarrow> Ok \<lparr>ort_handle = s, ort_backend = NativeCpuBaseline\<rparr>
   | Err e \<Rightarrow> Err (''all execution providers failed (CPU error: '' @ e @ '', prior: '' @ last_err @ '')''))"

definition directml_session :: "('s, 't, 'x) ort_scheme \<Rightarrow> bytes \<Rightarrow> string \<Rightarrow> string + 's OrtBackendSession" where
  "directml_session lib onnx_bytes last_err = (case commit_from_memory lib DirectML onnx_bytes of
     Ok s \<Rightarrow> Ok \<lparr>ort_handle = s, ort_backend = DirectMlGpu\<rparr>
   | Err e \<Rightarrow> cpu_session lib onnx_bytes (last_err @ ''DirectML EP failed: '' @ e @ ''; ''))"

definition session_from_bytes ::
    "npu_os \<Rightarrow> ('s, 't, 'x) ort_scheme \<Rightarrow> ort_state \<Rightarrow> bytes \<Rightarrow> NpuHardwareInfo
      \<Rightarrow> (string + 's OrtBackendSession) \<times> ort_state" where
  "session_from_bytes os lib st onnx_bytes info =
    (let st' = (case runtime_bin_dir info of
           Some bin \<Rightarrow> let dylib = os_join os bin ''onnxruntime.dll'' in
             if is_file os dylib then snd (init_ort_runtime os lib st dylib) else st
         | None \<Rightarrow> st);
         result = (if vitis_enabled os info then
             (case commit_from_memory lib (vitis_provider os info) onnx_bytes of
                Ok s \<Rightarrow> Ok \<lparr>ort_handle = s, ort_backend = AmdXdnaNpu\<rparr>
              | Err e \<Rightarrow> directml_session lib onnx_bytes (''VitisAI EP failed: '' @ e @ ''; ''))
           else directml_session lib onnx_bytes [])
     in (result, st'))"

definition session_from_reference_model ::
    "npu_os \<Rightarrow> ('s, 't, 'x) ort_scheme \<Rightarrow> ort_state \<Rightarrow> NpuHardwareInfo \<Rightarrow> (string + 's OrtBackendSession) \<times> ort_state" where
  "session_from_reference_model os lib st info = session_from_bytes os lib st generate_reference_onnx info"

definition normalize_raw :: "fl \<Rightarrow> fl" where
  "normalize_raw raw = fclamp (fdiv b32 raw (Fin 127)) (Fin 0) (Fin 1)"

definition run_multi_head ::
    "('s, 't, 'x) ort_scheme \<Rightarrow> 's OrtBackendSession \<Rightarrow> i8 list list \<Rightarrow> i8 list list \<Rightarrow> i8 list list
      \<Rightarrow> string + fl \<times> fl \<times> fl" where
  "run_multi_head lib sess io net audit =
    (case map_err (\<lambda>e. ''failed to build io tensor: '' @ e) (tensor_from_array lib [1, 10, 4] (concat io)) of
       Err e \<Rightarrow> Err e
     | Ok io_tensor \<Rightarrow>
     (case map_err (\<lambda>e. ''failed to build net tensor: '' @ e) (tensor_from_array lib [1, 32, 4] (concat net)) of
       Err e \<Rightarrow> Err e
     | Ok net_tensor \<Rightarrow>
     (case map_err (\<lambda>e. ''failed to build audit tensor: '' @ e) (tensor_from_array lib [1, 16, 4] (concat audit)) of
       Err e \<Rightarrow> Err e
     | Ok audit_tensor \<Rightarrow>
     (case map_err (\<lambda>e. ''session run failed: '' @ e) (session_run lib (ort_handle sess)
         [(''io_input'', io_tensor), (''net_input'', net_tensor), (''audit_input'', audit_tensor)]) of
       Err e \<Rightarrow> Err e
     | Ok outputs \<Rightarrow>
     (case map_err (\<lambda>e. ''failed to extract io_score: '' @ e) (outputs ''io_score'') of
       Err e \<Rightarrow> Err e
     | Ok io_raw \<Rightarrow>
     (case map_err (\<lambda>e. ''failed to extract net_score: '' @ e) (outputs ''net_score'') of
       Err e \<Rightarrow> Err e
     | Ok net_raw \<Rightarrow>
     (case map_err (\<lambda>e. ''failed to extract audit_score: '' @ e) (outputs ''audit_score'') of
       Err e \<Rightarrow> Err e
     | Ok audit_raw \<Rightarrow> Ok (normalize_raw io_raw, normalize_raw net_raw, normalize_raw audit_raw))))))))"

definition zero_rows :: "nat \<Rightarrow> i8 list list" where
  "zero_rows n = replicate n (replicate 4 0)"

definition ort_run_io :: "('s, 't, 'x) ort_scheme \<Rightarrow> 's OrtBackendSession \<Rightarrow> i8 list list \<Rightarrow> string + fl" where
  "ort_run_io lib sess rows = (case run_multi_head lib sess rows (zero_rows 32) (zero_rows 16) of
     Err e \<Rightarrow> Err e | Ok (io, _, _) \<Rightarrow> Ok io)"

definition ort_run_net :: "('s, 't, 'x) ort_scheme \<Rightarrow> 's OrtBackendSession \<Rightarrow> i8 list list \<Rightarrow> string + fl" where
  "ort_run_net lib sess rows = (case run_multi_head lib sess (zero_rows 10) rows (zero_rows 16) of
     Err e \<Rightarrow> Err e | Ok (_, net, _) \<Rightarrow> Ok net)"

definition ort_run_audit :: "('s, 't, 'x) ort_scheme \<Rightarrow> 's OrtBackendSession \<Rightarrow> i8 list list \<Rightarrow> string + fl" where
  "ort_run_audit lib sess rows = (case run_multi_head lib sess (zero_rows 10) (zero_rows 32) rows of
     Err e \<Rightarrow> Err e | Ok (_, _, audit) \<Rightarrow> Ok audit)"

subsection \<open>The scoring engine\<close>

record 's NpuEngine =
  info :: NpuHardwareInfo
  active_inferences :: u64
  ort_session :: "'s OrtBackendSession option" \<comment> \<open>always \<open>None\<close> without the feature \<open>npu-hardware\<close>\<close>

definition engine_with_onnx_bytes ::
    "npu_os \<Rightarrow> ('s, 't, 'x) ort_scheme option \<Rightarrow> ort_state \<Rightarrow> bytes \<Rightarrow> 's NpuEngine \<times> ort_state" where
  "engine_with_onnx_bytes os feature st onnx_bytes =
    (let hw = probe os;
         (session, st') = (case feature of
             None \<Rightarrow> (None, st)
           | Some lib \<Rightarrow> (case session_from_bytes os lib st onnx_bytes hw of
               (Ok s, st') \<Rightarrow> (Some s, st')
             | (Err _, st') \<Rightarrow> (None, st')))
     in (\<lparr>info = hw, active_inferences = 0, ort_session = session\<rparr>, st'))"

definition engine_new ::
    "npu_os \<Rightarrow> ('s, 't, 'x) ort_scheme option \<Rightarrow> ort_state \<Rightarrow> 's NpuEngine \<times> ort_state" where
  \<comment> \<open>\<open>from_reference_model\<close> loads the generated reference model\<close>
  "engine_new os feature st = engine_with_onnx_bytes os feature st generate_reference_onnx"

definition engine_with_reference_model ::
    "npu_os \<Rightarrow> ('s, 't, 'x) ort_scheme option \<Rightarrow> ort_state \<Rightarrow> 's NpuEngine \<times> ort_state" where
  "engine_with_reference_model os feature st = engine_new os feature st"

definition active_backend :: "'s NpuEngine \<Rightarrow> ExecutionProviderBackend" where
  "active_backend eng = (case ort_session eng of
     Some s \<Rightarrow> ort_backend s | None \<Rightarrow> selected_backend (info eng))"

definition i8_norm :: "i8 \<Rightarrow> fl" where
  "i8_norm q = fdiv b32 (fl_of_int b32 q) (Fin 127)"

definition baseline_io :: "i8 list list \<Rightarrow> fl" where
  "baseline_io rows = fclamp (fdiv b32 (foldl (\<lambda>score row. fadd b32 score
       (fadd b32 (fmul b32 (i8_norm (row ! 0)) (fround b32 (7 / 10)))
         (fmul b32 (i8_norm (row ! 3)) (fround b32 (3 / 10))))) (Fin 0) rows) (Fin 10)) (Fin 0) (Fin 1)"

definition baseline_net :: "i8 list list \<Rightarrow> fl" where
  "baseline_net rows = fclamp (fdiv b32 (foldl (\<lambda>total row. fadd b32 total (i8_norm (row ! 0))) (Fin 0) rows)
     (Fin 32)) (Fin 0) (Fin 1)"

definition baseline_audit :: "i8 list list \<Rightarrow> fl" where
  "baseline_audit rows = fclamp (fdiv b32 (foldl (\<lambda>score row. fadd b32 score (i8_norm (row ! 0))) (Fin 0) rows)
     (Fin 16)) (Fin 0) (Fin 1)"

definition dispatch_or :: "('s OrtBackendSession \<Rightarrow> string + fl) \<Rightarrow> 's NpuEngine \<Rightarrow> fl \<Rightarrow> fl \<times> 's NpuEngine" where
  \<comment> \<open>count the inference, ask the ONNX session if there is one, fall back to the baseline score\<close>
  "dispatch_or run eng baseline =
    ((case ort_session eng of
        None \<Rightarrow> baseline
      | Some s \<Rightarrow> (case run s of Ok score \<Rightarrow> score | Err _ \<Rightarrow> baseline)),
     eng\<lparr>active_inferences := active_inferences eng + 1\<rparr>)"

definition run_io_inference ::
    "('s, 't, 'x) ort_scheme \<Rightarrow> 's NpuEngine \<Rightarrow> i8 list list \<Rightarrow> fl \<times> 's NpuEngine" where
  "run_io_inference lib eng rows = dispatch_or (\<lambda>s. ort_run_io lib s rows) eng (baseline_io rows)"

definition run_net_inference ::
    "('s, 't, 'x) ort_scheme \<Rightarrow> 's NpuEngine \<Rightarrow> i8 list list \<Rightarrow> fl \<times> 's NpuEngine" where
  "run_net_inference lib eng rows = dispatch_or (\<lambda>s. ort_run_net lib s rows) eng (baseline_net rows)"

definition run_audit_inference ::
    "('s, 't, 'x) ort_scheme \<Rightarrow> 's NpuEngine \<Rightarrow> i8 list list \<Rightarrow> fl \<times> 's NpuEngine" where
  "run_audit_inference lib eng rows = dispatch_or (\<lambda>s. ort_run_audit lib s rows) eng (baseline_audit rows)"

subsection \<open>The session\<close>

datatype NpuError = DegradedError DegradedReason | ExecutionFailed string

definition show_NpuError :: "NpuError \<Rightarrow> string" where
  "show_NpuError e = (case e of
     DegradedError reason \<Rightarrow> ''NPU session degraded observer: '' @ show_DegradedReason reason
   | ExecutionFailed msg \<Rightarrow> ''NPU execution failed: '' @ msg)"

datatype NpuState = Active ModelManifest | DegradedObserver DegradedReason u64 string

record 's NpuSession =
  npu_state :: NpuState
  engine :: "'s NpuEngine"

definition new_active ::
    "npu_os \<Rightarrow> ('s, 't, 'x) ort_scheme option \<Rightarrow> ort_state \<Rightarrow> ModelManifest \<Rightarrow> 's NpuSession \<times> ort_state" where
  "new_active os feature st manifest =
    (let (eng, st') = engine_new os feature st in (\<lparr>npu_state = Active manifest, engine = eng\<rparr>, st'))"

definition new_degraded ::
    "npu_os \<Rightarrow> ('s, 't, 'x) ort_scheme option \<Rightarrow> ort_state \<Rightarrow> DegradedReason \<Rightarrow> u64 \<Rightarrow> string
      \<Rightarrow> 's NpuSession \<times> ort_state" where
  "new_degraded os feature st reason rollback_minimum expected_key_id =
    (let (eng, st') = engine_new os feature st
     in (\<lparr>npu_state = DegradedObserver reason rollback_minimum expected_key_id, engine = eng\<rparr>, st'))"

definition from_config ::
    "npu_os \<Rightarrow> ('s, 't, 'x) ort_scheme option \<Rightarrow> ort_state \<Rightarrow> ('k, 'y) crypto_scheme \<Rightarrow> json \<Rightarrow> 'z files_scheme
      \<Rightarrow> KavachConfig \<Rightarrow> bytes \<Rightarrow> 's NpuSession \<times> ort_state" where
  "from_config os feature st lib js fs config verifying_key_bytes =
    (let minimum = minimum_rollback_generation (model config) in
     case key_from_bytes lib verifying_key_bytes of
       Err e \<Rightarrow> new_degraded os feature st (ManifestSignatureInvalid (''invalid verifying key: '' @ e))
                 minimum ''reference-model-2026-b''
     | Ok key \<Rightarrow> (case verify_bundle_dir lib js fs (bundle_directory (model config)) key minimum of
         Ok manifest \<Rightarrow> new_active os feature st manifest
       | Err reason \<Rightarrow> new_degraded os feature st reason minimum ''reference-model-2026-b''))"

definition is_degraded :: "'s NpuSession \<Rightarrow> bool" where
  "is_degraded sess = (case npu_state sess of DegradedObserver _ _ _ \<Rightarrow> True | Active _ \<Rightarrow> False)"

definition total_inferences :: "'s NpuSession \<Rightarrow> u64" where
  "total_inferences sess = active_inferences (engine sess)"

definition show_bool :: "bool \<Rightarrow> string" where
  "show_bool b = (if b then ''true'' else ''false'')"

definition NL :: string where
  "NL = [CHR 0x0A]"

fun telemetry_of :: "ExecutionProviderBackend \<Rightarrow> string" where
  "telemetry_of AmdXdnaNpu = ''CPU_BASELINE (AMD NPU detected, hardware dispatch pending)''"
| "telemetry_of DirectMlGpu = ''CPU_BASELINE (GPU detected, DirectML dispatch pending)''"
| "telemetry_of NativeCpuBaseline = ''CPU_BASELINE''"

fun reason_code :: "DegradedReason \<Rightarrow> string" where
  "reason_code (BundleMissing _) = ''bundle_missing''"
| "reason_code (ManifestSchemaInvalid _) = ''manifest_schema_invalid''"
| "reason_code (ManifestSignatureInvalid _) = ''manifest_signature_invalid''"
| "reason_code (OnnxHashMismatch _ _) = ''onnx_hash_mismatch''"
| "reason_code (RuntimeIncompatible _) = ''runtime_incompatible''"
| "reason_code (RollbackRejected _ _) = ''rollback_rejected''"
| "reason_code (KeyRevoked _) = ''key_revoked''"

definition format_status_report :: "'s NpuSession \<Rightarrow> string" where
  "format_status_report sess =
    (let hw = info (engine sess) in
     case npu_state sess of
       Active manifest \<Rightarrow>
         ''Kavach-NPU status: ACTIVE'' @ NL
         @ ''model.bundle: '' @ onnx_file (onnx manifest) @ NL
         @ ''model.version: '' @ bundle_version manifest @ NL
         @ ''model.rollback_generation: '' @ show_word (rollback_generation manifest) @ NL
         @ ''model.opset: '' @ show_word (opset (onnx manifest)) @ NL
         @ ''execution.provider: '' @ show_backend (selected_backend hw) @ NL
         @ ''hardware.npu_detected: '' @ show_bool (device_detected hw) @ NL
         @ ''enforcement: ENABLED'' @ NL
         @ ''telemetry: '' @ telemetry_of (selected_backend hw) @ NL
     | DegradedObserver reason rollback_minimum expected_key_id \<Rightarrow>
         ''Kavach-NPU status: DEGRADED_OBSERVER'' @ NL
         @ ''model.bundle: unavailable'' @ NL
         @ ''model.reason: '' @ reason_code reason @ NL
         @ ''model.expected_key_id: '' @ expected_key_id @ NL
         @ ''model.rollback_minimum: '' @ show_word rollback_minimum @ NL
         @ ''execution.provider: '' @ show_backend (selected_backend hw) @ NL
         @ ''enforcement: DISABLED (model-driven actions denied)'' @ NL
         @ ''telemetry: OBSERVER_ONLY'' @ NL)"

definition when_active ::
    "('s NpuEngine \<Rightarrow> fl \<times> 's NpuEngine) \<Rightarrow> 's NpuSession \<Rightarrow> (NpuError + fl) \<times> 's NpuSession" where
  "when_active run sess = (case npu_state sess of
     DegradedObserver reason _ _ \<Rightarrow> (Err (DegradedError reason), sess)
   | Active _ \<Rightarrow> (let (score, eng) = run (engine sess) in (Ok score, sess\<lparr>engine := eng\<rparr>)))"

definition evaluate_io_head ::
    "('s, 't, 'x) ort_scheme \<Rightarrow> 's NpuSession \<Rightarrow> IoInputTensor \<Rightarrow> (NpuError + fl) \<times> 's NpuSession" where
  "evaluate_io_head lib sess input = when_active (\<lambda>eng. run_io_inference lib eng (io_data input)) sess"

definition evaluate_net_head ::
    "('s, 't, 'x) ort_scheme \<Rightarrow> 's NpuSession \<Rightarrow> NetInputTensor \<Rightarrow> (NpuError + fl) \<times> 's NpuSession" where
  "evaluate_net_head lib sess input = when_active (\<lambda>eng. run_net_inference lib eng (net_data input)) sess"

definition evaluate_audit_head ::
    "('s, 't, 'x) ort_scheme \<Rightarrow> 's NpuSession \<Rightarrow> AuditInputTensor \<Rightarrow> (NpuError + fl) \<times> 's NpuSession" where
  "evaluate_audit_head lib sess input = when_active (\<lambda>eng. run_audit_inference lib eng (audit_data input)) sess"

subsection \<open>Bounded sums\<close>

definition fbound :: "nat \<Rightarrow> fl \<Rightarrow> bool" where
  \<comment> \<open>finite and at most \<open>n\<close> in absolute value\<close>
  "fbound n a \<longleftrightarrow> is_finite a \<and> \<bar>fval a\<bar> \<le> of_nat n"

lemma fbound_not_NaN: "fbound n a \<Longrightarrow> a \<noteq> NaN"
  by (auto simp: fbound_def is_finite_def)

lemma fbound_fround_nonneg:
  assumes "0 \<le> x" "x \<le> of_nat n" "n < 2 ^ 24"
  shows "fbound n (fround b32 x)"
proof -
  have "fround b32 (of_nat n) = Fin (of_nat n)" using assms(3) fl_of_nat_exact(1) by (simp add: fl_of_nat_def)
  then have "fle (fround b32 x) (Fin (of_nat n))" using fround_mono_nonneg [OF assms(1,2), of b32] by simp
  then show ?thesis
    using fround_nonneg [OF assms(1), of b32] by (auto simp: fle_def fbound_def is_finite_def fval_def)
qed

lemma fbound_fneg: "fbound n a \<Longrightarrow> fbound n (fneg a)"
  by (cases a) (auto simp: fbound_def fneg_def is_finite_def fval_def)

lemma fbound_fround: "\<bar>x\<bar> \<le> of_nat n \<Longrightarrow> n < 2 ^ 24 \<Longrightarrow> fbound n (fround b32 x)"
proof (cases "0 \<le> x")
  case False
  assume "\<bar>x\<bar> \<le> of_nat n" "n < 2 ^ 24"
  then have "fbound n (fround b32 (- x))" using False by (intro fbound_fround_nonneg) simp_all
  then show ?thesis using fround_neg [of "- x" b32] False by (simp add: fbound_fneg)
qed (simp add: fbound_fround_nonneg)

lemma fbound_fadd: "fbound n a \<Longrightarrow> fbound m b \<Longrightarrow> n + m < 2 ^ 24 \<Longrightarrow> fbound (n + m) (fadd b32 a b)"
proof -
  assume ab: "fbound n a" "fbound m b" and nm: "n + m < 2 ^ 24"
  have "fbound (n + m) (fround b32 (fval a + fval b))"
    using ab nm by (intro fbound_fround) (auto simp: fbound_def intro: order.trans [OF abs_triangle_ineq] add_mono)
  then show ?thesis using ab by (auto simp: fadd_def fbound_def is_finite_def fval_def split: fl.splits)
qed

lemma fbound_fmul: "fbound n a \<Longrightarrow> fbound m b \<Longrightarrow> n * m < 2 ^ 24 \<Longrightarrow> fbound (n * m) (fmul b32 a b)"
proof -
  assume ab: "fbound n a" "fbound m b" and nm: "n * m < 2 ^ 24"
  have "fbound (n * m) (fround b32 (fval a * fval b))"
    using ab nm by (intro fbound_fround) (auto simp: fbound_def abs_mult intro: mult_mono)
  then show ?thesis using ab
    by (auto simp: fmul_def Let_def signed_zero_def fbound_def is_finite_def split: fl.splits) (auto simp: fval_def)
qed

lemma fbound_fdiv: "fbound n a \<Longrightarrow> 1 \<le> d \<Longrightarrow> n < 2 ^ 24 \<Longrightarrow> fbound n (fdiv b32 a (Fin d))"
proof -
  assume a: "fbound n a" and d: "1 \<le> d" and n: "n < 2 ^ 24"
  have "\<bar>fval a\<bar> / d \<le> \<bar>fval a\<bar>" using d by (simp add: divide_le_eq mult_le_cancel_left1)
  then have "fbound n (fround b32 (fval a / d))"
    using a d n by (intro fbound_fround) (auto simp: fbound_def)
  then show ?thesis using a d
    by (auto simp: fdiv_def Let_def signed_zero_def fbound_def is_finite_def fval_def split: fl.splits)
qed

definition i8_rows :: "i8 list list \<Rightarrow> bool" where
  "i8_rows rows \<longleftrightarrow> length rows \<le> 32 \<and> list_all (\<lambda>row. length row = 4 \<and> list_all is_i8 row) rows"

lemma i8_norm_bound: "is_i8 q \<Longrightarrow> fbound 128 (i8_norm q)"
proof -
  assume "is_i8 q"
  then have "\<bar>of_int q :: rat\<bar> \<le> of_nat 128" unfolding is_i8_def by (simp flip: of_int_abs) linarith
  moreover have "fl_of_int b32 q = Fin (of_int q)"
    using \<open>is_i8 q\<close> by (auto simp: is_i8_def intro!: fl_of_int_exact)
  ultimately show ?thesis unfolding i8_norm_def by (intro fbound_fdiv) (simp_all add: fbound_def is_finite_def fval_def)
qed

lemma weight_bound: "0 \<le> x \<Longrightarrow> x \<le> 1 \<Longrightarrow> fbound 1 (fround b32 x)"
  by (rule fbound_fround_nonneg) simp_all

lemma fbound_mono: "fbound n a \<Longrightarrow> n \<le> m \<Longrightarrow> fbound m a"
  unfolding fbound_def by (meson of_nat_mono order.trans)

lemma sum_bound:
  assumes "\<And>row. row \<in> set rows \<Longrightarrow> fbound 256 (term row)" "length rows * 256 < 2 ^ 24"
  shows "fbound (length rows * 256) (foldl (\<lambda>score row. fadd b32 score (term row)) (Fin 0) rows)"
  using assms
proof (induction rows rule: rev_induct)
  case Nil
  show ?case by (simp add: fbound_def is_finite_def fval_def)
next
  case (snoc row rows)
  then have "fbound (length rows * 256) (foldl (\<lambda>score row. fadd b32 score (term row)) (Fin 0) rows)" by simp
  moreover have "fbound 256 (term row)" using snoc.prems(1) by simp
  ultimately show ?case using fbound_fadd [of "length rows * 256" _ 256] snoc.prems(2) by (simp add: add.commute)
qed

lemma mean_unit:
  assumes "\<And>row. row \<in> set rows \<Longrightarrow> fbound 256 (term row)" "length rows \<le> 32" "1 \<le> d"
  shows "unit_score (fclamp (fdiv b32 (foldl (\<lambda>score row. fadd b32 score (term row)) (Fin 0) rows) (Fin d)) (Fin 0) (Fin 1))"
proof -
  have "fbound (length rows * 256) (foldl (\<lambda>score row. fadd b32 score (term row)) (Fin 0) rows)"
    using assms(1,2) by (intro sum_bound) simp_all
  then have "fbound (length rows * 256) (fdiv b32 (foldl (\<lambda>score row. fadd b32 score (term row)) (Fin 0) rows) (Fin d))"
    using assms(2,3) by (intro fbound_fdiv) simp_all
  then show ?thesis by (intro unit_score_clamp fbound_not_NaN)
qed

lemma i8_rows_entry: "i8_rows rows \<Longrightarrow> row \<in> set rows \<Longrightarrow> k < 4 \<Longrightarrow> is_i8 (row ! k)"
  by (simp add: i8_rows_def list_all_iff)

lemma baseline_unit:
  assumes "i8_rows rows"
  shows "unit_score (baseline_io rows)" "unit_score (baseline_net rows)" "unit_score (baseline_audit rows)"
proof -
  have len: "length rows \<le> 32" using assms by (simp add: i8_rows_def)
  have n: "fbound 128 (i8_norm (row ! 0))" "fbound 128 (i8_norm (row ! 3))" if "row \<in> set rows" for row
    using i8_rows_entry [OF assms that] by (simp_all add: i8_norm_bound)
  have m: "fbound 128 (fmul b32 a (fround b32 x))" if "fbound 128 a" "0 \<le> x" "x \<le> 1" for a x
    using fbound_fmul [OF that(1) weight_bound [OF that(2,3)]] by simp
  have t: "fbound 256 (fadd b32 (fmul b32 (i8_norm (row ! 0)) (fround b32 (7 / 10)))
      (fmul b32 (i8_norm (row ! 3)) (fround b32 (3 / 10))))" if "row \<in> set rows" for row
    using fbound_fadd [OF m [OF n(1) [OF that], of "7 / 10"] m [OF n(2) [OF that], of "3 / 10"]] by simp
  show "unit_score (baseline_io rows)" unfolding baseline_io_def by (rule mean_unit [OF t len]) simp_all
  have w: "fbound 256 (i8_norm (row ! 0))" if "row \<in> set rows" for row
    using fbound_mono [OF n(1) [OF that]] by simp
  show "unit_score (baseline_net rows)" "unit_score (baseline_audit rows)"
    unfolding baseline_net_def baseline_audit_def by (rule mean_unit [OF w len]; simp)+
qed

lemma normalize_raw_unit: "raw \<noteq> NaN \<Longrightarrow> unit_score (normalize_raw raw)"
  unfolding normalize_raw_def by (intro unit_score_clamp fdiv_not_NaN) simp_all

lemma normalize_raw_NaN: "normalize_raw NaN = NaN"
  by (simp add: normalize_raw_def fdiv_def fclamp_def flt_def Let_def)

lemma run_multi_head_scores:
  "run_multi_head lib sess io net audit = Ok (a, b, c) \<Longrightarrow> x \<in> {a, b, c} \<Longrightarrow> unit_score x \<or> x = NaN"
  using normalize_raw_unit normalize_raw_NaN
  by (auto simp: run_multi_head_def sum_case_Ok) metis+

lemma ort_scores:
  "ort_run_io lib s rows = Ok x \<Longrightarrow> unit_score x \<or> x = NaN"
  "ort_run_net lib s rows = Ok x \<Longrightarrow> unit_score x \<or> x = NaN"
  "ort_run_audit lib s rows = Ok x \<Longrightarrow> unit_score x \<or> x = NaN"
  using run_multi_head_scores [of lib s]
  by (auto simp: ort_run_io_def ort_run_net_def ort_run_audit_def split: sum.splits) blast+

lemma when_active_score:
  assumes "fst (when_active (\<lambda>eng. dispatch_or run eng base) sess) = Ok x" "unit_score base"
    and "\<And>s y. run s = Ok y \<Longrightarrow> unit_score y \<or> y = NaN"
  shows "unit_score x \<or> (x = NaN \<and> ort_session (engine sess) \<noteq> None)"
  using assms by (auto simp: when_active_def dispatch_or_def split: NpuState.splits option.splits sum.splits)

lemma when_active_run:
  "when_active (\<lambda>eng. dispatch_or run eng base) sess =
     (case npu_state sess of DegradedObserver r _ _ \<Rightarrow> (Err (DegradedError r), sess)
      | Active _ \<Rightarrow> (Ok (fst (dispatch_or run (engine sess) base)),
          sess\<lparr>engine := (engine sess)\<lparr>active_inferences := active_inferences (engine sess) + 1\<rparr>\<rparr>))"
  by (simp add: when_active_def dispatch_or_def split: NpuState.split)

subsection \<open>The contract of a head\<close>

text \<open>
  The three heads share one contract. A head asks the ONNX session, falls back to its baseline scorer,
  and answers only in an active session; the ONNX session may answer NaN, the baseline must not.
  What a client may rely on is proved here once, for any head that keeps the contract.
\<close>

definition sound_answer :: "'s NpuSession \<Rightarrow> NpuError + fl \<Rightarrow> bool" where
  "sound_answer sess res = (case res of
     Ok x \<Rightarrow> unit_score x \<or> (x = NaN \<and> (\<exists>s. ort_session (engine sess) = Some s))
   | Err e \<Rightarrow> (\<exists>r. e = DegradedError r) \<and> is_degraded sess)"

locale inference_head =
  fixes evaluate :: "('s, 't, 'x) ort_scheme \<Rightarrow> 's NpuSession \<Rightarrow> i8 list list \<Rightarrow> (NpuError + fl) \<times> 's NpuSession"
    and run :: "('s, 't, 'x) ort_scheme \<Rightarrow> 's OrtBackendSession \<Rightarrow> i8 list list \<Rightarrow> string + fl"
    and baseline :: "i8 list list \<Rightarrow> fl"
  assumes evaluate_dispatch:
      "evaluate ort sess rows = when_active (\<lambda>eng. dispatch_or (\<lambda>s. run ort s rows) eng (baseline rows)) sess"
    and run_score: "run ort s rows = Ok x \<Longrightarrow> unit_score x \<or> x = NaN"
    and baseline_score: "i8_rows rows \<Longrightarrow> unit_score (baseline rows)"
begin

lemma answers_iff_active: "is_ok (fst (evaluate ort sess rows)) \<longleftrightarrow> \<not> is_degraded sess"
  by (simp add: evaluate_dispatch when_active_run is_degraded_def split: NpuState.split)

lemma degraded_unchanged: "is_degraded sess \<Longrightarrow> snd (evaluate ort sess rows) = sess"
  by (simp add: evaluate_dispatch when_active_run is_degraded_def split: NpuState.splits)

lemma counts_inference:
  "fst (evaluate ort sess rows) = Ok x \<Longrightarrow> total_inferences (snd (evaluate ort sess rows)) = total_inferences sess + 1"
  by (auto simp: evaluate_dispatch when_active_run total_inferences_def split: NpuState.splits)

lemma sound: "i8_rows rows \<Longrightarrow> sound_answer sess (fst (evaluate ort sess rows))"
  using when_active_score [where sess = sess and run = "\<lambda>s. run ort s rows", OF _ baseline_score run_score]
  by (auto simp: sound_answer_def evaluate_dispatch is_degraded_def when_active_def split: NpuState.splits sum.splits prod.splits)

end

interpretation io_head: inference_head "\<lambda>ort sess rows. evaluate_io_head ort sess \<lparr>io_data = rows\<rparr>" ort_run_io baseline_io
  by unfold_locales (auto simp: evaluate_io_head_def run_io_inference_def baseline_unit dest: ort_scores)

interpretation net_head: inference_head "\<lambda>ort sess rows. evaluate_net_head ort sess \<lparr>net_data = rows\<rparr>" ort_run_net baseline_net
  by unfold_locales (auto simp: evaluate_net_head_def run_net_inference_def baseline_unit dest: ort_scores)

interpretation audit_head: inference_head "\<lambda>ort sess rows. evaluate_audit_head ort sess \<lparr>audit_data = rows\<rparr>" ort_run_audit baseline_audit
  by unfold_locales (auto simp: evaluate_audit_head_def run_audit_inference_def baseline_unit dest: ort_scores)

lemma evaluate_eta [simp]:
  "evaluate_io_head ort sess \<lparr>io_data = io_data io\<rparr> = evaluate_io_head ort sess io"
  "evaluate_net_head ort sess \<lparr>net_data = net_data net\<rparr> = evaluate_net_head ort sess net"
  "evaluate_audit_head ort sess \<lparr>audit_data = audit_data audit\<rparr> = evaluate_audit_head ort sess audit"
  by (simp_all add: evaluate_io_head_def evaluate_net_head_def evaluate_audit_head_def)

lemma head_answers_iff:
  "is_ok (fst (evaluate_io_head ort sess io)) \<longleftrightarrow> \<not> is_degraded sess"
  "is_ok (fst (evaluate_net_head ort sess net)) \<longleftrightarrow> \<not> is_degraded sess"
  "is_ok (fst (evaluate_audit_head ort sess audit)) \<longleftrightarrow> \<not> is_degraded sess"
  using io_head.answers_iff_active [of ort sess "io_data io"] net_head.answers_iff_active [of ort sess "net_data net"]
    audit_head.answers_iff_active [of ort sess "audit_data audit"] by simp_all

lemma head_sound:
  "i8_rows (io_data io) \<Longrightarrow> sound_answer sess (fst (evaluate_io_head ort sess io))"
  "i8_rows (net_data net) \<Longrightarrow> sound_answer sess (fst (evaluate_net_head ort sess net))"
  "i8_rows (audit_data audit) \<Longrightarrow> sound_answer sess (fst (evaluate_audit_head ort sess audit))"
  using io_head.sound [of "io_data io" sess ort] net_head.sound [of "net_data net" sess ort]
    audit_head.sound [of "audit_data audit" sess ort] by simp_all

lemma from_config_parts:
  "npu_state (fst (from_config os feature st lib js fs config kb)) =
     (case key_from_bytes lib kb of
        Err e \<Rightarrow> DegradedObserver (ManifestSignatureInvalid (''invalid verifying key: '' @ e))
           (minimum_rollback_generation (model config)) ''reference-model-2026-b''
      | Ok key \<Rightarrow> (case verify_bundle_dir lib js fs (bundle_directory (model config)) key
            (minimum_rollback_generation (model config)) of
          Ok m \<Rightarrow> Active m
        | Err r \<Rightarrow> DegradedObserver r (minimum_rollback_generation (model config)) ''reference-model-2026-b''))"
  "engine (fst (from_config os feature st lib js fs config kb)) = fst (engine_new os feature st)"
  by (simp_all add: from_config_def new_active_def new_degraded_def case_prod_beta Let_def split: sum.split)

subsection \<open>Properties\<close>


text \<open>Scores stay in range: on a tensor of signed bytes every score of every head is a number between
  0 and 1, and only an ONNX session can make it NaN; the baseline never does. Each answered
  request counts as one inference.\<close>

theorem head_scores_in_range:
  assumes "i8_rows (io_data io)" "i8_rows (net_data net)" "i8_rows (audit_data audit)"
    and "fst (evaluate_io_head ort sess io) = Ok a" "fst (evaluate_net_head ort sess net) = Ok b"
    and "fst (evaluate_audit_head ort sess audit) = Ok c"
  shows "list_all (\<lambda>x. unit_score x \<or> (x = NaN \<and> ort_session (engine sess) \<noteq> None)) [a, b, c]
    \<and> total_inferences (snd (evaluate_io_head ort sess io)) = total_inferences sess + 1"
proof -
  have "sound_answer sess (Ok a)" "sound_answer sess (Ok b)" "sound_answer sess (Ok c)"
    using head_sound(1) [OF assms(1), of sess ort] head_sound(2) [OF assms(2), of sess ort]
      head_sound(3) [OF assms(3), of sess ort] assms(4-6) by simp_all
  then show ?thesis using io_head.counts_inference [of ort sess "io_data io" a] assms(4) by (auto simp: sound_answer_def)
qed

definition sample_ort :: "(unit, unit) ort" where
  "sample_ort = \<lparr>init_from = \<lambda>_. Err [], commit_from_memory = \<lambda>_ _. Err [],
     tensor_from_array = \<lambda>_ _. Err [], session_run = \<lambda>_ _. Err []\<rparr>"

definition sample_session :: "unit NpuSession" where
  "sample_session = \<lparr>npu_state = Active sample_manifest, engine = \<lparr>info = \<lparr>device_detected = False,
     driver_version = None, runtime_bin_dir = None, xclbin_path = None, selected_backend = NativeCpuBaseline\<rparr>,
     active_inferences = 7, ort_session = None\<rparr>\<rparr>"

theorem head_scores_in_range_witness:
  "list_all (\<lambda>x. unit_score x \<or> (x = NaN \<and> ort_session (engine sample_session) \<noteq> None))
     [baseline_io (zero_rows 10), baseline_net (zero_rows 32), baseline_audit (zero_rows 16)]
   \<and> total_inferences (snd (evaluate_io_head sample_ort sample_session \<lparr>io_data = zero_rows 10\<rparr>))
       = total_inferences sample_session + 1"
  by (rule head_scores_in_range [of "\<lparr>io_data = zero_rows 10\<rparr>" "\<lparr>net_data = zero_rows 32\<rparr>" "\<lparr>audit_data = zero_rows 16\<rparr>"])
    (simp_all add: i8_rows_def zero_rows_def is_i8_def evaluate_io_head_def evaluate_net_head_def
      evaluate_audit_head_def run_io_inference_def run_net_inference_def run_audit_inference_def
      when_active_def dispatch_or_def sample_session_def list_all_length)

text \<open>The execution-provider cascade is honest about where a model runs: an ONNX session is said to
  run on the NPU exactly when the environment opted in, device, runtime and bitstream were found
  and the Vitis provider took the model; on the GPU exactly when DirectML took it after that was
  not possible; on the CPU only after both failed; and loading fails only when every provider
  tried refused the model.\<close>

theorem provider_cascade:
  fixes os lib st onnx_bytes hw
  defines "res \<equiv> fst (session_from_bytes os lib st onnx_bytes hw)"
    and "npu \<equiv> vitis_enabled os hw \<and> is_ok (commit_from_memory lib (vitis_provider os hw) onnx_bytes)"
    and "gpu \<equiv> is_ok (commit_from_memory lib DirectML onnx_bytes)"
    and "cpu \<equiv> is_ok (commit_from_memory lib CpuProvider onnx_bytes)"
  shows "map_sum (\<lambda>_. ()) ort_backend res =
     (if npu then Ok AmdXdnaNpu else if gpu then Ok DirectMlGpu else if cpu then Ok NativeCpuBaseline else Err ())"
  unfolding res_def npu_def gpu_def cpu_def
  by (simp add: session_from_bytes_def directml_session_def cpu_session_def Let_def split: sum.split)

text \<open>The verified model is never loaded: whatever bundle, key and configuration a session is built
  from, its engine is the one built from the reference model compiled into the program, so the
  verified ONNX file has no influence on any score.\<close>

theorem verified_model_never_loaded:
  "engine (fst (from_config os feature st lib js fs config kb))
     = fst (engine_with_onnx_bytes os feature st generate_reference_onnx)"
  by (simp add: from_config_parts engine_new_def)

end
