(* ===== verification/Kavach_Broker.thy ===== *)
theory Kavach_Broker
  imports Kavach_Verdict Kavach_Rules
begin

section \<open>The enforcement broker\<close>

text \<open>
  Models \<open>crates/kavach-firewall/src/broker.rs\<close>. \<open>evaluate_and_enforce\<close> returns its
  result together with the broker after the call: the replay cache is purged before the
  replay check, also on calls that are then refused. \<open>retain_until\<close> is computed with the
  wrapping \<open>u64\<close> addition of the release profile. The broker's life is a labelled step
  relation; the properties are over all its traces.
\<close>

datatype EnforcedAction =
    ProcessSuspended u32 bytes \<comment> \<open>pid, evidence digest\<close>
  | ProcessTerminated u32 bytes
  | AlertLogged bytes

record EnforcementBroker =
  active_policy_generation :: u64
  hard_kill_enabled :: bool
  minimum_corroborating_evidence :: u8
  trusted_model_sha256 :: bytes
  is_model_degraded :: bool
  replay_cache :: "(bytes \<times> u64) list"
  rule_registry :: WfpRuleRegistry

definition broker_new :: "u64 \<Rightarrow> bool \<Rightarrow> u8 \<Rightarrow> bytes \<Rightarrow> bool \<Rightarrow> EnforcementBroker" where
  "broker_new gen hard_kill min_evidence model degraded =
    \<lparr>active_policy_generation = gen, hard_kill_enabled = hard_kill,
     minimum_corroborating_evidence = min_evidence, trusted_model_sha256 = model,
     is_model_degraded = degraded, replay_cache = [], rule_registry = registry_new\<rparr>"

definition retain_nonces :: "u64 \<Rightarrow> (bytes \<times> u64) list \<Rightarrow> (bytes \<times> u64) list" where
  "retain_nonces now cache = filter (\<lambda>(_, retain_until). retain_until \<ge> now) cache"

definition purge_expired_replay_cache :: "EnforcementBroker \<Rightarrow> u64 \<Rightarrow> EnforcementBroker" where
  "purge_expired_replay_cache b now = b\<lparr>replay_cache := retain_nonces now (replay_cache b)\<rparr>"

definition replay_cache_size :: "EnforcementBroker \<Rightarrow> nat" where
  "replay_cache_size b = length (replay_cache b)"

definition action_gate :: "EnforcementBroker \<Rightarrow> Verdict \<Rightarrow> DispatchError option" where
  \<comment> \<open>step 7: the policy gates of the requested action; \<open>None\<close> lets it pass\<close>
  "action_gate b v = (case requested_action v of
     HardKill \<Rightarrow>
       if \<not> hard_kill_enabled b then Some ActionDenied
       else if corroborating_evidence_count v < minimum_corroborating_evidence b
         then Some ActionDenied
       else if target_process_id v = 0 then Some MalformedMessage
       else None
   | SuspendAndAlert \<Rightarrow> if target_process_id v = 0 then Some MalformedMessage else None
   | Alert \<Rightarrow> None)"

definition enforced_action :: "Verdict \<Rightarrow> EnforcedAction" where
  "enforced_action v = (case requested_action v of
     HardKill \<Rightarrow> ProcessTerminated (target_process_id v) (evidence_digest v)
   | SuspendAndAlert \<Rightarrow> ProcessSuspended (target_process_id v) (evidence_digest v)
   | Alert \<Rightarrow> AlertLogged (evidence_digest v))"

definition evaluate_and_enforce ::
    "EnforcementBroker \<Rightarrow> Verdict \<Rightarrow> u64 \<Rightarrow> (DispatchError + EnforcedAction) \<times> EnforcementBroker" where
  "evaluate_and_enforce b v now =
    (if major (protocol_version v) \<noteq> 1 then (Err VersionMismatch, b)
     else if flags v \<noteq> 0 then (Err MalformedMessage, b)
     else if now > expires_at_unix_ms v then (Err Expired, b)
     else
       let b = purge_expired_replay_cache b now in
       if map_of (replay_cache b) (request_id v) \<noteq> None then (Err ReplayDetected, b)
       else if policy_generation v \<noteq> active_policy_generation b then (Err ActionDenied, b)
       else if is_model_degraded b \<or> model_bundle_sha256 v \<noteq> trusted_model_sha256 b
         then (Err ActionDenied, b)
       else (case action_gate b v of
           Some e \<Rightarrow> (Err e, b)
         | None \<Rightarrow>
             let retain_until = expires_at_unix_ms v + 60000 in
             (Ok (enforced_action v),
              b\<lparr>replay_cache := AList.update (request_id v) retain_until (replay_cache b)\<rparr>)))"

definition broker_dispatch :: "EnforcementBroker \<Rightarrow> Verdict \<Rightarrow> DispatchError + unit" where
  "broker_dispatch b v =
    (if major (protocol_version v) \<noteq> 1 then Err VersionMismatch
     else if flags v \<noteq> 0 then Err MalformedMessage
     else if is_model_degraded b \<or> model_bundle_sha256 v \<noteq> trusted_model_sha256 b
       then Err ActionDenied
     else Ok ())"

subsection \<open>The nonce store the broker relies on\<close>

text \<open>
  What the broker needs of its replay cache: remembering a nonce makes it known with its
  deadline and changes no other, and expiring keeps exactly the nonces whose deadline has
  not passed. A remembered nonce then survives every operation up to its deadline.
\<close>

locale nonce_store =
  fixes known :: "'s \<Rightarrow> 'k \<Rightarrow> u64 option"
    and remember :: "'k \<Rightarrow> u64 \<Rightarrow> 's \<Rightarrow> 's"
    and expire :: "u64 \<Rightarrow> 's \<Rightarrow> 's"
    and invar :: "'s \<Rightarrow> bool"
  assumes known_remember: "invar s \<Longrightarrow> known (remember k t s) = (known s)(k \<mapsto> t)"
    and known_expire: "invar s \<Longrightarrow> known (expire now s) k
          = (case known s k of None \<Rightarrow> None | Some t \<Rightarrow> if now \<le> t then Some t else None)"
    and invar_remember: "invar s \<Longrightarrow> invar (remember k t s)"
    and invar_expire: "invar s \<Longrightarrow> invar (expire now s)"
begin

lemma survives_expire: "invar s \<Longrightarrow> known s k = Some t \<Longrightarrow> now \<le> t \<Longrightarrow> known (expire now s) k = Some t"
  by (simp add: known_expire)

lemma expire_drops: "invar s \<Longrightarrow> known s k = Some t \<Longrightarrow> t < now \<Longrightarrow> known (expire now s) k = None"
  by (simp add: known_expire)

lemma survives_remember:
  "invar s \<Longrightarrow> known s k = Some t \<Longrightarrow> known s k' = None \<Longrightarrow> known (remember k' t' s) k = Some t"
  by (auto simp: known_remember)

lemma expire_known: "invar s \<Longrightarrow> known (expire now s) k = Some t \<Longrightarrow> known s k = Some t \<and> now \<le> t"
  by (simp add: known_expire split: option.splits if_splits)

end

lemma map_of_filter_snd:
  "distinct (map fst al) \<Longrightarrow> map_of (filter (\<lambda>(_, t). P t) al) k
     = (case map_of al k of None \<Rightarrow> None | Some t \<Rightarrow> if P t then Some t else None)"
proof (induction al)
  case Nil
  then show ?case by simp
next
  case (Cons p al)
  have "map_of al (fst p) = None" using Cons.prems by (simp add: map_of_eq_None_iff)
  with Cons show ?case by (cases p) auto
qed

interpretation nonces: nonce_store map_of AList.update retain_nonces "\<lambda>c. distinct (map fst c)"
proof unfold_locales
  fix s :: "(bytes \<times> u64) list" and k t now
  assume inv: "distinct (map fst s)"
  show "map_of (AList.update k t s) = (map_of s)(k \<mapsto> t)" by (rule AList.update_conv')
  show "map_of (retain_nonces now s) k
      = (case map_of s k of None \<Rightarrow> None | Some t \<Rightarrow> if now \<le> t then Some t else None)"
    using inv unfolding retain_nonces_def by (rule map_of_filter_snd)
  show "distinct (map fst (AList.update k t s))" using inv by (rule AList.distinct_update)
  show "distinct (map fst (retain_nonces now s))"
    using inv by (simp add: retain_nonces_def distinct_map_filter)
qed


subsection \<open>The life of a broker\<close>

datatype broker_event =
    Evaluated Verdict u64 "DispatchError + EnforcedAction" \<comment> \<open>verdict, time, outcome\<close>
  | Purged u64
  | RulesChanged

inductive broker_step :: "EnforcementBroker \<Rightarrow> broker_event \<Rightarrow> EnforcementBroker \<Rightarrow> bool" where
  evaluate: "evaluate_and_enforce b v now = (r, b') \<Longrightarrow> broker_step b (Evaluated v now r) b'"
| purge: "broker_step b (Purged now) (purge_expired_replay_cache b now)"
| rule_change: "broker_step b RulesChanged (b\<lparr>rule_registry := reg\<rparr>)"
    \<comment> \<open>any use of \<open>rule_registry_mut\<close>\<close>

inductive broker_trace ::
    "EnforcementBroker \<Rightarrow> broker_event list \<Rightarrow> EnforcementBroker \<Rightarrow> bool" where
  trace_nil: "broker_trace b [] b"
| trace_cons: "broker_step b e b' \<Longrightarrow> broker_trace b' es b'' \<Longrightarrow> broker_trace b (e # es) b''"

inductive_cases broker_step_evalE: "broker_step b (Evaluated v now r) b'"
inductive_cases broker_trace_NilE: "broker_trace b [] b'"
inductive_cases broker_trace_ConsE: "broker_trace b (e # es) b'"

definition cache_inv :: "EnforcementBroker \<Rightarrow> bool" where
  "cache_inv b \<longleftrightarrow> distinct (map fst (replay_cache b))"

definition policy_of :: "EnforcementBroker \<Rightarrow> u64 \<times> bool \<times> u8 \<times> bytes \<times> bool" where
  "policy_of b = (active_policy_generation b, hard_kill_enabled b,
     minimum_corroborating_evidence b, trusted_model_sha256 b, is_model_degraded b)"

fun event_time :: "broker_event \<Rightarrow> u64" where
  "event_time (Evaluated _ now _) = now"
| "event_time (Purged now) = now"
| "event_time RulesChanged = 0"

definition authorized :: "EnforcementBroker \<Rightarrow> Verdict \<Rightarrow> u64 \<Rightarrow> bool" where
  \<comment> \<open>the abstract policy: every gate of ADR 002, 003 and 004\<close>
  "authorized b v now \<longleftrightarrow> major (protocol_version v) = 1 \<and> flags v = 0
     \<and> now \<le> expires_at_unix_ms v
     \<and> (\<forall>t. map_of (replay_cache b) (request_id v) = Some t \<longrightarrow> t < now)
     \<and> policy_generation v = active_policy_generation b
     \<and> \<not> is_model_degraded b \<and> model_bundle_sha256 v = trusted_model_sha256 b
     \<and> (requested_action v \<noteq> Alert \<longrightarrow> target_process_id v \<noteq> 0)
     \<and> (requested_action v = HardKill \<longrightarrow> hard_kill_enabled b
          \<and> minimum_corroborating_evidence b \<le> corroborating_evidence_count v)"

lemmas broker_defs = evaluate_and_enforce_def purge_expired_replay_cache_def Let_def

lemma action_gate_None:
  "action_gate b v = None \<longleftrightarrow> (requested_action v \<noteq> Alert \<longrightarrow> target_process_id v \<noteq> 0)
     \<and> (requested_action v = HardKill \<longrightarrow> hard_kill_enabled b
          \<and> minimum_corroborating_evidence b \<le> corroborating_evidence_count v)"
  by (cases "requested_action v") (auto simp: action_gate_def)

lemma action_gate_congs [simp]:
  "action_gate (b\<lparr>replay_cache := c\<rparr>) v = action_gate b v"
  by (simp add: action_gate_def split: EnforcementAction.split)

lemma evaluate_Ok_iff:
  assumes "cache_inv b"
  shows "is_ok (fst (evaluate_and_enforce b v now)) \<longleftrightarrow> authorized b v now"
proof -
  have "map_of (retain_nonces now (replay_cache b)) (request_id v) = None
      \<longleftrightarrow> (\<forall>t. map_of (replay_cache b) (request_id v) = Some t \<longrightarrow> t < now)"
    using assms nonces.known_expire [of "replay_cache b" now "request_id v"]
    by (cases "map_of (replay_cache b) (request_id v)") (auto simp: cache_inv_def not_less not_le)
  then show ?thesis
    using action_gate_None [of b v]
    by (cases "action_gate b v") (auto simp: broker_defs authorized_def not_less)
qed

lemma evaluate_outcome:
  "evaluate_and_enforce b v now = (Ok a, b') \<Longrightarrow> a = enforced_action v"
  by (auto simp: broker_defs split: if_splits option.splits)

lemma evaluate_policy: "policy_of (snd (evaluate_and_enforce b v now)) = policy_of b"
  by (auto simp: broker_defs policy_of_def split: option.split)

lemma evaluate_cache_inv: "cache_inv b \<Longrightarrow> cache_inv (snd (evaluate_and_enforce b v now))"
  using nonces.invar_expire [of "replay_cache b" now]
    nonces.invar_remember [of "retain_nonces now (replay_cache b)"]
  by (auto simp: broker_defs cache_inv_def split: option.split)

lemma step_cache_inv: "broker_step b e b' \<Longrightarrow> cache_inv b \<Longrightarrow> cache_inv b'"
proof (induction rule: broker_step.induct)
  case (evaluate b v now r b')
  then show ?case using evaluate_cache_inv [of b v now] by simp
next
  case (purge b now)
  then show ?case
    using nonces.invar_expire [of "replay_cache b" now]
    by (simp add: purge_expired_replay_cache_def cache_inv_def)
next
  case (rule_change b reg)
  then show ?case by (simp add: cache_inv_def)
qed

lemma step_policy: "broker_step b e b' \<Longrightarrow> policy_of b' = policy_of b"
proof (induction rule: broker_step.induct)
  case (evaluate b v now r b')
  then show ?case using evaluate_policy [of b v now] by simp
qed (simp_all add: policy_of_def purge_expired_replay_cache_def)

lemma broker_new_inv: "cache_inv (broker_new g h m s d)"
  by (simp add: cache_inv_def broker_new_def)

lemma evaluate_remembers:
  assumes "cache_inv b" "evaluate_and_enforce b v now = (Ok a, b')"
  shows "map_of (replay_cache b') (request_id v) = Some (expires_at_unix_ms v + 60000)"
  using assms nonces.known_remember [of "retain_nonces now (replay_cache b)" "request_id v"]
    nonces.invar_expire [of "replay_cache b" now]
  by (auto simp: broker_defs cache_inv_def split: if_splits option.splits)

lemma step_keeps_nonce:
  assumes "broker_step b e b'" "cache_inv b" "map_of (replay_cache b) k = Some t"
    and "event_time e \<le> t"
  shows "map_of (replay_cache b') k = Some t"
  using assms
proof (induction rule: broker_step.induct)
  case (evaluate b v now r b')
  let ?c = "retain_nonces now (replay_cache b)"
  have inv: "distinct (map fst (replay_cache b))" using evaluate.prems(1) by (simp add: cache_inv_def)
  have kept: "map_of ?c k = Some t"
    using nonces.survives_expire [OF inv] evaluate.prems by simp
  then have "map_of ?c k' = None \<Longrightarrow> map_of (AList.update k' t' ?c) k = Some t" for k' t'
    by (rule nonces.survives_remember [OF nonces.invar_expire [OF inv]])
  with kept evaluate.hyps evaluate.prems show ?case
    by (auto simp: broker_defs split: if_splits option.splits)
next
  case (purge b now)
  then show ?case
    using nonces.survives_expire [of "replay_cache b" k t now]
    by (simp add: purge_expired_replay_cache_def cache_inv_def)
next
  case (rule_change b reg)
  then show ?case by simp
qed

lemma trace_keeps_nonce:
  assumes "broker_trace b es b'" "cache_inv b" "map_of (replay_cache b) k = Some t"
    and "\<forall>e \<in> set es. event_time e \<le> t"
  shows "map_of (replay_cache b') k = Some t \<and> cache_inv b'"
  using assms
proof (induction rule: broker_trace.induct)
  case (trace_nil b)
  then show ?case by simp
next
  case (trace_cons b e b' es b'')
  then show ?case using step_keeps_nonce [of b e b' k t] step_cache_inv [of b e b'] by simp
qed

lemma trace_policy: "broker_trace b es b' \<Longrightarrow> policy_of b' = policy_of b"
  by (induction rule: broker_trace.induct) (simp_all add: step_policy)

lemma trace_cache_inv: "broker_trace b es b' \<Longrightarrow> cache_inv b \<Longrightarrow> cache_inv b'"
  by (induction rule: broker_trace.induct) (simp_all add: step_cache_inv)

lemma broker_trace_append:
  "broker_trace b (xs @ ys) b'' \<longleftrightarrow> (\<exists>b'. broker_trace b xs b' \<and> broker_trace b' ys b'')"
proof (induction xs arbitrary: b)
  case Nil
  show ?case by (auto intro: trace_nil elim: broker_trace_NilE)
next
  case (Cons e xs)
  then show ?case by (auto elim!: broker_trace_ConsE intro: trace_cons) (metis trace_cons)
qed

lemma known_not_authorized:
  "map_of (replay_cache b) (request_id v) = Some t \<Longrightarrow> now \<le> t \<Longrightarrow> \<not> authorized b v now"
  by (auto simp: authorized_def)

lemma trace_to_event:
  assumes "broker_trace b (pre @ Evaluated v now r # mid) b'" "cache_inv b"
  obtains b1 b2 where "broker_trace b pre b1" "cache_inv b1" "policy_of b1 = policy_of b"
    "evaluate_and_enforce b1 v now = (r, b2)" "cache_inv b2" "broker_trace b2 mid b'"
proof -
  obtain b1 b2 where *: "broker_trace b pre b1" "broker_step b1 (Evaluated v now r) b2"
      "broker_trace b2 mid b'"
    using assms(1) by (auto simp: broker_trace_append elim: broker_trace_ConsE)
  then have "cache_inv b1" using assms(2) by (simp add: trace_cache_inv)
  moreover have "evaluate_and_enforce b1 v now = (r, b2)" using *(2) by (rule broker_step_evalE)
  ultimately show thesis using that * step_cache_inv trace_policy by blast
qed

lemma nonce_kept_after:
  assumes "broker_trace b (pre @ Evaluated v now (Ok a) # mid) b'" "cache_inv b"
    and "\<forall>e \<in> set mid. event_time e \<le> expires_at_unix_ms v + 60000"
  shows "map_of (replay_cache b') (request_id v) = Some (expires_at_unix_ms v + 60000) \<and> cache_inv b'"
proof -
  obtain b1 b2 where "cache_inv b1" "evaluate_and_enforce b1 v now = (Ok a, b2)"
      "cache_inv b2" "broker_trace b2 mid b'"
    using assms(1,2) by (rule trace_to_event)
  then show ?thesis
    using evaluate_remembers [of b1 v now a b2] trace_keeps_nonce [of b2 mid b'] assms(3) by simp
qed

lemma not_after_retention:
  assumes "unat e + 60000 < 2 ^ 64" "t \<le> e"
  shows "t \<le> e + (60000 :: u64)"
  using assms unat_add_no_wrap [of e 60000] by (simp add: word_le_nat_alt)

definition sample_broker :: EnforcementBroker where
  "sample_broker = broker_new 7 True 2 (replicate 32 0x78) False"

definition edge_verdict :: Verdict where
  \<comment> \<open>a verdict that expires 59 s before the end of the \<open>u64\<close> millisecond range\<close>
  "edge_verdict = (sample_verdict HardKill 4242)\<lparr>expires_at_unix_ms := 0xFFFFFFFFFFFF1987\<rparr>"

lemmas broker_eval = broker_defs sample_broker_def broker_new_def sample_verdict_def edge_verdict_def
  retain_nonces_def action_gate_def enforced_action_def

lemma sample_accepts:
  "evaluate_and_enforce sample_broker (sample_verdict HardKill 4242) 2000
     = (Ok (ProcessTerminated 4242 (replicate 32 0xBB)),
        sample_broker\<lparr>replay_cache := [(replicate 16 0x42, 65000)]\<rparr>)"
  by (simp add: broker_eval)

lemma sample_trace:
  "broker_trace (broker_new 7 True 2 (replicate 32 0x78) False)
     ([] @ Evaluated (sample_verdict HardKill 4242) 2000 (Ok (ProcessTerminated 4242 (replicate 32 0xBB))) # [])
     (sample_broker\<lparr>replay_cache := [(replicate 16 0x42, 65000)]\<rparr>)"
  using sample_accepts unfolding sample_broker_def
  by (auto intro: trace_cons [OF broker_step.evaluate trace_nil])

subsection \<open>Properties of the broker\<close>

text \<open>C1: in every reachable broker a request is enforced exactly when every gate of the
  policy holds (protocol major 1, no reserved flags, not expired, nonce not remembered,
  policy generation, healthy and trusted model, target process, hard-kill policy), and what is
  enforced is the requested action on the requested process with its evidence digest.\<close>

theorem broker_enforces_iff_authorized:
  assumes "broker_trace (broker_new g h m s d) es b"
  shows "fst (evaluate_and_enforce b v now) = Ok a \<longleftrightarrow> authorized b v now \<and> a = enforced_action v"
proof -
  have "cache_inv b" using assms broker_new_inv by (rule trace_cache_inv)
  then have iff: "is_ok (fst (evaluate_and_enforce b v now)) \<longleftrightarrow> authorized b v now"
    by (rule evaluate_Ok_iff)
  show ?thesis
  proof (cases "fst (evaluate_and_enforce b v now)")
    case (Inl e)
    with iff show ?thesis by simp
  next
    case (Inr a')
    then have "a' = enforced_action v"
      using evaluate_outcome [of b v now a' "snd (evaluate_and_enforce b v now)"] by (simp add: prod_eq_iff)
    with Inr iff show ?thesis by auto
  qed
qed

theorem broker_enforces_iff_authorized_witness:
  "fst (evaluate_and_enforce sample_broker (sample_verdict HardKill 4242) 2000)
     = Ok (ProcessTerminated 4242 (replicate 32 0xBB))
   \<longleftrightarrow> authorized sample_broker (sample_verdict HardKill 4242) 2000
       \<and> ProcessTerminated 4242 (replicate 32 0xBB) = enforced_action (sample_verdict HardKill 4242)"
  unfolding sample_broker_def by (rule broker_enforces_iff_authorized [OF trace_nil])

text \<open>An enforced request leaves a nonce behind that refuses every later request with the
  same request id, whatever else happens in between, as long as the clock readings stay
  within the retention of 60 s after the expiry and that deadline does not overflow.\<close>

theorem nonce_reuse_refused:
  assumes "broker_trace (broker_new g h m s d) (pre @ Evaluated v now (Ok a) # mid) b"
    and "\<forall>e \<in> set mid. event_time e \<le> expires_at_unix_ms v + 60000"
    and "request_id w = request_id v" and "now' \<le> expires_at_unix_ms v + 60000"
  shows "\<not> is_ok (fst (evaluate_and_enforce b w now'))"
proof -
  have "map_of (replay_cache b) (request_id w) = Some (expires_at_unix_ms v + 60000)" "cache_inv b"
    using nonce_kept_after [OF assms(1) broker_new_inv assms(2)] assms(3) by simp_all
  with assms(4) show ?thesis using known_not_authorized evaluate_Ok_iff by blast
qed

theorem nonce_reuse_refused_witness:
  "\<not> is_ok (fst (evaluate_and_enforce
      (sample_broker\<lparr>replay_cache := [(replicate 16 0x42, 65000)]\<rparr>) (sample_verdict Alert 0) 3000))"
  by (rule nonce_reuse_refused [OF sample_trace]) (simp_all add: sample_verdict_def)



text \<open>C17: whatever the history of a broker, everything it enforced was allowed by the policy it
  was created with: the model was healthy and the trusted one, the policy generation was the
  active one, and a process was terminated only with hard kills enabled, a named process
  and at least the configured number of corroborating evidences.\<close>

theorem enforcement_history_within_policy:
  assumes "broker_trace (broker_new g h m s d) es b" and "Evaluated v now (Ok a) \<in> set es"
  shows "\<not> d \<and> model_bundle_sha256 v = s \<and> policy_generation v = g
     \<and> now \<le> expires_at_unix_ms v
     \<and> (\<forall>pid ev. a = ProcessTerminated pid ev \<longrightarrow> h \<and> pid \<noteq> 0 \<and> pid = target_process_id v
          \<and> m \<le> corroborating_evidence_count v)
     \<and> (\<forall>pid ev. a = ProcessSuspended pid ev \<longrightarrow> pid \<noteq> 0 \<and> pid = target_process_id v)"
proof -
  obtain pre mid where "es = pre @ Evaluated v now (Ok a) # mid"
    using assms(2) by (meson split_list)
  with assms(1) obtain b1 b2 where b: "cache_inv b1" "policy_of b1 = policy_of (broker_new g h m s d)"
      "evaluate_and_enforce b1 v now = (Ok a, b2)"
    using broker_new_inv by (blast elim: trace_to_event)
  then have "authorized b1 v now" "a = enforced_action v"
    using evaluate_Ok_iff [of b1 v now] evaluate_outcome [of b1 v now a b2] by simp_all
  with b(2) show ?thesis
    by (auto simp: authorized_def policy_of_def broker_new_def enforced_action_def
        split: EnforcementAction.splits)
qed

theorem enforcement_history_within_policy_witness:
  "model_bundle_sha256 (sample_verdict HardKill 4242) = replicate 32 0x78
   \<and> 4242 = target_process_id (sample_verdict HardKill 4242)
   \<and> 2 \<le> corroborating_evidence_count (sample_verdict HardKill 4242)"
  using enforcement_history_within_policy [OF sample_trace, of "sample_verdict HardKill 4242" 2000
      "ProcessTerminated 4242 (replicate 32 0xBB)"] by simp

text \<open>The retention deadline is a wrapping addition: a verdict that expires less than 60 s
  before the end of the \<open>u64\<close> range is enforced twice by the same broker at the same time,
  the second time with its nonce still inside the intended retention.\<close>

theorem retention_overflow_replays:
  "let (r1, b1) = evaluate_and_enforce sample_broker edge_verdict 5000;
       (r2, b2) = evaluate_and_enforce b1 edge_verdict 5000
   in r1 = Ok (ProcessTerminated 4242 (replicate 32 0xBB)) \<and> r2 = r1"
  by (simp add: broker_eval)

end
