(* ===== verification/Kavach_Pipe.thy ===== *)
theory Kavach_Pipe
  imports Kavach_Broker
begin

section \<open>The named-pipe boundary\<close>

text \<open>
  Models \<open>crates/kavach-sensors/src/pipe_broker.rs\<close>. Brokers are shared between
  dispatchers and servers through \<open>Arc<Mutex<EnforcementBroker>>\<close>: a \<open>broker_store\<close> maps
  the addresses of the shared brokers to their state and every operation returns the store
  after the call. The operating system's pipe is a parameter: whether it opens, whether it
  takes the bytes written and which byte it answers.
\<close>

type_synonym broker_store = "nat \<Rightarrow> EnforcementBroker"

definition KAVACH_BROKER_PIPE_NAME :: string where
  "KAVACH_BROKER_PIPE_NAME = [CHR 0x5C, CHR 0x5C, CHR ''.'', CHR 0x5C] @ ''pipe'' @ [CHR 0x5C]
     @ ''kavach-broker''"

record PipeVerdictDispatcher =
  pipe_name :: string
  broker_fallback :: "nat option"

definition dispatcher_new :: "string \<Rightarrow> PipeVerdictDispatcher" where
  "dispatcher_new name = \<lparr>pipe_name = name, broker_fallback = None\<rparr>"

definition with_in_memory_broker :: "nat \<Rightarrow> PipeVerdictDispatcher" where
  "with_in_memory_broker r = \<lparr>pipe_name = KAVACH_BROKER_PIPE_NAME, broker_fallback = Some r\<rparr>"

record pipe_os =
  pipe_opens :: "string \<Rightarrow> bool"
  pipe_writes :: "string \<Rightarrow> bytes \<Rightarrow> bool"
  pipe_answers :: "string \<Rightarrow> bytes \<Rightarrow> u8 option"

definition response_result :: "u8 \<Rightarrow> DispatchError + unit" where
  "response_result r =
    (if r = 0 then Ok ()
     else if r = 1 then Err VersionMismatch
     else if r = 2 then Err ReplayDetected
     else if r = 3 then Err MalformedMessage
     else if r = 4 then Err AuthenticationFailed
     else if r = 5 then Err Expired
     else if r = 6 then Err ActionDenied
     else Err BrokerUnreachable)"

definition discard :: "'e + 'a \<Rightarrow> 'e + unit" where
  \<comment> \<open>\<open>.map(|_| ())\<close>\<close>
  "discard r = (case r of Err e \<Rightarrow> Err e | Ok _ \<Rightarrow> Ok ())"

definition pipe_dispatch ::
    "pipe_os \<Rightarrow> PipeVerdictDispatcher \<Rightarrow> broker_store \<Rightarrow> Verdict \<Rightarrow> u64
      \<Rightarrow> (DispatchError + unit) \<times> broker_store" where
  "pipe_dispatch os d st v now = (case broker_fallback d of
     Some r \<Rightarrow>
       let (res, b) = evaluate_and_enforce (st r) v now in (discard res, st(r := b))
   | None \<Rightarrow>
       let wire_bytes = to_wire v in
       if \<not> pipe_opens os (pipe_name d) then (Err BrokerUnreachable, st)
       else if \<not> pipe_writes os (pipe_name d) wire_bytes then (Err BrokerUnreachable, st)
       else (case pipe_answers os (pipe_name d) wire_bytes of
           None \<Rightarrow> (Err BrokerUnreachable, st)
         | Some response \<Rightarrow> (response_result response, st)))"

record PipeBrokerServer =
  server_broker :: nat
  server_pipe_name :: string
  is_running :: bool

definition server_new :: "nat \<Rightarrow> string \<Rightarrow> PipeBrokerServer" where
  "server_new r name = \<lparr>server_broker = r, server_pipe_name = name, is_running = False\<rparr>"

definition handle_frame ::
    "PipeBrokerServer \<Rightarrow> broker_store \<Rightarrow> bytes \<Rightarrow> u64 \<Rightarrow> (DispatchError + unit) \<times> broker_store" where
  "handle_frame s st frame now = (case map_err dispatch_error_of_wire (from_slice frame) of
     Err e \<Rightarrow> (Err e, st)
   | Ok v \<Rightarrow>
       let (res, b) = evaluate_and_enforce (st (server_broker s)) v now in
       (discard res, st(server_broker s := b)))"

lemma is_ok_discard [simp]: "is_ok (discard r) = is_ok r"
  by (cases r) (simp_all add: discard_def)

lemma is_ok_unit: "r = Ok () \<longleftrightarrow> is_ok r"
  by (cases r) simp_all

lemma map_err_cases: "(case map_err f r of Err e \<Rightarrow> g e | Ok a \<Rightarrow> h a)
    = (case r of Err e \<Rightarrow> g (f e) | Ok a \<Rightarrow> h a)"
  by (cases r) simp_all

lemma handle_frame_Ok:
  "fst (handle_frame s st frame now) = Ok () \<longleftrightarrow>
     (\<exists>v. from_slice frame = Ok v \<and> is_ok (fst (evaluate_and_enforce (st (server_broker s)) v now)))"
  by (cases "from_slice frame") (auto simp: handle_frame_def is_ok_unit Let_def case_prod_beta)

lemma handle_frame_store:
  "snd (handle_frame s st frame now) = (case from_slice frame of
     Err e \<Rightarrow> st
   | Ok v \<Rightarrow> st(server_broker s := snd (evaluate_and_enforce (st (server_broker s)) v now)))"
  by (simp add: handle_frame_def map_err_cases case_prod_beta split: sum.split)

subsection \<open>The dispatcher interface\<close>

text \<open>
  \<open>VerdictDispatcher\<close>, the interface detectors submit to, with what ADR 003 and 004 promise of
  it: whatever it accepts is of the supported protocol, carries no reserved flags and comes
  from the trusted model of a broker that is not degraded.
\<close>

locale verdict_dispatcher =
  fixes dispatch :: "'s \<Rightarrow> Verdict \<Rightarrow> DispatchError + unit"
    and broker_of :: "'s \<Rightarrow> EnforcementBroker"
  assumes dispatch_checked: "dispatch s v = Ok () \<Longrightarrow>
      major (protocol_version v) = 1 \<and> flags v = 0 \<and> \<not> is_model_degraded (broker_of s)
      \<and> model_bundle_sha256 v = trusted_model_sha256 (broker_of s)"
begin

lemma degraded_refuses: "is_model_degraded (broker_of s) \<Longrightarrow> \<exists>e. dispatch s v = Err e"
  using dispatch_checked [of s v] by (cases "dispatch s v") auto

lemma untrusted_refused:
  "model_bundle_sha256 v \<noteq> trusted_model_sha256 (broker_of s) \<Longrightarrow> \<exists>e. dispatch s v = Err e"
  using dispatch_checked [of s v] by (cases "dispatch s v") auto

lemma broker_dispatch_follows: "dispatch s v = Ok () \<Longrightarrow> broker_dispatch (broker_of s) v = Ok ()"
  using dispatch_checked [of s v] by (simp add: broker_dispatch_def)

end

interpretation dry_run: verdict_dispatcher broker_dispatch "\<lambda>b. b"
  by unfold_locales (simp add: broker_dispatch_def split: if_splits)

lemma evaluate_Ok_checked:
  "fst (evaluate_and_enforce b v now) = Ok a \<Longrightarrow>
     major (protocol_version v) = 1 \<and> flags v = 0 \<and> \<not> is_model_degraded b
     \<and> model_bundle_sha256 v = trusted_model_sha256 b"
  by (auto simp: broker_defs split: if_splits option.splits)

lemma discard_Ok: "discard r = Ok () \<longleftrightarrow> (\<exists>a. r = Ok a)"
  by (cases r) (simp_all add: discard_def)

interpretation in_memory: verdict_dispatcher
    "\<lambda>(os, st, r, now) v. fst (pipe_dispatch os (with_in_memory_broker r) st v now)"
    "\<lambda>(os, st, r, now). st r"
  by unfold_locales
    (auto simp: pipe_dispatch_def with_in_memory_broker_def case_prod_beta discard_Ok
      dest: evaluate_Ok_checked)

subsection \<open>Properties of the boundary\<close>

text \<open>C3: end to end over the pipe: the privileged side enforces a frame exactly when the frame
  is the 139-byte encoding of a well-formed, valid verdict that its broker authorizes at that
  time. Nothing else of the sender's input matters.\<close>

theorem handle_frame_enforces_iff:
  assumes "broker_trace (broker_new g h m s d) es (st (server_broker srv))"
  shows "fst (handle_frame srv st frame now) = Ok () \<longleftrightarrow>
     (\<exists>v. wf_verdict v \<and> valid_verdict v \<and> to_wire v = frame
        \<and> authorized (st (server_broker srv)) v now)"
proof -
  have "cache_inv (st (server_broker srv))" using assms broker_new_inv by (rule trace_cache_inv)
  then show ?thesis
    by (auto simp: handle_frame_Ok evaluate_Ok_iff from_slice_Ok)
qed

definition sample_server :: PipeBrokerServer where
  "sample_server = server_new 3 KAVACH_BROKER_PIPE_NAME"

theorem handle_frame_enforces_iff_witness:
  "fst (handle_frame sample_server (\<lambda>_. sample_broker)
       (to_wire (sample_verdict SuspendAndAlert 4242)) 2000) = Ok ()"
proof -
  let ?v = "sample_verdict SuspendAndAlert 4242"
  have "wf_verdict ?v" "valid_verdict ?v" "authorized sample_broker ?v 2000"
    by (simp_all add: wf_verdict_def valid_verdict_def authorized_def sample_verdict_def
        sample_broker_def broker_new_def kavach_const)
  then show ?thesis
    using handle_frame_enforces_iff [of 7 True 2 "replicate 32 0x78" False "[]" "\<lambda>_. sample_broker"
        sample_server "to_wire ?v" 2000] trace_nil [of sample_broker]
    unfolding sample_broker_def by blast
qed

text \<open>A frame that is refused at the decoder changes no broker, and one that reaches the
  broker changes only the broker behind this server: no other shared broker, and nothing of
  that broker's policy or rules.\<close>

theorem handle_frame_frame_rule:
  "snd (handle_frame srv st frame now) r =
     (if r = server_broker srv \<and> is_ok (from_slice frame)
      then (st r)\<lparr>replay_cache := replay_cache (snd (handle_frame srv st frame now) r)\<rparr>
      else st r)"
proof (cases "from_slice frame")
  case (Inl e)
  then show ?thesis by (simp add: handle_frame_store)
next
  case (Inr v)
  then show ?thesis
    by (auto simp: handle_frame_store broker_defs split: option.split)
qed



end
