(* ===== verification/Kavach_Sentinel.thy ===== *)
theory Kavach_Sentinel
  imports Kavach_Sensors Kavach_Npu Kavach_Pipe
begin

section \<open>The sentinel daemon\<close>

text \<open>
  Models the integration runtime of \<open>src/main.rs\<close>: the status report and the live daemon. Everything outside the repository is collected in one
  environment record. The loop of the live daemon takes fuel: \<open>None\<close> means that it has not
  returned within that many iterations. What the daemon prints is a list of notices.
\<close>

record ('k, 's, 't) sentinel_env =
  env_os :: npu_os
  env_hardware :: bool \<comment> \<open>the feature \<open>npu-hardware\<close>\<close>
  env_ort :: "('s, 't) ort"
  env_crypto :: "'k crypto"
  env_json :: json
  env_files :: files
  env_log10 :: "fl \<Rightarrow> fl"
  env_pipe :: pipe_os
  env_wall_clock :: "u64 \<Rightarrow> u64" \<comment> \<open>\<open>SystemTime::now\<close> in milliseconds during a tick\<close>

definition env_feature :: "('k, 's, 't) sentinel_env \<Rightarrow> ('s, 't) ort option" where
  "env_feature env = (if env_hardware env then Some (env_ort env) else None)"

definition open_session ::
    "('k, 's, 't) sentinel_env \<Rightarrow> KavachConfig \<Rightarrow> ort_state \<Rightarrow> 's NpuSession \<times> ort_state" where
  \<comment> \<open>\<open>NpuSession::from_config(config, &PINNED_REFERENCE_PUBLIC_KEY)\<close>\<close>
  "open_session env config st = from_config (env_os env) (env_feature env) st (env_crypto env) (env_json env)
     (env_files env) config PINNED_REFERENCE_PUBLIC_KEY"

record SystemStatusReport =
  npu_status_block :: string
  subsystems :: "string list"

definition show_status :: "SystemStatusReport \<Rightarrow> string" where
  "show_status r = npu_status_block r @ concat (map (\<lambda>sub. sub @ NL) (subsystems r))"

definition collect_status ::
    "('k, 's, 't) sentinel_env \<Rightarrow> KavachConfig \<Rightarrow> ort_state \<Rightarrow> SystemStatusReport \<times> ort_state" where
  "collect_status env config st =
    (let (npu, st') = open_session env config st in
     (\<lparr>npu_status_block = format_status_report npu,
       subsystems = [
         ''tripwire.engine: ACTIVE (50ms sliding window, suspension_threshold=3, ransomware_entropy_threshold=7.95)'',
         ''beacon.tcn_engine: ACTIVE (32-packet ring, jitter_cv_max=0.35, min_interval=100ms)'',
         ''events.subscriber: ACTIVE (16-event rolling sequence, critical_id_tracking=true)'',
         ''firewall.broker: ACTIVE (wfp_dynamic_quarantine=enabled, replay_cache_ttl=60s)'',
         ''wsl.bridge: READY (af_vsock=listener_ready, clock_skew_tolerance=''
           @ show_word (clock_sync_interval_seconds (wsl config) * 1000) @ ''ms)'']\<rparr>, st'))"

datatype notice = IoAlert fl | Dispatched Verdict | NetAlert fl | AuditAlert fl

record 's Sentinel =
  kernel_consumer :: KernelFileConsumer
  tcpip_consumer :: TcpipConsumer
  event_consumer :: EventLogConsumer
  wfp_driver :: WfpDriver
  brokers :: broker_store
  broker_server :: PipeBrokerServer
  verdict_dispatcher :: PipeVerdictDispatcher
  npu_session :: "'s NpuSession"

definition live_broker :: "KavachConfig \<Rightarrow> EnforcementBroker" where
  "live_broker config = broker_new (required_policy_generation (allowlist config))
     (cfg_hard_kill_enabled (containment config))
     (cfg_minimum_corroborating_evidence (containment config)) (replicate 32 0x77) False"

definition live_sentinel ::
    "('k, 's, 't) sentinel_env \<Rightarrow> KavachConfig \<Rightarrow> ort_state \<Rightarrow> 's Sentinel \<times> ort_state" where
  \<comment> \<open>everything before the loop; the broker is at address 0 of the store\<close>
  "live_sentinel env config st =
    (let (_, st1) = collect_status env config st;
         (npu, st2) = open_session env config st1
     in (\<lparr>kernel_consumer = kernel_consumer_new entropy_engine_new,
          tcpip_consumer = tcpip_consumer_new tcn_new,
          event_consumer = event_consumer_new subscriber_new,
          wfp_driver = snd (open_engine driver_new),
          brokers = (\<lambda>_. live_broker config),
          broker_server = server_new 0 KAVACH_BROKER_PIPE_NAME,
          verdict_dispatcher = dispatcher_new KAVACH_BROKER_PIPE_NAME,
          npu_session = npu\<rparr>, st2))"

definition ALERT_SCORE :: fl where
  "ALERT_SCORE = fround b32 (85 / 100)"

definition live_verdict :: "KavachConfig \<Rightarrow> u64 \<Rightarrow> u64 \<Rightarrow> Verdict" where
  \<comment> \<open>the verdict of a tick at time \<open>now_ms\<close>\<close>
  "live_verdict config tick now_ms = \<lparr>
     protocol_version = \<lparr>major = 1, minor = 0\<rparr>,
     request_id = ucast (tick AND 0xFF) # replicate 15 0,
     issued_at_unix_ms = now_ms,
     expires_at_unix_ms = now_ms + 10000,
     detector_instance_id = replicate 16 0xDE,
     requested_action = SuspendAndAlert,
     evidence_digest = replicate 32 0xEE,
     model_bundle_sha256 = replicate 32 0x77,
     policy_generation = required_policy_generation (allowlist config),
     target_process_id = 1337,
     target_process_start_filetime = 133500000000000000,
     corroborating_evidence_count = 3,
     flags = 0\<rparr>"

definition io_stage ::
    "('k, 's, 't) sentinel_env \<Rightarrow> KavachConfig \<Rightarrow> u64 \<Rightarrow> u64 \<Rightarrow> 's Sentinel \<Rightarrow> notice list \<times> 's Sentinel" where
  "io_stage env config tick now_ms s =
    (let matrix = tripwire_tensor_matrix (sha256_digest (env_crypto env)) (tracker (kf_engine (kernel_consumer s)));
         (res, npu) = evaluate_io_head (env_ort env) (npu_session s) (io_from_f32_matrix matrix quantization_default);
         s = s\<lparr>npu_session := npu\<rparr>
     in case res of
          Err _ \<Rightarrow> ([], s)
        | Ok score \<Rightarrow>
            if fle ALERT_SCORE score then
              (let v = live_verdict config tick now_ms;
                   (_, store) = pipe_dispatch (env_pipe env) (verdict_dispatcher s) (brokers s) v
                     (env_wall_clock env tick)
               in ([IoAlert score, Dispatched v], s\<lparr>brokers := store\<rparr>))
            else ([], s))"

definition net_stage ::
    "('k, 's, 't) sentinel_env \<Rightarrow> 's Sentinel \<Rightarrow> notice list \<times> 's Sentinel" where
  "net_stage env s =
    (let matrix = tcn_tensor_matrix (env_log10 env) (tp_engine (tcpip_consumer s));
         (res, npu) = evaluate_net_head (env_ort env) (npu_session s) (net_from_f32_matrix matrix quantization_default)
     in ((case res of Ok score \<Rightarrow> if fle ALERT_SCORE score then [NetAlert score] else [] | Err _ \<Rightarrow> []),
         s\<lparr>npu_session := npu\<rparr>))"

definition audit_stage ::
    "('k, 's, 't) sentinel_env \<Rightarrow> 's Sentinel \<Rightarrow> notice list \<times> 's Sentinel" where
  "audit_stage env s =
    (let matrix = subscriber_tensor_matrix (sha256_digest (env_crypto env)) (el_subscriber (event_consumer s));
         (res, npu) = evaluate_audit_head (env_ort env) (npu_session s) (audit_from_f32_matrix matrix quantization_default)
     in ((case res of Ok score \<Rightarrow> if fle ALERT_SCORE score then [AuditAlert score] else [] | Err _ \<Rightarrow> []),
         s\<lparr>npu_session := npu\<rparr>))"

definition sentinel_tick ::
    "('k, 's, 't) sentinel_env \<Rightarrow> KavachConfig \<Rightarrow> u64 \<Rightarrow> u64 \<Rightarrow> 's Sentinel \<Rightarrow> notice list \<times> 's Sentinel" where
  "sentinel_tick env config start_ts tick s =
    (let (n1, s) = io_stage env config tick (start_ts + tick * 100) s;
         (n2, s) = net_stage env s;
         (n3, s) = audit_stage env s
     in (n1 @ n2 @ n3, s))"

fun live_loop ::
    "nat \<Rightarrow> ('k, 's, 't) sentinel_env \<Rightarrow> KavachConfig \<Rightarrow> bool \<Rightarrow> u64 \<Rightarrow> u64 \<Rightarrow> u64 \<Rightarrow> 's Sentinel
      \<Rightarrow> (notice list \<times> 's Sentinel) option" where
  "live_loop 0 env config forever max_ticks start_ts tick s = None"
| "live_loop (Suc fuel) env config forever max_ticks start_ts tick s =
    (if \<not> forever \<and> tick + 1 > max_ticks then Some ([], s)
     else (let (out, s') = sentinel_tick env config start_ts (tick + 1) s
           in map_option (\<lambda>(rest, t). (out @ rest, t))
                (live_loop fuel env config forever max_ticks start_ts (tick + 1) s')))"

fun sentinel_ticks ::
    "nat \<Rightarrow> ('k, 's, 't) sentinel_env \<Rightarrow> KavachConfig \<Rightarrow> u64 \<Rightarrow> u64 \<Rightarrow> 's Sentinel \<Rightarrow> notice list \<times> 's Sentinel" where
  \<comment> \<open>the first \<open>n\<close> ticks of any run, bounded or not\<close>
  "sentinel_ticks 0 env config start_ts tick s = ([], s)"
| "sentinel_ticks (Suc n) env config start_ts tick s =
    (let (out, s') = sentinel_tick env config start_ts (tick + 1) s;
         (rest, s'') = sentinel_ticks n env config start_ts (tick + 1) s'
     in (out @ rest, s''))"

definition run_live_sentinel_daemon_ext ::
    "nat \<Rightarrow> ('k, 's, 't) sentinel_env \<Rightarrow> KavachConfig \<Rightarrow> bool \<Rightarrow> nat \<Rightarrow> u64 \<Rightarrow> ort_state
      \<Rightarrow> (notice list \<times> 's Sentinel) option" where
  "run_live_sentinel_daemon_ext fuel env config forever max_ticks start_ts st =
     live_loop fuel env config forever (word_of_nat max_ticks) start_ts 0 (fst (live_sentinel env config st))"

subsection \<open>Ticks of an idle daemon\<close>

lemma ALERT_SCORE_pos: "\<not> fle ALERT_SCORE (Fin 0)"
proof -
  have w: "rpow2 (- 120) \<le> 85 / 100" "85 / 100 \<le> rpow2 120" by (simp_all add: rpow2_def)
  have "0 < rnd b32 (85 / 100)" using b32_error(2) [OF w] by (simp add: abs_if split: if_splits)
  then show ?thesis using b32_error(1) [OF w] by (simp add: ALERT_SCORE_def fle_def fval_def)
qed

lemma quantize_zero: "quantize_f32_to_i8 (Fin 0) quantization_default = 0"
proof -
  obtain s where s: "scale quantization_default = Fin s" "rpow2 (- 100) \<le> s" using default_scale by blast
  then have "0 < s" using rpow2_pos [of "- 100"] by linarith
  then show ?thesis
    using s(1) by (simp add: quantize_f32_to_i8_def quantization_default_def fdiv_def fround_away_def fadd_def
        fl_of_int_def fround_def fl_trunc_def fclamp_def flt_def fle_def fval_def is_finite_def is_neg_def
        signed_zero_def floor_eq_iff Let_def)
qed

lemma quantize_zero_matrix: "quantize_matrix (replicate n (replicate 4 (Fin 0))) quantization_default = zero_rows n"
  by (simp add: quantize_matrix_def quantize_zero zero_rows_def)

lemma zero_arith:
  "i8_norm 0 = Fin 0" "fadd b32 (Fin 0) (Fin 0) = Fin 0"
  "0 \<le> x \<Longrightarrow> x \<le> 1 \<Longrightarrow> fmul b32 (Fin 0) (fround b32 x) = Fin 0"
  using fround_b32_unit [of x] fround_nonneg [of x b32]
  by (auto simp: i8_norm_def fl_of_int_def fround_def [of b32 0] fdiv_def fadd_def fmul_def is_finite_def
      fval_def is_neg_def signed_zero_def unit_score_def fle_def Let_def split: fl.splits)

lemma zero_sum: "(\<And>row. row \<in> set rows \<Longrightarrow> term row = Fin 0) \<Longrightarrow>
    foldl (\<lambda>score row. fadd b32 score (term row)) (Fin 0) rows = Fin 0"
  by (induction rows) (simp_all add: zero_arith)

lemma zero_scores:
  "baseline_io (zero_rows n) = Fin 0" "baseline_net (zero_rows n) = Fin 0" "baseline_audit (zero_rows n) = Fin 0"
proof -
  have clamp: "fclamp (fdiv b32 (Fin 0) (Fin d)) (Fin 0) (Fin 1) = Fin 0" if "0 < d" for d
    using that by (simp add: fdiv_def is_finite_def fval_def is_neg_def signed_zero_def fclamp_def flt_def fle_def Let_def)
  have row: "i8_norm (row ! 0) = Fin 0" "i8_norm (row ! 3) = Fin 0" if "row \<in> set (zero_rows n)" for row
    using that by (auto simp: zero_rows_def zero_arith split: if_splits)
  show "baseline_io (zero_rows n) = Fin 0"
    unfolding baseline_io_def by (subst zero_sum) (simp_all add: row zero_arith clamp)
  show "baseline_net (zero_rows n) = Fin 0" "baseline_audit (zero_rows n) = Fin 0"
    unfolding baseline_net_def baseline_audit_def by (subst zero_sum; simp add: row clamp)+
qed

definition idle :: "'s Sentinel \<Rightarrow> bool" where
  \<comment> \<open>no telemetry ingested and no ONNX session\<close>
  "idle s \<longleftrightarrow> kf_engine (kernel_consumer s) = entropy_engine_new \<and> tp_engine (tcpip_consumer s) = tcn_new
     \<and> el_subscriber (event_consumer s) = subscriber_new \<and> ort_session (engine (npu_session s)) = None"

lemma evaluate_heads:
  "evaluate_io_head ort sess t = (case npu_state sess of DegradedObserver r _ _ \<Rightarrow> (Err (DegradedError r), sess)
     | Active _ \<Rightarrow> (Ok (fst (run_io_inference ort (engine sess) (io_data t))),
         sess\<lparr>engine := (engine sess)\<lparr>active_inferences := active_inferences (engine sess) + 1\<rparr>\<rparr>))"
  "evaluate_net_head ort sess u = (case npu_state sess of DegradedObserver r _ _ \<Rightarrow> (Err (DegradedError r), sess)
     | Active _ \<Rightarrow> (Ok (fst (run_net_inference ort (engine sess) (net_data u))),
         sess\<lparr>engine := (engine sess)\<lparr>active_inferences := active_inferences (engine sess) + 1\<rparr>\<rparr>))"
  "evaluate_audit_head ort sess v = (case npu_state sess of DegradedObserver r _ _ \<Rightarrow> (Err (DegradedError r), sess)
     | Active _ \<Rightarrow> (Ok (fst (run_audit_inference ort (engine sess) (audit_data v))),
         sess\<lparr>engine := (engine sess)\<lparr>active_inferences := active_inferences (engine sess) + 1\<rparr>\<rparr>))"
  unfolding evaluate_io_head_def evaluate_net_head_def evaluate_audit_head_def run_io_inference_def
    run_net_inference_def run_audit_inference_def by (simp_all only: when_active_run)

lemma baseline_dispatch:
  "ort_session eng = None \<Longrightarrow> fst (run_io_inference ort eng rows) = baseline_io rows"
  "ort_session eng = None \<Longrightarrow> fst (run_net_inference ort eng rows) = baseline_net rows"
  "ort_session eng = None \<Longrightarrow> fst (run_audit_inference ort eng rows) = baseline_audit rows"
  by (simp_all add: run_io_inference_def run_net_inference_def run_audit_inference_def dispatch_or_def)

lemmas idle_simps = evaluate_heads baseline_dispatch empty_tensors quantize_zero_matrix zero_scores ALERT_SCORE_pos
  io_from_f32_matrix_def net_from_f32_matrix_def audit_from_f32_matrix_def

lemma idle_stages:
  assumes "idle s"
  shows "fst (io_stage env config tick now s) = []" "idle (snd (io_stage env config tick now s))"
    "fst (net_stage env s) = []" "idle (snd (net_stage env s))"
    "fst (audit_stage env s) = []" "idle (snd (audit_stage env s))"
  using assms
  by (cases "npu_state (npu_session s)"; simp add: idle_def io_stage_def net_stage_def audit_stage_def idle_simps Let_def)+

lemma tick_parts:
  "fst (sentinel_tick env config start_ts tick s) =
     (let s1 = snd (io_stage env config tick (start_ts + tick * 100) s); s2 = snd (net_stage env s1)
      in fst (io_stage env config tick (start_ts + tick * 100) s) @ fst (net_stage env s1) @ fst (audit_stage env s2))"
  "snd (sentinel_tick env config start_ts tick s) =
     snd (audit_stage env (snd (net_stage env (snd (io_stage env config tick (start_ts + tick * 100) s)))))"
  by (simp_all add: sentinel_tick_def Let_def case_prod_beta)

lemma idle_tick:
  "idle s \<Longrightarrow> fst (sentinel_tick env config start_ts tick s) = [] \<and> idle (snd (sentinel_tick env config start_ts tick s))"
  by (simp add: tick_parts idle_stages Let_def)

text \<open>A property of the state that every tick keeps, and under which a tick is silent, makes every run
  silent.\<close>

lemma silent_ticks:
  assumes "\<And>s tick. P s \<Longrightarrow> fst (sentinel_tick env config start_ts tick s) = [] \<and> P (snd (sentinel_tick env config start_ts tick s))"
    and "P s"
  shows "fst (sentinel_ticks n env config start_ts tick s) = []"
  using assms(2)
proof (induction n arbitrary: tick s)
  case (Suc n)
  then show ?case using assms(1) [OF Suc.prems, of "tick + 1"] by (simp add: case_prod_beta)
qed simp

lemma degraded_tick:
  "is_degraded (npu_session s) \<Longrightarrow> sentinel_tick env config start_ts tick s = ([], s)"
  by (cases "npu_state (npu_session s)")
    (simp_all add: is_degraded_def sentinel_tick_def io_stage_def net_stage_def audit_stage_def evaluate_heads Let_def)

lemma live_sentinel_idle: "\<not> env_hardware env \<Longrightarrow> idle (fst (live_sentinel env config st))"
  by (simp add: idle_def live_sentinel_def kernel_consumer_new_def tcpip_consumer_new_def event_consumer_new_def
      open_session_def from_config_parts engine_new_def engine_with_onnx_bytes_def env_feature_def
      case_prod_beta Let_def)

lemma live_loop_ticks:
  "unat tick + n = unat max_ticks \<Longrightarrow> unat max_ticks + 1 < 2 ^ 64 \<Longrightarrow>
     live_loop (Suc n) env config False max_ticks start_ts tick s = Some (sentinel_ticks n env config start_ts tick s)"
proof (induction n arbitrary: tick s)
  case 0
  then have "unat (tick + 1) = unat tick + 1" using unat_add_no_wrap [of tick 1] by simp
  with 0 show ?case by (simp add: word_less_nat_alt)
next
  case (Suc n)
  then have t: "unat (tick + 1) = unat tick + 1" using unat_add_no_wrap [of tick 1] by simp
  with Suc.prems have "\<not> max_ticks < tick + 1" by (simp add: word_less_nat_alt)
  then have "live_loop (Suc (Suc n)) env config False max_ticks start_ts tick s =
      map_option (\<lambda>(rest, y). (fst (sentinel_tick env config start_ts (tick + 1) s) @ rest, y))
        (live_loop (Suc n) env config False max_ticks start_ts (tick + 1) (snd (sentinel_tick env config start_ts (tick + 1) s)))"
    by (subst live_loop.simps) (simp add: case_prod_beta)
  then show ?case using Suc.IH [of "tick + 1"] Suc.prems t by (simp add: case_prod_beta del: live_loop.simps)
qed

lemma forever_never_returns: "live_loop fuel env config True max_ticks start_ts tick s = None"
  by (induction fuel arbitrary: tick s) (simp_all add: case_prod_beta)

subsection \<open>Properties\<close>

definition sample_env :: "(unit, unit, unit) sentinel_env" where
  "sample_env = \<lparr>env_os = \<lparr>is_windows = True, os_join = (\<lambda>a b. a @ ''/'' @ b), is_file = (\<lambda>_. False),
       canonicalize = (\<lambda>_. None), env_var = (\<lambda>_. None), powershell = (\<lambda>_. None)\<rparr>,
     env_hardware = False, env_ort = sample_ort, env_crypto = sample_crypto, env_json = sample_json,
     env_files = \<lparr>path_join = (\<lambda>a b. a @ ''/'' @ b), read_bytes = (\<lambda>_. Err ''missing''),
       read_text = (\<lambda>_. Err ''missing'')\<rparr>,
     env_log10 = (\<lambda>_. Fin 0), env_pipe = \<lparr>pipe_opens = (\<lambda>_. False), pipe_writes = (\<lambda>_ _. False),
       pipe_answers = (\<lambda>_ _. None)\<rparr>, env_wall_clock = (\<lambda>_. 0)\<rparr>"

text \<open>C27: a bounded run of the live daemon ends after exactly the ticks it was given: one iteration more
  than the ticks is enough for every number of ticks below \<open>2 ^ 64 - 1\<close>. A continuous run never
  returns.\<close>

theorem live_daemon_terminates:
  assumes "max_ticks + 1 < 2 ^ 64"
  shows "run_live_sentinel_daemon_ext (max_ticks + 1) env config False max_ticks start_ts st
      = Some (sentinel_ticks max_ticks env config start_ts 0 (fst (live_sentinel env config st)))
    \<and> run_live_sentinel_daemon_ext fuel env config True max_ticks start_ts st = None"
proof -
  have "unat (word_of_nat max_ticks :: u64) = max_ticks" using assms by (simp add: unat_of_nat)
  then have "live_loop (Suc max_ticks) env config False (word_of_nat max_ticks) start_ts 0 s
      = Some (sentinel_ticks max_ticks env config start_ts 0 s)" for s
    using assms by (intro live_loop_ticks) simp_all
  then show ?thesis by (simp add: run_live_sentinel_daemon_ext_def forever_never_returns del: live_loop.simps)
qed

theorem live_daemon_terminates_witness:
  "run_live_sentinel_daemon_ext (3 + 1) sample_env safe_defaults False 3 0 \<lparr>INITIALIZED = False\<rparr>
     = Some (sentinel_ticks 3 sample_env safe_defaults 0 0 (fst (live_sentinel sample_env safe_defaults \<lparr>INITIALIZED = False\<rparr>)))
   \<and> run_live_sentinel_daemon_ext 100 sample_env safe_defaults True 3 0 \<lparr>INITIALIZED = False\<rparr> = None"
  by (rule live_daemon_terminates) simp

text \<open>The live daemon of the default build is blind: its consumers are created but nothing feeds
  them, so whatever the host does, however long it runs and whatever model it verified, it
  raises no alert and dispatches no verdict.\<close>

theorem live_daemon_blind:
  assumes "\<not> env_hardware env"
  shows "fst (sentinel_ticks n env config start_ts 0 (fst (live_sentinel env config st))) = []"
  by (rule silent_ticks [where P = idle]) (simp_all add: idle_tick live_sentinel_idle assms)

theorem live_daemon_blind_witness:
  "fst (sentinel_ticks 864000 sample_env safe_defaults 0 0
     (fst (live_sentinel sample_env safe_defaults \<lparr>INITIALIZED = False\<rparr>))) = []"
  by (rule live_daemon_blind) (simp add: sample_env_def)

end
