(* ===== verification/Kavach_Service.thy ===== *)
theory Kavach_Service
  imports Kavach_Sentinel "HOL-Library.Sublist"
begin

section \<open>The Windows service\<close>

text \<open>
  Models \<open>src/service.rs\<close>: the service thread with its control handler as a step relation over the
  interleavings of the service, the control manager and the worker, and the management commands
  that run \<open>sc.exe\<close>. The outcome of a command is a parameter; the commands issued are recorded.
\<close>

subsection \<open>The service thread\<close>

datatype scm_state = START_PENDING | RUNNING | STOP_PENDING | STOPPED

datatype control = CONTROL_STOP | CONTROL_SHUTDOWN | CONTROL_INTERROGATE | CONTROL_OTHER u32

datatype control_result = NO_ERROR | ERROR_CALL_NOT_IMPLEMENTED

datatype accepted_control = ACCEPT_STOP | ACCEPT_SHUTDOWN

datatype service_type = WIN32_OWN_PROCESS

record SERVICE_STATUS =
  dwServiceType :: service_type
  dwCurrentState :: scm_state
  dwControlsAccepted :: "accepted_control list"
  dwWin32ExitCode :: control_result
  dwServiceSpecificExitCode :: u32
  dwCheckPoint :: u32
  dwWaitHint :: u32

datatype service_phase = Registered | HandleStored | StartReported | Polling | Waiting | Finished

record service =
  service_phase :: service_phase \<comment> \<open>how far \<open>service_main\<close> is\<close>
  STATUS_HANDLE :: bool \<comment> \<open>whether the shared handle is set\<close>
  SERVICE_RUNNING :: bool
  scm_reports :: "SERVICE_STATUS list" \<comment> \<open>what the control manager was told, in order\<close>
  worker_iterations :: nat \<comment> \<open>iterations the worker thread has had time for\<close>

definition update_service_status ::
    "bool \<Rightarrow> scm_state \<Rightarrow> accepted_control list \<Rightarrow> control_result \<Rightarrow> u32 \<Rightarrow> service \<Rightarrow> service" where
  \<comment> \<open>a null handle reports nothing; no caller looks at the result of the call\<close>
  "update_service_status handle current_state controls_accepted win32_exit_code wait_hint_ms sv =
    (if \<not> handle then sv
     else sv\<lparr>scm_reports := scm_reports sv @ [\<lparr>dwServiceType = WIN32_OWN_PROCESS, dwCurrentState = current_state,
       dwControlsAccepted = controls_accepted, dwWin32ExitCode = win32_exit_code, dwServiceSpecificExitCode = 0,
       dwCheckPoint = 0, dwWaitHint = wait_hint_ms\<rparr>]\<rparr>)"

definition service_control_handler :: "control \<Rightarrow> service \<Rightarrow> control_result \<times> service" where
  "service_control_handler c sv = (case c of
     CONTROL_STOP \<Rightarrow> (NO_ERROR, update_service_status (STATUS_HANDLE sv) STOP_PENDING [] NO_ERROR 10000
       (sv\<lparr>SERVICE_RUNNING := False\<rparr>))
   | CONTROL_SHUTDOWN \<Rightarrow> (NO_ERROR, update_service_status (STATUS_HANDLE sv) STOP_PENDING [] NO_ERROR 10000
       (sv\<lparr>SERVICE_RUNNING := False\<rparr>))
   | CONTROL_INTERROGATE \<Rightarrow> (NO_ERROR, sv)
   | CONTROL_OTHER _ \<Rightarrow> (ERROR_CALL_NOT_IMPLEMENTED, sv))"

definition service_start :: service where
  \<comment> \<open>the statics as the process starts with them, the control handler just registered\<close>
  "service_start = \<lparr>service_phase = Registered, STATUS_HANDLE = False, SERVICE_RUNNING = True, scm_reports = [],
     worker_iterations = 0\<rparr>"

definition service_main_start :: "bool \<Rightarrow> service option" where
  \<comment> \<open>nothing is reported and nothing runs when the control handler cannot be registered\<close>
  "service_main_start registered = (if registered then Some service_start else None)"

definition run_service_dispatcher :: "string + unit \<Rightarrow> string + unit" where
  \<comment> \<open>\<open>StartServiceCtrlDispatcherW\<close>, or the error text of the system\<close>
  "run_service_dispatcher started = map_err (\<lambda>e. ''StartServiceCtrlDispatcherW failed: '' @ e) started"

definition worker_returned :: "('k, 's, 't) sentinel_env \<Rightarrow> u64 \<Rightarrow> ort_state \<Rightarrow> service \<Rightarrow> bool" where
  "worker_returned env start_ts st sv \<longleftrightarrow>
     run_live_sentinel_daemon_ext (worker_iterations sv) env safe_defaults True 0 start_ts st \<noteq> None"

definition to_phase :: "service_phase \<Rightarrow> service \<Rightarrow> service" where
  "to_phase ph sv = sv\<lparr>service_phase := ph\<rparr>"

text \<open>
  The service thread, the control manager and the worker thread interleave: a control can arrive as soon as
  the handler is registered, before the handle is stored for it too. \<open>recv_timeout\<close> returns after five
  seconds in any case; \<open>join\<close> waits for the worker without a limit.
\<close>

inductive service_step :: "('k, 's, 't) sentinel_env \<Rightarrow> u64 \<Rightarrow> ort_state \<Rightarrow> service \<Rightarrow> service \<Rightarrow> bool"
  for env :: "('k, 's, 't) sentinel_env" and start_ts :: u64 and st :: ort_state where
  control: "service_step env start_ts st sv (snd (service_control_handler c sv))"
| store_handle: "service_phase sv = Registered \<Longrightarrow>
    service_step env start_ts st sv (to_phase HandleStored (sv\<lparr>STATUS_HANDLE := True\<rparr>))"
| report_start: "service_phase sv = HandleStored \<Longrightarrow>
    service_step env start_ts st sv (to_phase StartReported (update_service_status True START_PENDING [] NO_ERROR 5000 sv))"
| report_running: "service_phase sv = StartReported \<Longrightarrow>
    service_step env start_ts st sv
      (to_phase Polling (update_service_status True RUNNING [ACCEPT_STOP, ACCEPT_SHUTDOWN] NO_ERROR 0 sv))"
| worker: "service_phase sv = Polling \<or> service_phase sv = Waiting \<Longrightarrow>
    service_step env start_ts st sv (sv\<lparr>worker_iterations := worker_iterations sv + 1\<rparr>)"
| stop_seen: "service_phase sv = Polling \<Longrightarrow> \<not> SERVICE_RUNNING sv \<Longrightarrow>
    service_step env start_ts st sv (to_phase Waiting (update_service_status True STOP_PENDING [] NO_ERROR 5000 sv))"
| joined: "service_phase sv = Waiting \<Longrightarrow> worker_returned env start_ts st sv \<Longrightarrow>
    service_step env start_ts st sv (to_phase Finished (update_service_status True STOPPED [] NO_ERROR 0 sv))"

inductive service_reachable :: "('k, 's, 't) sentinel_env \<Rightarrow> u64 \<Rightarrow> ort_state \<Rightarrow> service \<Rightarrow> bool"
  for env :: "('k, 's, 't) sentinel_env" and start_ts :: u64 and st :: ort_state where
  start: "service_reachable env start_ts st service_start"
| step: "service_reachable env start_ts st sv \<Longrightarrow> service_step env start_ts st sv sv' \<Longrightarrow>
    service_reachable env start_ts st sv'"

inductive_cases service_stepE: "service_step env start_ts st sv sv'"

subsection \<open>Management commands\<close>

definition SERVICE_NAME :: string where
  "SERVICE_NAME = ''KavachNpuSentinel''"

definition SERVICE_DISPLAY_NAME :: string where
  "SERVICE_DISPLAY_NAME = ''Kavach-NPU ('' @ [CHR 0xE0, CHR 0xA4, CHR 0x95, CHR 0xE0, CHR 0xA4, CHR 0xB5,
     CHR 0xE0, CHR 0xA4, CHR 0x9A] @ '') Hardware-Enforced EDR Sentinel''"

definition SERVICE_DESCRIPTION :: string where
  "SERVICE_DESCRIPTION = ''Hardware-accelerated Zero-Trust EDR utilizing AMD XDNA NPU for real-time ransomware, C2, and cross-boundary threat containment.''"

record sc_output =
  sc_success :: bool
  sc_stdout :: string \<comment> \<open>as decoded by \<open>from_utf8_lossy\<close>\<close>
  sc_stderr :: string

type_synonym sc_log = "string list list" \<comment> \<open>arguments of the commands run so far\<close>

type_synonym sc_exe = "sc_log \<Rightarrow> string list \<Rightarrow> string + sc_output" \<comment> \<open>may answer by what was run before\<close>

definition run_sc :: "sc_exe \<Rightarrow> string list \<Rightarrow> sc_log \<Rightarrow> (string + sc_output) \<times> sc_log" where
  "run_sc sc args hist = (sc hist args, hist @ [args])"

definition quote :: "string \<Rightarrow> string" where
  "quote x = [CHR 0x27] @ x @ [CHR 0x27]"

definition bin_cmd_of :: "string \<Rightarrow> string" where
  "bin_cmd_of bin = [CHR 0x22] @ bin @ [CHR 0x22] @ '' service run''"

definition create_args :: "string \<Rightarrow> string list" where
  "create_args bin = [''create'', SERVICE_NAME, ''binPath= '' @ bin_cmd_of bin, ''start= auto'',
     ''DisplayName= '' @ SERVICE_DISPLAY_NAME]"

definition description_args :: "string list" where
  "description_args = [''description'', SERVICE_NAME, SERVICE_DESCRIPTION]"

definition failure_args :: "string list" where
  "failure_args = [''failure'', SERVICE_NAME, ''reset= 86400'', ''actions= restart/5000/restart/10000/restart/60000'']"

definition service_binary :: "(string + string option) \<Rightarrow> string option \<Rightarrow> string + string" where
  \<comment> \<open>\<open>current_exe\<close> and \<open>to_str\<close>: \<open>Ok None\<close> is a path that is not valid text\<close>
  "service_binary current_exe binary_path = (case binary_path of
     Some p \<Rightarrow> Ok p
   | None \<Rightarrow> (case map_err (\<lambda>e. ''Failed to get current exe path: '' @ e) current_exe of
       Err e \<Rightarrow> Err e
     | Ok None \<Rightarrow> Err ''Invalid executable path string''
     | Ok (Some p) \<Rightarrow> Ok p))"

definition install_service ::
    "sc_exe \<Rightarrow> (string + string option) \<Rightarrow> string option \<Rightarrow> sc_log \<Rightarrow> (string + string) \<times> sc_log" where
  "install_service sc current_exe binary_path hist = (case service_binary current_exe binary_path of
     Err e \<Rightarrow> (Err e, hist)
   | Ok bin \<Rightarrow>
     (case run_sc sc (create_args bin) hist of
        (Err e, hist) \<Rightarrow> (Err (''Failed to execute sc.exe create: '' @ e), hist)
      | (Ok out, hist) \<Rightarrow>
        if \<not> sc_success out then (Err (''sc create failed: '' @ sc_stdout out @ '' '' @ sc_stderr out), hist)
        else
          let (_, hist) = run_sc sc description_args hist;
              (_, hist) = run_sc sc failure_args hist
          in (Ok (''Service '' @ quote SERVICE_NAME
                @ '' successfully installed (Auto-Start, Recovery enabled).'' @ NL @ ''Binary: '' @ bin_cmd_of bin), hist)))"

definition start_service :: "sc_exe \<Rightarrow> sc_log \<Rightarrow> (string + string) \<times> sc_log" where
  "start_service sc hist = (case run_sc sc [''start'', SERVICE_NAME] hist of
     (Err e, hist) \<Rightarrow> (Err (''Failed to execute sc.exe start: '' @ e), hist)
   | (Ok out, hist) \<Rightarrow>
     if sc_success out
       then (Ok (''Service '' @ quote SERVICE_NAME @ '' start signal dispatched:'' @ NL @ trim (sc_stdout out)), hist)
     else (Err (''sc start failed: '' @ sc_stdout out @ '' '' @ sc_stderr out), hist))"

definition stop_service :: "sc_exe \<Rightarrow> sc_log \<Rightarrow> (string + string) \<times> sc_log" where
  "stop_service sc hist = (case run_sc sc [''stop'', SERVICE_NAME] hist of
     (Err e, hist) \<Rightarrow> (Err (''Failed to execute sc.exe stop: '' @ e), hist)
   | (Ok out, hist) \<Rightarrow>
     if sc_success out
       then (Ok (''Service '' @ quote SERVICE_NAME @ '' stop signal dispatched:'' @ NL @ trim (sc_stdout out)), hist)
     else (Err (''sc stop failed: '' @ sc_stdout out @ '' '' @ sc_stderr out), hist))"

definition uninstall_service :: "sc_exe \<Rightarrow> sc_log \<Rightarrow> (string + string) \<times> sc_log" where
  "uninstall_service sc hist =
    (let (_, hist) = stop_service sc hist in
     case run_sc sc [''delete'', SERVICE_NAME] hist of
       (Err e, hist) \<Rightarrow> (Err (''Failed to execute sc.exe delete: '' @ e), hist)
     | (Ok out, hist) \<Rightarrow>
       if sc_success out then (Ok (''Service '' @ quote SERVICE_NAME @ '' successfully uninstalled.''), hist)
       else (Err (''sc delete failed: '' @ sc_stdout out @ '' '' @ sc_stderr out), hist))"

definition query_status :: "sc_exe \<Rightarrow> sc_log \<Rightarrow> (string + string) \<times> sc_log" where
  "query_status sc hist = (case run_sc sc [''query'', SERVICE_NAME] hist of
     (Err e, hist) \<Rightarrow> (Err (''Failed to execute sc.exe query: '' @ e), hist)
   | (Ok out, hist) \<Rightarrow>
     if sc_success out then (Ok (trim (sc_stdout out)), hist)
     else if contains ''1060'' (sc_stdout out) \<or> contains ''1060'' (sc_stderr out)
       then (Ok (''Service '' @ quote SERVICE_NAME @ '' is NOT installed.'' @ NL
         @ ''To install, run: kavach-npu service install''), hist)
     else (Err (''Service query failed: '' @ sc_stdout out @ '' '' @ sc_stderr out), hist))"

subsection \<open>Reachable states\<close>

lemmas service_ops = service_control_handler_def update_service_status_def to_phase_def

definition report_sound :: "SERVICE_STATUS \<Rightarrow> bool" where
  \<comment> \<open>no error code, no progress count, and controls are accepted in the running state only\<close>
  "report_sound r \<longleftrightarrow> dwWin32ExitCode r = NO_ERROR \<and> dwServiceSpecificExitCode r = 0 \<and> dwCheckPoint r = 0
     \<and> dwControlsAccepted r = (if dwCurrentState r = RUNNING then [ACCEPT_STOP, ACCEPT_SHUTDOWN] else [])
     \<and> (dwWaitHint r = 0 \<longleftrightarrow> dwCurrentState r = RUNNING \<or> dwCurrentState r = STOPPED)"

primrec reported :: "service_phase \<Rightarrow> scm_state list" where
  \<comment> \<open>the states other than \<open>STOP_PENDING\<close> that \<open>service_main\<close> has reported by a phase\<close>
  "reported Registered = []"
| "reported HandleStored = []"
| "reported StartReported = [START_PENDING]"
| "reported Polling = [START_PENDING, RUNNING]"
| "reported Waiting = [START_PENDING, RUNNING]"
| "reported Finished = [START_PENDING, RUNNING, STOPPED]"

definition service_inv :: "service \<Rightarrow> bool" where
  "service_inv sv \<longleftrightarrow> list_all report_sound (scm_reports sv)
     \<and> filter (\<lambda>x. x \<noteq> STOP_PENDING) (map dwCurrentState (scm_reports sv)) = reported (service_phase sv)
     \<and> (STATUS_HANDLE sv \<longleftrightarrow> service_phase sv \<noteq> Registered)
     \<and> (service_phase sv = Waiting \<longrightarrow> \<not> SERVICE_RUNNING sv)
     \<and> service_phase sv \<noteq> Finished"

lemma service_step_inv:
  assumes "service_step env start_ts st sv sv'" "service_inv sv"
  shows "service_inv sv'"
proof -
  have "\<not> worker_returned env start_ts st sv"
    by (simp add: worker_returned_def run_live_sentinel_daemon_ext_def forever_never_returns)
  with assms show ?thesis
    by (auto elim!: service_stepE simp: service_ops service_inv_def report_sound_def split: control.splits)
qed

lemma reachable_inv: "service_reachable env start_ts st sv \<Longrightarrow> service_inv sv"
proof (induction rule: service_reachable.induct)
  case start
  show ?case by (simp add: service_start_def service_inv_def)
next
  case (step sv sv')
  from service_step_inv [OF step.hyps(2) step.IH] show ?case .
qed

lemma stop_is_final:
  "service_step env start_ts st sv sv' \<Longrightarrow> \<not> SERVICE_RUNNING sv \<Longrightarrow> \<not> SERVICE_RUNNING sv'"
  by (auto elim!: service_stepE simp: service_ops split: control.splits if_splits)

lemma reachable_stays_stopped:
  assumes "(service_step env start_ts st)\<^sup>*\<^sup>* sv sv'" "\<not> SERVICE_RUNNING sv"
  shows "\<not> SERVICE_RUNNING sv'"
  using assms by (induction rule: rtranclp_induct) (auto dest: stop_is_final)

subsection \<open>Properties\<close>

text \<open>C29: the service cannot be stopped: in no state the service thread, the control manager and the
  worker can reach together has the service finished or reported that it stopped, because the
  worker it joins runs a loop that never looks at the stop flag.\<close>

theorem service_never_stops:
  assumes "service_reachable env start_ts st sv"
  shows "service_phase sv \<noteq> Finished \<and> STOPPED \<notin> dwCurrentState ` set (scm_reports sv)"
proof -
  have "service_inv sv" using assms by (rule reachable_inv)
  then have "STOPPED \<notin> set (reported (service_phase sv))" "service_phase sv \<noteq> Finished"
    and states: "reported (service_phase sv) = filter (\<lambda>x. x \<noteq> STOP_PENDING) (map dwCurrentState (scm_reports sv))"
    by (cases "service_phase sv"; simp add: service_inv_def)+
  then show ?thesis unfolding states by auto
qed

definition stopping_service :: service where
  "stopping_service = snd (service_control_handler CONTROL_STOP service_start)"

lemma stopping_service_reachable: "service_reachable env start_ts st stopping_service"
  unfolding stopping_service_def by (rule service_reachable.step [OF service_reachable.start service_step.control])

theorem service_never_stops_witness:
  "service_phase stopping_service \<noteq> Finished \<and> STOPPED \<notin> dwCurrentState ` set (scm_reports stopping_service)"
  by (rule service_never_stops [OF stopping_service_reachable [of sample_env 0 "\<lparr>INITIALIZED = False\<rparr>"]])



text \<open>What the management commands run: an installation with a usable path creates the service first,
  sets description and recovery only after the creation succeeded, and succeeds exactly then; an
  uninstallation always stops the service before it deletes it, whatever the stop answered, and
  succeeds exactly when the deletion does.\<close>

theorem service_commands:
  "(case service_binary current_exe binary_path of
      Err e \<Rightarrow> install_service sc current_exe binary_path hist = (Err e, hist)
    | Ok bin \<Rightarrow>
       (let created = (case sc hist (create_args bin) of Ok out \<Rightarrow> sc_success out | Err _ \<Rightarrow> False)
        in is_ok (fst (install_service sc current_exe binary_path hist)) = created
           \<and> snd (install_service sc current_exe binary_path hist) =
               hist @ create_args bin # (if created then [description_args, failure_args] else [])))
   \<and> snd (uninstall_service sc hist) = hist @ [[''stop'', SERVICE_NAME], [''delete'', SERVICE_NAME]]
   \<and> (is_ok (fst (uninstall_service sc hist)) \<longleftrightarrow>
        (case sc (hist @ [[''stop'', SERVICE_NAME]]) [''delete'', SERVICE_NAME] of
           Ok out \<Rightarrow> sc_success out | Err _ \<Rightarrow> False))"
  by (auto simp: install_service_def uninstall_service_def stop_service_def run_sc_def Let_def
      split: sum.split)

end
