(* ===== verification/Kavach_Wsl_Wire.thy ===== *)
theory Kavach_Wsl_Wire
  imports Kavach_Verdict
begin

section \<open>The guest-write record and its AF\_VSOCK framing\<close>

text \<open>
  Models \<open>crates/kavach-wsl/src/lib.rs\<close> and \<open>crates/kavach-wsl/src/wire.rs\<close>: the record a
  guest agent sends for each mounted-path operation, its length-prefixed big-endian frame,
  every decoding error, and the path check. A path is a string of UTF-8 bytes; the
  separator and the dot segments are ASCII, so checking bytes and checking characters agree.
\<close>

datatype GuestFileOperation = Write | Rename | Delete

definition operation_as_u8 :: "GuestFileOperation \<Rightarrow> u8" where
  "operation_as_u8 op = (case op of Write \<Rightarrow> 1 | Rename \<Rightarrow> 2 | Delete \<Rightarrow> 3)"

record GuestWriteRecord =
  version :: ArtifactVersion
  sequence_number :: u64
  guest_monotonic_ns :: u64
  guest_realtime_ns :: u64
  guest_process_id :: u32
  guest_process_start_ticks :: u64
  distribution_id :: bytes
  mount_namespace_id :: u64
  executable_sha256 :: bytes
  cgroup_sha256 :: bytes
  operation :: GuestFileOperation
  normalized_path :: string
  byte_range_start :: u64
  byte_range_length :: u64
  record_flags :: u16

definition SUPPORTED_VSOCK_MAJOR :: u16 where
  [kavach_const]: "SUPPORTED_VSOCK_MAJOR = 1"

definition FIXED_HEADER_SIZE :: nat where
  [kavach_const]: "FIXED_HEADER_SIZE = 149"

definition MIN_PAYLOAD_SIZE :: nat where
  [kavach_const]: "MIN_PAYLOAD_SIZE = 150"

definition MAX_PAYLOAD_SIZE :: nat where
  [kavach_const]: "MAX_PAYLOAD_SIZE = 4245"

definition LENGTH_PREFIX_SIZE :: nat where
  [kavach_const]: "LENGTH_PREFIX_SIZE = 4"

datatype VsockWireError =
    FrameTooSmall nat nat \<comment> \<open>expected at least, actual\<close>
  | PayloadLengthOutOfBounds nat
  | PayloadLengthMismatch nat nat \<comment> \<open>declared, actual\<close>
  | UnsupportedMajorVersion u16
  | ZeroSequenceNumber
  | InvalidOperation u8
  | NonzeroFlags u16
  | PathLengthMismatch nat nat
  | InvalidUtf8Path
  | NonNormalizedPath string

definition show_VsockWireError :: "VsockWireError \<Rightarrow> string" where
  "show_VsockWireError err = (case err of
     FrameTooSmall expected actual \<Rightarrow>
       ''frame too small: expected at least '' @ show_nat expected @ '' bytes, got '' @ show_nat actual
   | PayloadLengthOutOfBounds len \<Rightarrow>
       ''payload length '' @ show_nat len @ '' out of bounds ('' @ show_nat MIN_PAYLOAD_SIZE
         @ ''..='' @ show_nat MAX_PAYLOAD_SIZE @ '')''
   | PayloadLengthMismatch declared actual \<Rightarrow>
       ''declared payload length '' @ show_nat declared @ '' does not match actual length ''
         @ show_nat actual
   | UnsupportedMajorVersion maj \<Rightarrow>
       ''unsupported major version '' @ show_word maj @ ''; expected ''
         @ show_word SUPPORTED_VSOCK_MAJOR
   | ZeroSequenceNumber \<Rightarrow> ''sequence number must be strictly positive (got 0)''
   | InvalidOperation op \<Rightarrow> ''invalid file operation byte: '' @ show_word op
   | NonzeroFlags fl \<Rightarrow> ''nonzero reserved flags: 0x'' @ show_hex_width 4 (unat fl)
   | PathLengthMismatch declared actual \<Rightarrow>
       ''path length mismatch: declared '' @ show_nat declared @ '', available '' @ show_nat actual
   | InvalidUtf8Path \<Rightarrow> ''path is not valid UTF-8''
   | NonNormalizedPath path \<Rightarrow>
       ''path '' @ [CHR 0x27] @ path @ [CHR 0x27]
         @ '' is not a normalized absolute /mnt/<drive>/ path'')"

subsection \<open>Path normalization\<close>

fun check_segments :: "nat \<Rightarrow> nat \<Rightarrow> string list \<Rightarrow> bool" where
  \<comment> \<open>the loop over \<open>segments.iter().enumerate()\<close>; \<open>n\<close> is \<open>segments.len()\<close>\<close>
  "check_segments i n [] = True"
| "check_segments i n (seg # rest) =
     (if i = 0 then check_segments (Suc i) n rest
      else if i = n - 1 \<and> seg = [] then check_segments (Suc i) n rest
      else if seg = [] \<or> seg = ''.'' \<or> seg = ''..'' then False
      else check_segments (Suc i) n rest)"

definition is_normalized_mnt_path :: "string \<Rightarrow> bool" where
  "is_normalized_mnt_path path =
    (if \<not> starts_with path ''/mnt/'' then False
     else if drop (length ''/mnt/'') path = [] then False
     else (let segments = split_on (CHR ''/'') path in check_segments 0 (length segments) segments))"

definition plain_segment :: "string \<Rightarrow> bool" where
  "plain_segment s \<longleftrightarrow> s \<noteq> [] \<and> s \<noteq> ''.'' \<and> s \<noteq> ''..'' \<and> CHR ''/'' \<notin> set s"

lemma check_segments_iff:
  "0 < i \<Longrightarrow> n = i + length xs \<Longrightarrow> xs \<noteq> [] \<Longrightarrow> check_segments i n xs \<longleftrightarrow>
     (\<forall>s \<in> set (butlast xs). s \<noteq> [] \<and> s \<noteq> ''.'' \<and> s \<noteq> ''..'') \<and> last xs \<noteq> ''.'' \<and> last xs \<noteq> ''..''"
proof (induction xs arbitrary: i)
  case Nil
  then show ?case by simp
next
  case (Cons x xs)
  show ?case
  proof (cases xs)
    case Nil
    with Cons.prems show ?thesis by auto
  next
    case (Cons y ys)
    with Cons.IH [of "Suc i"] Cons.prems show ?thesis by auto
  qed
qed

lemma normalized_segments:
  "is_normalized_mnt_path (''/mnt/'' @ r) \<longleftrightarrow> r \<noteq> [] \<and>
     (let ss = split_on (CHR ''/'') r in
       (\<forall>s \<in> set (butlast ss). s \<noteq> [] \<and> s \<noteq> ''.'' \<and> s \<noteq> ''..'') \<and> last ss \<noteq> ''.'' \<and> last ss \<noteq> ''..'')"
proof -
  have "split_on (CHR ''/'') (''/mnt/'' @ r) = [] # ''mnt'' # split_on (CHR ''/'') r"
    by simp
  then show ?thesis
    using check_segments_iff [of 2 _ "split_on (CHR ''/'') r"]
    by (simp add: is_normalized_mnt_path_def starts_with_def Let_def numeral_2_eq_2)
qed

lemma starts_with_iff: "starts_with s p \<longleftrightarrow> (\<exists>r. s = p @ r)"
  by (auto simp: starts_with_def) (metis append_take_drop_id)

lemma normalized_prefix: "is_normalized_mnt_path p \<Longrightarrow> \<exists>r. p = ''/mnt/'' @ r \<and> r \<noteq> []"
  by (auto simp: is_normalized_mnt_path_def starts_with_iff split: if_splits)

lemma join_with_snoc: "xs \<noteq> [] \<Longrightarrow> join_with c (xs @ [y]) = join_with c xs @ c # y"
proof (induction xs)
  case Nil
  then show ?case by simp
next
  case (Cons x xs)
  then show ?case by (cases "xs = []") (simp_all add: join_with_Cons)
qed

lemma split_join:
  "segs \<noteq> [] \<Longrightarrow> \<forall>s \<in> set segs. c \<notin> set s \<Longrightarrow> split_on c (join_with c segs) = segs"
proof (induction segs)
  case Nil
  then show ?case by simp
next
  case (Cons s segs)
  then show ?case
    by (cases "segs = []") (simp_all add: split_on_absent join_with_Cons split_on_append)
qed

lemma normalized_join:
  assumes "segs \<noteq> []" "\<forall>s \<in> set segs. plain_segment s"
  shows "is_normalized_mnt_path (''/mnt/'' @ join_with (CHR ''/'') segs)"
    and "is_normalized_mnt_path (''/mnt/'' @ join_with (CHR ''/'') segs @ ''/'')"
proof -
  have split: "split_on (CHR ''/'') (join_with (CHR ''/'') segs) = segs"
    using assms by (simp add: split_join plain_segment_def)
  have split': "split_on (CHR ''/'') (join_with (CHR ''/'') (segs @ [[]])) = segs @ [[]]"
    using assms by (intro split_join) (auto simp: plain_segment_def)
  have "join_with (CHR ''/'') segs \<noteq> []"
  proof
    assume "join_with (CHR ''/'') segs = []"
    with split have "segs = [[]]" by simp
    with assms(2) show False by (simp add: plain_segment_def)
  qed
  moreover have "plain_segment (last segs)" "\<forall>s \<in> set (butlast segs). plain_segment s"
    using assms by (auto dest: in_set_butlastD)
  ultimately show "is_normalized_mnt_path (''/mnt/'' @ join_with (CHR ''/'') segs)"
    unfolding normalized_segments split by (simp add: plain_segment_def Let_def)
  show "is_normalized_mnt_path (''/mnt/'' @ join_with (CHR ''/'') segs @ ''/'')"
    using assms split' unfolding normalized_segments
    by (simp add: plain_segment_def Let_def join_with_snoc)
qed

lemma normalized_segs:
  assumes "is_normalized_mnt_path p"
  obtains segs where "segs \<noteq> []" "\<forall>s \<in> set segs. plain_segment s"
    "p = ''/mnt/'' @ join_with (CHR ''/'') segs \<or> p = ''/mnt/'' @ join_with (CHR ''/'') segs @ ''/''"
proof -
  obtain r where r: "p = ''/mnt/'' @ r" "r \<noteq> []" using normalized_prefix [OF assms] by blast
  let ?ss = "split_on (CHR ''/'') r"
  have ss: "?ss = butlast ?ss @ [last ?ss]" by simp
  have ok: "\<forall>s \<in> set (butlast ?ss). plain_segment s"
    using assms r split_on_no_sep [of _ "CHR ''/''" r] in_set_butlastD
    unfolding r(1) normalized_segments by (fastforce simp: plain_segment_def Let_def)
  have rj: "r = join_with (CHR ''/'') (butlast ?ss @ [last ?ss])" using ss by simp
  show thesis
  proof (cases "last ?ss = []")
    case True
    then have "butlast ?ss \<noteq> []" using rj r(2) by auto
    with True rj have "r = join_with (CHR ''/'') (butlast ?ss) @ ''/''" by (simp add: join_with_snoc)
    with that [OF \<open>butlast ?ss \<noteq> []\<close> ok] r show thesis by simp
  next
    case False
    then have "plain_segment (last ?ss)"
      using assms split_on_no_sep [of "last ?ss" "CHR ''/''" r]
      unfolding r(1) normalized_segments by (simp add: plain_segment_def Let_def)
    then have "\<forall>s \<in> set ?ss. plain_segment s" using ok ss by (metis Un_iff empty_iff insert_iff set_append list.set)
    with that [of ?ss] r show thesis by simp
  qed
qed

subsection \<open>Framing\<close>

definition to_frame :: "GuestWriteRecord \<Rightarrow> VsockWireError + bytes" where
  "to_frame r =
    (if \<not> is_normalized_mnt_path (normalized_path r)
       then Err (NonNormalizedPath (normalized_path r)) else
     let path_bytes = as_bytes (normalized_path r);
         path_len = length path_bytes in
     if \<not> (1 \<le> path_len \<and> path_len \<le> 4096) then Err (PathLengthMismatch path_len path_len) else
     let payload_len = FIXED_HEADER_SIZE + path_len in
     if \<not> (MIN_PAYLOAD_SIZE \<le> payload_len \<and> payload_len \<le> MAX_PAYLOAD_SIZE)
       then Err (PayloadLengthOutOfBounds payload_len) else
     Ok (u32_to_be_bytes (word_of_nat payload_len)
       @ u16_to_be_bytes (major (version r)) @ u16_to_be_bytes (minor (version r))
       @ u64_to_be_bytes (sequence_number r)
       @ u64_to_be_bytes (guest_monotonic_ns r) @ u64_to_be_bytes (guest_realtime_ns r)
       @ u32_to_be_bytes (guest_process_id r) @ u64_to_be_bytes (guest_process_start_ticks r)
       @ distribution_id r @ u64_to_be_bytes (mount_namespace_id r)
       @ executable_sha256 r @ cgroup_sha256 r
       @ [operation_as_u8 (operation r)]
       @ u64_to_be_bytes (byte_range_start r) @ u64_to_be_bytes (byte_range_length r)
       @ u16_to_be_bytes (record_flags r) @ u16_to_be_bytes (word_of_nat path_len)
       @ path_bytes))"

definition operation_of_u8 :: "u8 \<Rightarrow> VsockWireError + GuestFileOperation" where
  "operation_of_u8 b =
    (if b = 1 then Ok Write else if b = 2 then Ok Rename
     else if b = 3 then Ok Delete else Err (InvalidOperation b))"

definition from_payload :: "bytes \<Rightarrow> VsockWireError + GuestWriteRecord" where
  "from_payload payload =
    (if \<not> (MIN_PAYLOAD_SIZE \<le> length payload \<and> length payload \<le> MAX_PAYLOAD_SIZE)
       then Err (PayloadLengthOutOfBounds (length payload)) else
     let maj = u16_from_be_bytes (subslice 0 2 payload) in
     if maj \<noteq> SUPPORTED_VSOCK_MAJOR then Err (UnsupportedMajorVersion maj) else
     let mnr = u16_from_be_bytes (subslice 2 4 payload);
         seqno = u64_from_be_bytes (subslice 4 12 payload) in
     if seqno = 0 then Err ZeroSequenceNumber else
     let mono = u64_from_be_bytes (subslice 12 20 payload);
         real = u64_from_be_bytes (subslice 20 28 payload);
         pid = u32_from_be_bytes (subslice 28 32 payload);
         ticks = u64_from_be_bytes (subslice 32 40 payload);
         distro = subslice 40 56 payload;
         mount = u64_from_be_bytes (subslice 56 64 payload);
         exe = subslice 64 96 payload;
         cgroup = subslice 96 128 payload in
     case operation_of_u8 (payload ! 128) of Err e \<Rightarrow> Err e | Ok op \<Rightarrow>
     let range_start = u64_from_be_bytes (subslice 129 137 payload);
         range_length = u64_from_be_bytes (subslice 137 145 payload);
         fl = u16_from_be_bytes (subslice 145 147 payload) in
     if fl \<noteq> 0 then Err (NonzeroFlags fl) else
     let declared = unat (u16_from_be_bytes (subslice 147 149 payload));
         available = length payload - FIXED_HEADER_SIZE in
     if declared \<noteq> available then Err (PathLengthMismatch declared available) else
     case from_utf8 (drop FIXED_HEADER_SIZE payload) of None \<Rightarrow> Err InvalidUtf8Path | Some path \<Rightarrow>
     if \<not> is_normalized_mnt_path path then Err (NonNormalizedPath path) else
     Ok \<lparr>version = \<lparr>major = maj, minor = mnr\<rparr>, sequence_number = seqno,
         guest_monotonic_ns = mono, guest_realtime_ns = real, guest_process_id = pid,
         guest_process_start_ticks = ticks, distribution_id = distro,
         mount_namespace_id = mount, executable_sha256 = exe, cgroup_sha256 = cgroup,
         operation = op, normalized_path = path, byte_range_start = range_start,
         byte_range_length = range_length, record_flags = fl\<rparr>)"

definition from_frame :: "bytes \<Rightarrow> VsockWireError + GuestWriteRecord" where
  "from_frame frame =
    (if length frame < LENGTH_PREFIX_SIZE + MIN_PAYLOAD_SIZE
       then Err (FrameTooSmall (LENGTH_PREFIX_SIZE + MIN_PAYLOAD_SIZE) (length frame)) else
     let declared = unat (u32_from_be_bytes (subslice 0 4 frame));
         actual = length frame - LENGTH_PREFIX_SIZE in
     if declared \<noteq> actual then Err (PayloadLengthMismatch declared actual)
     else from_payload (drop LENGTH_PREFIX_SIZE frame))"

definition wf_record :: "GuestWriteRecord \<Rightarrow> bool" where
  \<comment> \<open>what the Rust types guarantee: array lengths, and a \<open>String\<close> is valid UTF-8\<close>
  "wf_record r \<longleftrightarrow> length (distribution_id r) = 16 \<and> length (executable_sha256 r) = 32
     \<and> length (cgroup_sha256 r) = 32 \<and> valid_utf8 (as_bytes (normalized_path r))"

definition valid_record :: "GuestWriteRecord \<Rightarrow> bool" where
  \<comment> \<open>the validity column of \<open>docs/schemas/wsl-vsock-record-v1.md\<close>\<close>
  "valid_record r \<longleftrightarrow> major (version r) = SUPPORTED_VSOCK_MAJOR \<and> sequence_number r \<noteq> 0
     \<and> record_flags r = 0 \<and> is_normalized_mnt_path (normalized_path r)
     \<and> length (normalized_path r) \<le> 4096"

definition payload_layout :: "GuestWriteRecord \<Rightarrow> bytes" where
  "payload_layout r =
     u16_to_be_bytes (major (version r)) @ u16_to_be_bytes (minor (version r))
     @ u64_to_be_bytes (sequence_number r)
     @ u64_to_be_bytes (guest_monotonic_ns r) @ u64_to_be_bytes (guest_realtime_ns r)
     @ u32_to_be_bytes (guest_process_id r) @ u64_to_be_bytes (guest_process_start_ticks r)
     @ distribution_id r @ u64_to_be_bytes (mount_namespace_id r)
     @ executable_sha256 r @ cgroup_sha256 r
     @ [operation_as_u8 (operation r)]
     @ u64_to_be_bytes (byte_range_start r) @ u64_to_be_bytes (byte_range_length r)
     @ u16_to_be_bytes (record_flags r)
     @ u16_to_be_bytes (word_of_nat (length (normalized_path r)))
     @ as_bytes (normalized_path r)"

lemma operation_of_as_u8 [simp]: "operation_of_u8 (operation_as_u8 a) = Ok a"
  by (cases a) (simp_all add: operation_of_u8_def operation_as_u8_def)

lemma operation_of_u8_OkD: "operation_of_u8 b = Ok a \<Longrightarrow> operation_as_u8 a = b"
  by (auto simp: operation_of_u8_def operation_as_u8_def split: if_splits)

lemma normalized_length: "is_normalized_mnt_path p \<Longrightarrow> 6 \<le> length p"
  using normalized_prefix [of p] by (auto simp: neq_Nil_conv)

lemma to_frame_layout:
  assumes "valid_record r"
  shows "to_frame r = Ok (u32_to_be_bytes (word_of_nat (149 + length (normalized_path r))) @ payload_layout r)"
  using assms normalized_length [of "normalized_path r"]
  by (simp add: to_frame_def valid_record_def payload_layout_def Let_def kavach_const)

lemma length_payload_layout:
  "wf_record r \<Longrightarrow> length (payload_layout r) = 149 + length (normalized_path r)"
  by (simp add: payload_layout_def wf_record_def)

lemma payload_layout_slices:
  assumes "wf_record r"
  shows "subslice 0 2 (payload_layout r) = u16_to_be_bytes (major (version r))"
    "subslice 2 4 (payload_layout r) = u16_to_be_bytes (minor (version r))"
    "subslice 4 12 (payload_layout r) = u64_to_be_bytes (sequence_number r)"
    "subslice 12 20 (payload_layout r) = u64_to_be_bytes (guest_monotonic_ns r)"
    "subslice 20 28 (payload_layout r) = u64_to_be_bytes (guest_realtime_ns r)"
    "subslice 28 32 (payload_layout r) = u32_to_be_bytes (guest_process_id r)"
    "subslice 32 40 (payload_layout r) = u64_to_be_bytes (guest_process_start_ticks r)"
    "subslice 40 56 (payload_layout r) = distribution_id r"
    "subslice 56 64 (payload_layout r) = u64_to_be_bytes (mount_namespace_id r)"
    "subslice 64 96 (payload_layout r) = executable_sha256 r"
    "subslice 96 128 (payload_layout r) = cgroup_sha256 r"
    "payload_layout r ! 128 = operation_as_u8 (operation r)"
    "subslice 129 137 (payload_layout r) = u64_to_be_bytes (byte_range_start r)"
    "subslice 137 145 (payload_layout r) = u64_to_be_bytes (byte_range_length r)"
    "subslice 145 147 (payload_layout r) = u16_to_be_bytes (record_flags r)"
    "subslice 147 149 (payload_layout r) = u16_to_be_bytes (word_of_nat (length (normalized_path r)))"
    "drop 149 (payload_layout r) = as_bytes (normalized_path r)"
  using assms by (simp_all add: payload_layout_def wf_record_def wire_simps nth_append)

lemma from_payload_layout:
  assumes "wf_record r" "valid_record r"
  shows "from_payload (payload_layout r) = Ok r"
proof -
  have len: "6 \<le> length (normalized_path r)" "length (normalized_path r) \<le> 4096"
    using assms(2) normalized_length by (auto simp: valid_record_def)
  then have "unat (word_of_nat (length (normalized_path r)) :: u16) = length (normalized_path r)"
    by (simp add: unat_of_nat)
  with assms len show ?thesis
    by (simp add: from_payload_def length_payload_layout payload_layout_slices valid_record_def
        from_utf8_as_bytes wf_record_def Let_def kavach_const)
qed

lemma from_payload_OkD:
  assumes "from_payload p = Ok r"
  shows "wf_record r" "valid_record r" "payload_layout r = p" "length p = 149 + length (normalized_path r)"
proof -
  have len: "150 \<le> length p" "length p \<le> 4245"
    using assms by (auto simp: from_payload_def kavach_const split: if_splits)
  obtain op where op: "operation_of_u8 (p ! 128) = Ok op"
    using assms by (auto simp: from_payload_def Let_def split: if_splits sum.splits)
  obtain path where path: "from_utf8 (drop 149 p) = Some path"
    using assms op by (auto simp: from_payload_def Let_def kavach_const split: if_splits option.splits)
  have r: "r = \<lparr>version = \<lparr>major = u16_from_be_bytes (subslice 0 2 p), minor = u16_from_be_bytes (subslice 2 4 p)\<rparr>,
      sequence_number = u64_from_be_bytes (subslice 4 12 p),
      guest_monotonic_ns = u64_from_be_bytes (subslice 12 20 p),
      guest_realtime_ns = u64_from_be_bytes (subslice 20 28 p),
      guest_process_id = u32_from_be_bytes (subslice 28 32 p),
      guest_process_start_ticks = u64_from_be_bytes (subslice 32 40 p),
      distribution_id = subslice 40 56 p, mount_namespace_id = u64_from_be_bytes (subslice 56 64 p),
      executable_sha256 = subslice 64 96 p, cgroup_sha256 = subslice 96 128 p, operation = op,
      normalized_path = path, byte_range_start = u64_from_be_bytes (subslice 129 137 p),
      byte_range_length = u64_from_be_bytes (subslice 137 145 p),
      record_flags = u16_from_be_bytes (subslice 145 147 p)\<rparr>"
    and declared: "unat (u16_from_be_bytes (subslice 147 149 p)) = length p - 149"
    and checks: "major (version r) = 1" "sequence_number r \<noteq> 0" "record_flags r = 0"
      "is_normalized_mnt_path path"
    using assms op path len by (auto simp: from_payload_def Let_def kavach_const split: if_splits)
  have pb: "as_bytes path = drop 149 p" "valid_utf8 (drop 149 p)"
    using from_utf8_SomeD [OF path] by simp_all
  then have plen: "length path = length p - 149" by (metis length_as_bytes length_drop)
  show "valid_record r" using checks plen len r by (simp add: valid_record_def kavach_const)
  show "wf_record r" using len r pb by (simp add: wf_record_def)
  show "length p = 149 + length (normalized_path r)" using plen r len by simp
  have "(word_of_nat (length p - 149) :: u16) = u16_from_be_bytes (subslice 147 149 p)"
    unfolding declared [symmetric] by simp
  then have dl: "u16_to_be_bytes (word_of_nat (length p - 149)) = subslice 147 149 p"
    using len by (simp add: be_to_from)
  have one: "[p ! 128] = subslice 128 129 p"
    using len by (simp add: subslice_def take_Suc_conv_app_nth hd_drop_conv_nth take_Suc)
  have fin: "drop 149 p = subslice 149 (length p) p" by (simp add: subslice_def)
  have "payload_layout r = subslice 0 (length p) p"
    using len op r dl pb
    by (simp add: payload_layout_def be_to_from operation_of_u8_OkD one fin plen subslice_join
        subslice_join_more del: append.simps)
  then show "payload_layout r = p" by (simp add: wire_simps)
qed

lemma from_frame_to_frame:
  assumes "wf_record r" "valid_record r"
  shows "\<exists>b. to_frame r = Ok b \<and> from_frame b = Ok r"
proof -
  have len: "6 \<le> length (normalized_path r)" "length (normalized_path r) \<le> 4096"
    using assms(2) normalized_length by (auto simp: valid_record_def)
  then have "unat (word_of_nat (149 + length (normalized_path r)) :: u32) = 149 + length (normalized_path r)"
    by (simp add: unat_of_nat del: of_nat_add)
  moreover have "normalized_path r \<noteq> []" using len by auto
  ultimately show ?thesis
    using assms len
    by (simp add: to_frame_layout from_frame_def length_payload_layout from_payload_layout
        wire_simps Let_def kavach_const del: of_nat_add)
qed

lemma from_frame_OkD:
  assumes "from_frame b = Ok r"
  shows "(wf_record r \<and> valid_record r) \<and> to_frame r = Ok b"
proof -
  have len: "154 \<le> length b" and declared: "unat (u32_from_be_bytes (subslice 0 4 b)) = length b - 4"
    and payload: "from_payload (drop 4 b) = Ok r"
    using assms by (auto simp: from_frame_def Let_def kavach_const split: if_splits)
  note r = from_payload_OkD [OF payload]
  have "(word_of_nat (length b - 4) :: u32) = u32_from_be_bytes (subslice 0 4 b)"
    unfolding declared [symmetric] by simp
  then have "u32_to_be_bytes (word_of_nat (length b - 4)) = subslice 0 4 b"
    using len by (simp add: be_to_from)
  moreover have "149 + length (normalized_path r) = length b - 4" using r(4) by simp
  ultimately have "to_frame r = Ok (subslice 0 4 b @ drop 4 b)"
    using r(3) to_frame_layout [OF r(2)] by (simp del: of_nat_add)
  with r(1,2) show ?thesis by (simp add: subslice_def)
qed

interpretation frame_codec: strict_codec to_frame from_frame "\<lambda>r. wf_record r \<and> valid_record r"
  by unfold_locales (use from_frame_to_frame from_frame_OkD in blast)+

subsection \<open>Properties\<close>

definition sample_record :: "string \<Rightarrow> u64 \<Rightarrow> GuestWriteRecord" where
  "sample_record path seqno =
    \<lparr>version = \<lparr>major = 1, minor = 0\<rparr>, sequence_number = seqno, guest_monotonic_ns = 1000000,
     guest_realtime_ns = 2000000, guest_process_id = 1234, guest_process_start_ticks = 42,
     distribution_id = replicate 16 0x11, mount_namespace_id = 4026531840,
     executable_sha256 = replicate 32 0x22, cgroup_sha256 = replicate 32 0, operation = Write,
     normalized_path = path, byte_range_start = 0, byte_range_length = 4096, record_flags = 0\<rparr>"

text \<open>C8: the frame decoder is exactly the inverse of the encoder: it returns a record on a byte
  string if and only if the record is well-formed and valid (major version 1, positive
  sequence number, no flags, normalized path of at most 4096 bytes) and the bytes are its
  frame. Length prefix, path length and header size therefore always agree.\<close>

theorem from_frame_iff_to_frame:
  "from_frame b = Ok r \<longleftrightarrow> wf_record r \<and> valid_record r \<and> to_frame r = Ok b"
  using frame_codec.dec_iff [of b r] by auto

text \<open>C36: the path check accepts exactly the absolute paths below \<open>/mnt/\<close> with at least one
  segment, every segment non-empty and neither \<open>.\<close> nor \<open>..\<close>, with an optional trailing
  slash. So no accepted path can leave the mount by a parent segment.\<close>

theorem normalized_path_iff:
  "is_normalized_mnt_path p \<longleftrightarrow>
     (\<exists>segs. segs \<noteq> [] \<and> (\<forall>s \<in> set segs. plain_segment s)
        \<and> (p = ''/mnt/'' @ join_with (CHR ''/'') segs
           \<or> p = ''/mnt/'' @ join_with (CHR ''/'') segs @ ''/''))"
  using normalized_join by (auto elim!: normalized_segs)

theorem normalized_path_iff_witness: "is_normalized_mnt_path ''/mnt/c/a/''"
  by (rule normalized_path_iff [THEN iffD2], rule exI [of _ "[''c'', ''a'']"])
    (simp add: plain_segment_def)

text \<open>What the encoder lets through and the decoder then refuses, with the decoder's order of
  checks: the encoder checks only the path, so the frame of a record with another major
  version, a zero sequence number or reserved flags is built and refused on the host.\<close>

theorem from_frame_to_frame_outcome:
  assumes "wf_record r" "to_frame r = Ok b"
  shows "from_frame b =
    (if major (version r) \<noteq> 1 then Err (UnsupportedMajorVersion (major (version r)))
     else if sequence_number r = 0 then Err ZeroSequenceNumber
     else if record_flags r \<noteq> 0 then Err (NonzeroFlags (record_flags r))
     else Ok r)"
proof -
  have path: "is_normalized_mnt_path (normalized_path r)"
    and len: "6 \<le> length (normalized_path r)" "length (normalized_path r) \<le> 4096"
    and b: "b = u32_to_be_bytes (word_of_nat (149 + length (normalized_path r))) @ payload_layout r"
    using assms(2) normalized_length
    by (auto simp: to_frame_def payload_layout_def Let_def kavach_const split: if_splits)
  have "unat (word_of_nat (149 + length (normalized_path r)) :: u32) = 149 + length (normalized_path r)"
    "unat (word_of_nat (length (normalized_path r)) :: u16) = length (normalized_path r)"
    "normalized_path r \<noteq> []"
    using len by (auto simp: unat_of_nat simp del: of_nat_add)
  with assms(1) path len show ?thesis
    unfolding b
    by (simp add: from_frame_def from_payload_def length_payload_layout payload_layout_slices wire_simps
        from_utf8_as_bytes wf_record_def Let_def kavach_const del: of_nat_add)
qed

theorem from_frame_to_frame_outcome_witness:
  "from_frame (projr (to_frame (sample_record ''/mnt/c/x'' 0))) = Err ZeroSequenceNumber"
proof -
  let ?r = "sample_record ''/mnt/c/x'' 0"
  have "wf_record ?r" "is_normalized_mnt_path (normalized_path ?r)"
    by (simp_all add: sample_record_def wf_record_def as_bytes_def byte_of_def
        is_normalized_mnt_path_def starts_with_def)
  then have "to_frame ?r = Ok (projr (to_frame ?r))"
    by (simp add: to_frame_def sample_record_def Let_def kavach_const)
  then show ?thesis
    using from_frame_to_frame_outcome [OF \<open>wf_record ?r\<close>] by (simp add: sample_record_def)
qed

end
