(* ===== verification/Kavach_Clock_Sync.thy ===== *)
theory Kavach_Clock_Sync
  imports Kavach_Prelude
begin

section \<open>Clock synchronization with a guest\<close>

text \<open>
  Models \<open>crates/kavach-wsl/src/clock_sync.rs\<close>: the challenge-response exchange, the rolling
  buffer of five accepted samples, the estimate and its validity. Offsets are \<open>i64\<close>
  (integers with the wrap-around of the cast and of the subtraction written out), times
  and round trips are \<open>u64\<close> words.
\<close>

record ClockOffsetEstimate =
  estimate_distribution_id :: bytes
  offset_ns :: i64
  uncertainty_ns :: u64
  accepted_at_host_monotonic_ns :: u64
  valid_until_host_monotonic_ns :: u64

definition MAX_RTT_NS :: u64 where
  [kavach_const]: "MAX_RTT_NS = 100000000"

definition MAX_ACCEPTABLE_UNCERTAINTY_NS :: u64 where
  [kavach_const]: "MAX_ACCEPTABLE_UNCERTAINTY_NS = 50000000"

definition CLOCK_SYNC_VALIDITY_NS :: u64 where
  [kavach_const]: "CLOCK_SYNC_VALIDITY_NS = 90000000000"

record ClockChallenge =
  challenge_nonce :: bytes
  t0_host_monotonic_ns :: u64

record ClockResponse =
  response_nonce :: bytes
  g1_guest_monotonic_ns :: u64
  g2_guest_monotonic_ns :: u64

record ClockSample =
  sample_offset_ns :: i64
  rtt_ns :: u64
  sample_host_timestamp_ns :: u64

record ClockSynchronizer =
  sync_distribution_id :: bytes
  accepted_samples :: "ClockSample list"
  current_estimate :: "ClockOffsetEstimate option"
  consecutive_failures :: nat

datatype ClockSyncError =
    NonceMismatch
  | NonMonotonicTimestamps
  | RttTooHigh u64 u64 \<comment> \<open>rtt, limit\<close>

definition synchronizer_new :: "bytes \<Rightarrow> ClockSynchronizer" where
  "synchronizer_new distro = \<lparr>sync_distribution_id = distro, accepted_samples = [],
     current_estimate = None, consecutive_failures = 0\<rparr>"

definition min_by_key :: "('a \<Rightarrow> 'k::linorder) \<Rightarrow> 'a list \<Rightarrow> 'a" where
  \<comment> \<open>the first of the smallest elements of a non-empty list\<close>
  "min_by_key f xs = foldl (\<lambda>best s. if f s < f best then s else best) (hd xs) (tl xs)"

definition make_sample :: "ClockChallenge \<Rightarrow> ClockResponse \<Rightarrow> u64 \<Rightarrow> ClockSample" where
  \<comment> \<open>steps 3 and 4; the \<open>i128\<close> sums are non-negative, so the division is \<open>div\<close>\<close>
  "make_sample c r t3 =
    (let host_mid = (uint (t0_host_monotonic_ns c) + uint t3) div 2;
         guest_mid = (uint (g1_guest_monotonic_ns r) + uint (g2_guest_monotonic_ns r)) div 2
     in \<lparr>sample_offset_ns = as_i64 (host_mid - guest_mid),
         rtt_ns = t3 - t0_host_monotonic_ns c, sample_host_timestamp_ns = t3\<rparr>)"

definition make_estimate :: "bytes \<Rightarrow> ClockSample list \<Rightarrow> u64 \<Rightarrow> ClockOffsetEstimate" where
  \<comment> \<open>step 5, on the buffer with the new sample\<close>
  "make_estimate distro samples t3 =
    (let best_sample = min_by_key rtt_ns samples;
         offsets = map sample_offset_ns samples;
         min_offset = fold min (tl offsets) (hd offsets);
         max_offset = fold max (tl offsets) (hd offsets);
         spread_ns = i64_unsigned_abs (as_i64 (max_offset - min_offset))
     in \<lparr>estimate_distribution_id = distro, offset_ns = sample_offset_ns best_sample,
         uncertainty_ns = rtt_ns best_sample div 2 + spread_ns div 2,
         accepted_at_host_monotonic_ns = t3,
         valid_until_host_monotonic_ns = t3 + CLOCK_SYNC_VALIDITY_NS\<rparr>)"

definition record_failure :: "ClockSynchronizer \<Rightarrow> ClockSynchronizer" where
  "record_failure s = s\<lparr>consecutive_failures := consecutive_failures s + 1\<rparr>"

definition process_response ::
    "ClockSynchronizer \<Rightarrow> ClockChallenge \<Rightarrow> ClockResponse \<Rightarrow> u64
      \<Rightarrow> (ClockSyncError + ClockOffsetEstimate) \<times> ClockSynchronizer" where
  "process_response s c r t3 =
    (if challenge_nonce c \<noteq> response_nonce r then (Err NonceMismatch, record_failure s)
     else if t3 \<le> t0_host_monotonic_ns c \<or> g2_guest_monotonic_ns r < g1_guest_monotonic_ns r
       then (Err NonMonotonicTimestamps, record_failure s)
     else
       let rtt = t3 - t0_host_monotonic_ns c in
       if rtt > MAX_RTT_NS then (Err (RttTooHigh rtt MAX_RTT_NS), record_failure s)
       else
         let samples = push_drop_first 5 (accepted_samples s) (make_sample c r t3);
             estimate = make_estimate (sync_distribution_id s) samples t3
         in (Ok estimate,
             s\<lparr>accepted_samples := samples, consecutive_failures := 0,
               current_estimate := Some estimate\<rparr>))"

definition get_valid_estimate :: "ClockSynchronizer \<Rightarrow> u64 \<Rightarrow> ClockOffsetEstimate option" where
  "get_valid_estimate s now = (case current_estimate s of
     None \<Rightarrow> None
   | Some est \<Rightarrow>
       if now > valid_until_host_monotonic_ns est then None
       else if uncertainty_ns est > MAX_ACCEPTABLE_UNCERTAINTY_NS then None
       else if consecutive_failures s \<ge> 3 then None
       else Some est)"

interpretation clock_samples: rolling_buffer 5 "push_drop_first 5 :: ClockSample list \<Rightarrow> _ \<Rightarrow> _"
  by unfold_locales (simp_all add: push_drop_first_spec)

subsection \<open>The life of a synchronizer\<close>

text \<open>An exchange is accepted when the nonce, the order of the time stamps and the round trip are
  right; a run processes exchanges one after the other.\<close>

type_synonym exchange = "ClockChallenge \<times> ClockResponse \<times> u64"

definition accepted :: "exchange \<Rightarrow> bool" where
  "accepted x = (case x of (c, r, t3) \<Rightarrow> challenge_nonce c = response_nonce r
     \<and> t0_host_monotonic_ns c < t3 \<and> g1_guest_monotonic_ns r \<le> g2_guest_monotonic_ns r
     \<and> t3 - t0_host_monotonic_ns c \<le> MAX_RTT_NS)"

definition sample_of :: "exchange \<Rightarrow> ClockSample" where
  "sample_of x = (case x of (c, r, t3) \<Rightarrow> make_sample c r t3)"

fun run_exchanges :: "ClockSynchronizer \<Rightarrow> exchange list \<Rightarrow> ClockSynchronizer" where
  "run_exchanges s [] = s"
| "run_exchanges s ((c, r, t3) # xs) = run_exchanges (snd (process_response s c r t3)) xs"

lemma process_rejected:
  "\<not> accepted (c, r, t3) \<Longrightarrow> (\<exists>e. fst (process_response s c r t3) = Err e)
     \<and> snd (process_response s c r t3) = record_failure s"
  by (auto simp: process_response_def accepted_def Let_def)

lemma process_accepted:
  "accepted (c, r, t3) \<Longrightarrow> process_response s c r t3 =
     (let samples = push_drop_first 5 (accepted_samples s) (sample_of (c, r, t3));
          estimate = make_estimate (sync_distribution_id s) samples t3
      in (Ok estimate, s\<lparr>accepted_samples := samples, consecutive_failures := 0,
            current_estimate := Some estimate\<rparr>))"
  by (auto simp: process_response_def accepted_def sample_of_def Let_def not_less not_le)

lemma record_failure_simps [simp]:
  "accepted_samples (record_failure s) = accepted_samples s"
  "current_estimate (record_failure s) = current_estimate s"
  "sync_distribution_id (record_failure s) = sync_distribution_id s"
  "consecutive_failures (record_failure s) = Suc (consecutive_failures s)"
  by (simp_all add: record_failure_def)

lemma run_snoc:
  "run_exchanges s (xs @ [(c, r, t3)]) = snd (process_response (run_exchanges s xs) c r t3)"
  by (induction s xs rule: run_exchanges.induct) simp_all

lemma run_append: "run_exchanges s (xs @ ys) = run_exchanges (run_exchanges s xs) ys"
  by (induction s xs rule: run_exchanges.induct) simp_all

lemma run_samples:
  "accepted_samples (run_exchanges (synchronizer_new d) xs)
     = last_n 5 (map sample_of (filter accepted xs))"
proof (induction xs rule: rev_induct)
  case Nil
  show ?case by (simp add: synchronizer_new_def last_n_def)
next
  case (snoc x xs)
  obtain c r t3 where x: "x = (c, r, t3)" by (cases x)
  show ?case
  proof (cases "accepted x")
    case True
    with snoc show ?thesis
      unfolding x by (simp add: run_snoc process_accepted Let_def push_drop_first_spec last_n_last_n_snoc)
  next
    case False
    with snoc show ?thesis unfolding x by (simp add: run_snoc process_rejected)
  qed
qed

lemma run_estimate:
  "current_estimate (run_exchanges (synchronizer_new d) xs) =
     (case filter accepted xs of [] \<Rightarrow> None
      | _ \<Rightarrow> Some (make_estimate d (last_n 5 (map sample_of (filter accepted xs)))
               (snd (snd (last (filter accepted xs))))))
   \<and> sync_distribution_id (run_exchanges (synchronizer_new d) xs) = d"
proof (induction xs rule: rev_induct)
  case Nil
  show ?case by (simp add: synchronizer_new_def)
next
  case (snoc x xs)
  obtain c r t3 where x: "x = (c, r, t3)" by (cases x)
  show ?case
  proof (cases "accepted x")
    case True
    with snoc show ?thesis
      unfolding x
      by (cases "filter accepted xs")
        (simp_all add: run_snoc process_accepted Let_def push_drop_first_spec last_n_last_n_snoc run_samples)
  next
    case False
    with snoc show ?thesis unfolding x
      by (cases "filter accepted xs") (simp_all add: run_snoc process_rejected)
  qed
qed

lemma run_rejected:
  "\<forall>x \<in> set xs. \<not> accepted x \<Longrightarrow>
     run_exchanges s xs = s\<lparr>consecutive_failures := consecutive_failures s + length xs\<rparr>"
proof (induction xs arbitrary: s)
  case Nil
  then show ?case by simp
next
  case (Cons x xs)
  obtain c r t3 where x: "x = (c, r, t3)" by (cases x)
  with Cons.prems have "snd (process_response s c r t3) = record_failure s"
    by (simp add: process_rejected)
  with Cons x show ?case by (simp add: record_failure_def)
qed

subsection \<open>Soundness of the estimate\<close>

text \<open>
  The true offset is \<open>theta\<close>: a guest reading \<open>g\<close> is taken at host time \<open>g + theta\<close>. In an
  honest exchange both guest readings are taken between sending and receiving.
\<close>

definition honest :: "int \<Rightarrow> exchange \<Rightarrow> bool" where
  "honest theta x = (case x of (c, r, t3) \<Rightarrow>
     uint (t0_host_monotonic_ns c) \<le> uint (g1_guest_monotonic_ns r) + theta
     \<and> uint (g2_guest_monotonic_ns r) + theta \<le> uint t3)"

definition close_to :: "int \<Rightarrow> ClockSample \<Rightarrow> bool" where
  "close_to theta s \<longleftrightarrow> abs (sample_offset_ns s - theta) \<le> uint (rtt_ns s) div 2 + 1
     \<and> uint (rtt_ns s) \<le> 100000000"

lemma midpoint_error:
  fixes a b g h theta :: int
  assumes "a \<le> g + theta" "g \<le> h" "h + theta \<le> b"
  shows "abs ((a + b) div 2 - (g + h) div 2 - theta) \<le> (b - a) div 2 + 1"
  using assms by arith

lemma sample_close:
  assumes "accepted x" "honest theta x" "abs theta < 2 ^ 62"
  shows "close_to theta (sample_of x)"
proof -
  obtain c r t3 where x: "x = (c, r, t3)" by (cases x)
  let ?a = "uint (t0_host_monotonic_ns c)" and ?b = "uint t3"
    and ?g = "uint (g1_guest_monotonic_ns r)" and ?h = "uint (g2_guest_monotonic_ns r)"
  have lt: "t0_host_monotonic_ns c \<le> t3"
    using assms(1) by (auto simp: x accepted_def)
  have gh: "?g \<le> ?h"
    using assms(1) by (simp add: x accepted_def word_le_def)
  have rtt: "uint (t3 - t0_host_monotonic_ns c) = ?b - ?a" "?b - ?a \<le> 100000000"
    using assms(1) uint_minus_le [OF lt] by (auto simp: x accepted_def word_le_def kavach_const)
  have err: "abs ((?a + ?b) div 2 - (?g + ?h) div 2 - theta) \<le> (?b - ?a) div 2 + 1"
    using assms(2) gh by (intro midpoint_error) (auto simp: x honest_def)
  then have "as_i64 ((?a + ?b) div 2 - (?g + ?h) div 2) = (?a + ?b) div 2 - (?g + ?h) div 2"
    using assms(3) rtt(2) by (intro as_i64_near [of _ theta "(?b - ?a) div 2 + 1"]) simp_all
  with err rtt show ?thesis by (simp add: x close_to_def sample_of_def make_sample_def)
qed

lemma min_by_key_in: "xs \<noteq> [] \<Longrightarrow> min_by_key f xs \<in> set xs"
proof -
  have "foldl (\<lambda>best s. if f s < f best then s else best) b ys \<in> insert b (set ys)" for b ys
    by (induction ys arbitrary: b) (auto split: if_splits)
  then show "xs \<noteq> [] \<Longrightarrow> min_by_key f xs \<in> set xs"
    by (cases xs) (auto simp: min_by_key_def)
qed

lemma min_by_key_le: "s \<in> set xs \<Longrightarrow> f (min_by_key f xs) \<le> f s"
proof -
  have "\<forall>s \<in> insert b (set ys). f (foldl (\<lambda>best s. if f s < f best then s else best) b ys) \<le> f s"
    for b ys
  proof (induction ys arbitrary: b)
    case Nil
    show ?case by simp
  next
    case (Cons a ys)
    show ?case
      using Cons.IH [of a] Cons.IH [of b] by (cases "f a < f b") (auto simp: not_less intro: order.trans)
  qed
  then show "s \<in> set xs \<Longrightarrow> f (min_by_key f xs) \<le> f s"
    by (cases xs) (auto simp: min_by_key_def)
qed

lemma uint_div2: "uint (w div 2) = uint w div 2" for w :: u64
  by (simp add: uint_div)

lemma estimate_error:
  assumes "samples \<noteq> []" "\<forall>s \<in> set samples. close_to theta s" "abs theta < 2 ^ 62"
  shows "abs (offset_ns (make_estimate d samples t3) - theta)
           \<le> uint (uncertainty_ns (make_estimate d samples t3)) + 1"
    and "uint (uncertainty_ns (make_estimate d samples t3)) \<le> 100000002"
proof -
  let ?best = "min_by_key rtt_ns samples" and ?O = "map sample_offset_ns samples"
  let ?lo = "fold min (tl ?O) (hd ?O)" and ?hi = "fold max (tl ?O) (hd ?O)"
  have O: "?O = hd ?O # tl ?O" using assms(1) by (cases samples) simp_all
  then have lohi: "?lo = Min (set ?O)" "?hi = Max (set ?O)"
    by (metis Min.set_eq_fold) (metis O Max.set_eq_fold)
  then have mem: "?lo \<in> set ?O" "?hi \<in> set ?O" "?lo \<le> ?hi"
    using assms(1) by (simp_all add: Min_le_iff)
  have bound: "abs (x - theta) \<le> 50000001" if "x \<in> set ?O" for x
    using that assms(2) unfolding close_to_def by fastforce
  have spread: "?hi - ?lo \<le> 100000002" using bound [OF mem(1)] bound [OF mem(2)] by arith
  then have wrap: "as_i64 (?hi - ?lo) = ?hi - ?lo" using mem(3) by (intro as_i64_id) simp_all
  have best: "close_to theta ?best" using assms(1,2) min_by_key_in by blast
  have sum: "uint (rtt_ns ?best div 2 + i64_unsigned_abs (?hi - ?lo) div 2)
      = uint (rtt_ns ?best) div 2 + (?hi - ?lo) div 2"
    using best spread mem(3)
    by (subst uint_add_lem [THEN iffD1]) (auto simp: uint_div2 uint_unsigned_abs close_to_def)
  have eq: "uncertainty_ns (make_estimate d samples t3)
        = rtt_ns ?best div 2 + i64_unsigned_abs (?hi - ?lo) div 2"
      "offset_ns (make_estimate d samples t3) = sample_offset_ns ?best"
    by (simp_all add: make_estimate_def Let_def wrap)
  have half: "0 \<le> (?hi - ?lo) div 2" "(?hi - ?lo) div 2 \<le> 50000001"
    using mem(3) spread by (simp_all add: pos_imp_zdiv_nonneg_iff)
  show "abs (offset_ns (make_estimate d samples t3) - theta)
      \<le> uint (uncertainty_ns (make_estimate d samples t3)) + 1"
    using best sum half unfolding eq close_to_def by linarith
  show "uint (uncertainty_ns (make_estimate d samples t3)) \<le> 100000002"
    using best sum half unfolding eq close_to_def by linarith
qed

lemma last_n_in: "x \<in> set (last_n n (map f (filter P xs))) \<Longrightarrow> \<exists>y \<in> set xs. P y \<and> x = f y"
  using set_last_n [of n "map f (filter P xs)"] by auto

lemma run_estimate_Some:
  assumes "current_estimate (run_exchanges (synchronizer_new d) xs) = Some est"
  obtains t3 where "accepted_samples (run_exchanges (synchronizer_new d) xs) \<noteq> []"
    "est = make_estimate d (accepted_samples (run_exchanges (synchronizer_new d) xs)) t3"
  using assms run_estimate [of d xs]
  by (cases "filter accepted xs") (auto simp: run_samples last_n_def)

lemma run_estimate_sound:
  assumes "\<forall>x \<in> set xs. accepted x \<longrightarrow> honest theta x" and "abs theta < 2 ^ 62"
    and "current_estimate (run_exchanges (synchronizer_new d) xs) = Some est"
  shows "abs (offset_ns est - theta) \<le> uint (uncertainty_ns est) + 1"
proof -
  obtain t3 where "accepted_samples (run_exchanges (synchronizer_new d) xs) \<noteq> []"
    "est = make_estimate d (accepted_samples (run_exchanges (synchronizer_new d) xs)) t3"
    using assms(3) by (rule run_estimate_Some)
  moreover have "\<forall>s \<in> set (accepted_samples (run_exchanges (synchronizer_new d) xs)). close_to theta s"
    using assms(1,2) sample_close by (auto simp: run_samples dest!: last_n_in)
  ultimately show ?thesis using estimate_error(1) assms(2) by blast
qed

definition sample_exchange :: "u64 \<Rightarrow> exchange" where
  \<comment> \<open>a round trip of 2 ms answered in the middle by a guest whose clock is 5 ms behind\<close>
  "sample_exchange t = (\<lparr>challenge_nonce = replicate 16 7, t0_host_monotonic_ns = t\<rparr>,
     \<lparr>response_nonce = replicate 16 7, g1_guest_monotonic_ns = t - 4000000,
      g2_guest_monotonic_ns = t - 4000000\<rparr>, t + 2000000)"

lemmas clock_eval = synchronizer_new_def process_response_def make_sample_def make_estimate_def
  push_drop_first_def min_by_key_def kavach_const as_i64_def i64_unsigned_abs_def Let_def

subsection \<open>Properties\<close>

text \<open>C7: the estimate is sound: if every accepted exchange was honest (both guest readings taken
  between sending and receiving) and the true offset is constant and below \<open>2 ^ 62\<close> ns, then
  the estimated offset is within the advertised uncertainty of the true one, up to one
  nanosecond of rounding, after any sequence of exchanges.\<close>

theorem clock_estimate_sound:
  assumes "\<forall>x \<in> set xs. accepted x \<longrightarrow> honest theta x" and "abs theta < 2 ^ 62"
    and "current_estimate (run_exchanges (synchronizer_new d) xs) = Some est"
  shows "abs (offset_ns est - theta) \<le> uint (uncertainty_ns est) + 1"
  using assms by (rule run_estimate_sound)

theorem clock_estimate_sound_witness:
  "current_estimate (run_exchanges (synchronizer_new []) [sample_exchange 10000000])
     = Some \<lparr>estimate_distribution_id = [], offset_ns = 5000000, uncertainty_ns = 1000000,
         accepted_at_host_monotonic_ns = 12000000, valid_until_host_monotonic_ns = 90012000000\<rparr>
   \<and> abs (5000000 - 5000000) \<le> uint (1000000 :: u64) + 1"
proof -
  have est: "current_estimate (run_exchanges (synchronizer_new []) [sample_exchange 10000000])
     = Some \<lparr>estimate_distribution_id = [], offset_ns = 5000000, uncertainty_ns = 1000000,
         accepted_at_host_monotonic_ns = 12000000, valid_until_host_monotonic_ns = 90012000000\<rparr>"
    by (simp add: sample_exchange_def clock_eval)
  then show ?thesis
    using clock_estimate_sound [OF _ _ est, of 5000000] by (simp add: sample_exchange_def honest_def)
qed

text \<open>After any sequence of exchanges the synchronizer holds exactly the last five accepted
  samples in order, each with a round trip of at most 100 ms; it has an estimate exactly when
  an exchange was accepted, and that estimate is the offset of a retained sample of smallest
  round trip.\<close>

theorem synchronizer_keeps_last_five:
  fixes d xs
  defines "s \<equiv> run_exchanges (synchronizer_new d) xs"
  shows "accepted_samples s = last_n 5 (map sample_of (filter accepted xs))
    \<and> length (accepted_samples s) \<le> 5
    \<and> (\<forall>x \<in> set (accepted_samples s). rtt_ns x \<le> 100000000)
    \<and> (current_estimate s = None \<longleftrightarrow> (\<forall>x \<in> set xs. \<not> accepted x))
    \<and> (\<forall>est. current_estimate s = Some est \<longrightarrow>
         (\<exists>b \<in> set (accepted_samples s). offset_ns est = sample_offset_ns b
            \<and> (\<forall>x \<in> set (accepted_samples s). rtt_ns b \<le> rtt_ns x)))"
proof -
  have "rtt_ns (sample_of x) \<le> 100000000" if "accepted x" for x
    using that by (auto simp: accepted_def sample_of_def make_sample_def Let_def kavach_const)
  then have rtt: "\<forall>x \<in> set (accepted_samples s). rtt_ns x \<le> 100000000"
    by (auto simp: s_def run_samples dest!: last_n_in)
  have none: "current_estimate s = None \<longleftrightarrow> (\<forall>x \<in> set xs. \<not> accepted x)"
    using run_estimate [of d xs]
    by (cases "filter accepted xs") (auto simp: s_def filter_empty_conv dest: filter_eq_ConsD)
  have "\<exists>b \<in> set (accepted_samples s). offset_ns est = sample_offset_ns b
        \<and> (\<forall>x \<in> set (accepted_samples s). rtt_ns b \<le> rtt_ns x)"
    if est: "current_estimate s = Some est" for est
  proof -
    obtain t3 where "accepted_samples s \<noteq> []" "est = make_estimate d (accepted_samples s) t3"
      using est unfolding s_def by (rule run_estimate_Some)
    then show ?thesis
      using min_by_key_in [of "accepted_samples s" rtt_ns] min_by_key_le [of _ "accepted_samples s" rtt_ns]
      by (intro bexI [of _ "min_by_key rtt_ns (accepted_samples s)"])
        (auto simp: make_estimate_def Let_def)
  qed
  with rtt none show ?thesis by (simp add: s_def run_samples)
qed

theorem synchronizer_keeps_last_five_witness:
  "current_estimate (run_exchanges (synchronizer_new []) [sample_exchange 10000000]) \<noteq> None
   \<and> accepted_samples (run_exchanges (synchronizer_new []) [sample_exchange 10000000])
       = [\<lparr>sample_offset_ns = 5000000, rtt_ns = 2000000, sample_host_timestamp_ns = 12000000\<rparr>]"
  using synchronizer_keeps_last_five [of "[]" "[sample_exchange 10000000]"]
  by (simp add: accepted_def sample_of_def sample_exchange_def last_n_def make_sample_def
      as_i64_def kavach_const)

text \<open>Failed exchanges change neither samples nor estimate, they only count: after a run of
  failures the synchronizer still offers what it offered before, until three in a row
  (counting those before the run) withdraw every estimate.\<close>

theorem three_failures_withdraw_estimate:
  assumes "\<forall>x \<in> set xs. \<not> accepted x"
  shows "get_valid_estimate (run_exchanges s xs) now =
    (if consecutive_failures s + length xs \<ge> 3 then None else get_valid_estimate s now)"
  using run_rejected [OF assms, of s] by (simp add: get_valid_estimate_def split: option.split)

theorem three_failures_withdraw_estimate_witness:
  "get_valid_estimate (run_exchanges (run_exchanges (synchronizer_new []) [sample_exchange 10000000])
      (replicate 3 (\<lparr>challenge_nonce = [1], t0_host_monotonic_ns = 0\<rparr>,
         \<lparr>response_nonce = [2], g1_guest_monotonic_ns = 0, g2_guest_monotonic_ns = 0\<rparr>, 5))) 20000000 = None"
  by (subst three_failures_withdraw_estimate) (simp_all add: accepted_def)

text \<open>The advertised uncertainty is not a bound by itself: an honest exchange with a round
  trip of one nanosecond and zero true offset gives an estimate that is one nanosecond off
  and claims an uncertainty of zero (both midpoints are rounded down).\<close>

theorem uncertainty_one_ns_short:
  "let x = (\<lparr>challenge_nonce = [], t0_host_monotonic_ns = 0\<rparr>,
      \<lparr>response_nonce = [], g1_guest_monotonic_ns = 1, g2_guest_monotonic_ns = 1\<rparr>, 1);
       est = the (current_estimate (run_exchanges (synchronizer_new []) [x]))
   in accepted x \<and> honest 0 x \<and> offset_ns est = - 1 \<and> uncertainty_ns est = 0"
  by (simp add: clock_eval accepted_def honest_def)

end
