(* ===== verification/Kavach_Correlator.thy ===== *)
theory Kavach_Correlator
  imports Kavach_Wsl_Wire Kavach_Clock_Sync
begin

section \<open>Correlation of guest writes with host file events\<close>

text \<open>
  Models \<open>crates/kavach-wsl/src/correlator.rs\<close>: the translation of mounted paths, the two
  buffers of a thousand entries, and the classification of a guest record against the host
  events and the clock estimate. The adjusted time stamp is the \<open>i128\<close> sum cast to \<open>u64\<close>.
\<close>

definition MAX_CORRELATION_WINDOW_MS :: u64 where
  [kavach_const]: "MAX_CORRELATION_WINDOW_MS = 250"

datatype AttributionConfidence = High | Medium | Low

record HostFileEvent =
  host_timestamp_ns :: u64
  canonical_windows_path :: string
  is_vmmem_process :: bool
  bytes_written :: u64

record WslAttributionResult =
  attributed_process_id :: u32
  attributed_distribution_id :: bytes
  attributed_path :: string
  attributed_windows_path :: string
  confidence :: AttributionConfidence
  correlation_delta_ms :: u64
  allow_pid_enforcement :: bool

abbreviation backslash :: char where
  "backslash \<equiv> CHR 0x5C"

definition splitn2 :: "char \<Rightarrow> string \<Rightarrow> string \<times> string option" where
  \<comment> \<open>\<open>splitn(2, c)\<close>: the part before the first separator, and what follows it if there is one\<close>
  "splitn2 c s = (takeWhile (\<lambda>x. x \<noteq> c) s,
     (case dropWhile (\<lambda>x. x \<noteq> c) s of [] \<Rightarrow> None | _ # rest \<Rightarrow> Some rest))"

definition translate_mnt_to_windows_path :: "string \<Rightarrow> string option" where
  "translate_mnt_to_windows_path mnt_path =
    (if \<not> starts_with mnt_path ''/mnt/'' then None
     else
       let remainder = drop (length ''/mnt/'') mnt_path;
           (drive_str, second) = splitn2 (CHR ''/'') remainder in
       if length drive_str \<noteq> 1 then None
       else
         let drive_char = to_ascii_uppercase_char (hd drive_str);
             rest = (case second of None \<Rightarrow> [] | Some r \<Rightarrow> r) in
         Some (if rest = [] then [drive_char, CHR '':'', backslash]
               else [drive_char, CHR '':'', backslash] @ replace_char (CHR ''/'') backslash rest))"

record WslCorrelator =
  clock_sync :: ClockSynchronizer
  guest_records :: "GuestWriteRecord list"
  host_events :: "HostFileEvent list"
  correlation_window_ms :: u64

definition correlator_new :: "bytes \<Rightarrow> u64 \<Rightarrow> WslCorrelator" where
  "correlator_new distro window = \<lparr>clock_sync = synchronizer_new distro, guest_records = [],
     host_events = [], correlation_window_ms = min window MAX_CORRELATION_WINDOW_MS\<rparr>"

definition record_host_event :: "WslCorrelator \<Rightarrow> HostFileEvent \<Rightarrow> WslCorrelator" where
  "record_host_event c e = c\<lparr>host_events := push_then_trim 1000 (host_events c) e\<rparr>"

definition adjusted_host_ts :: "ClockOffsetEstimate \<Rightarrow> GuestWriteRecord \<Rightarrow> u64" where
  "adjusted_host_ts est r = word_of_int (uint (guest_monotonic_ns r) + offset_ns est)"

definition matching_events ::
    "WslCorrelator \<Rightarrow> string \<Rightarrow> u64 \<Rightarrow> HostFileEvent list" where
  "matching_events c windows_path ts = filter (\<lambda>he.
      eq_ignore_ascii_case (canonical_windows_path he) windows_path
      \<and> abs_diff (host_timestamp_ns he) ts \<le> correlation_window_ms c * 1000000) (host_events c)"

definition classify ::
    "WslCorrelator \<Rightarrow> GuestWriteRecord \<Rightarrow> string \<Rightarrow> u64 \<Rightarrow> AttributionConfidence \<times> u64" where
  "classify c r windows_path now = (case get_valid_estimate (clock_sync c) now of
     Some est \<Rightarrow>
       let ts = adjusted_host_ts est r;
           matches = matching_events c windows_path ts;
           delta = (case matches of
               first_match # _ \<Rightarrow> abs_diff (host_timestamp_ns first_match) ts div 1000000
             | [] \<Rightarrow> 0) in
       if length matches = 1 \<and> uncertainty_ns est \<le> 50000000 then (High, delta)
       else if matches \<noteq> [] then (Medium, delta)
       else (Low, delta)
   | None \<Rightarrow> (Low, 0))"

definition windows_path_of :: "GuestWriteRecord \<Rightarrow> string" where
  "windows_path_of r = (case translate_mnt_to_windows_path (normalized_path r) of
     Some p \<Rightarrow> p | None \<Rightarrow> normalized_path r)"

definition correlate_guest_record ::
    "WslCorrelator \<Rightarrow> GuestWriteRecord \<Rightarrow> u64 \<Rightarrow> WslAttributionResult \<times> WslCorrelator" where
  "correlate_guest_record c r now =
    (let windows_path = windows_path_of r;
         (conf, delta_ms) = classify c r windows_path now
     in (\<lparr>attributed_process_id = guest_process_id r,
          attributed_distribution_id = distribution_id r,
          attributed_path = normalized_path r, attributed_windows_path = windows_path,
          confidence = conf, correlation_delta_ms = delta_ms,
          allow_pid_enforcement = (conf = High)\<rparr>,
         c\<lparr>guest_records := push_then_trim 1000 (guest_records c) r\<rparr>))"

definition guest_record_count :: "WslCorrelator \<Rightarrow> nat" where
  "guest_record_count c = length (guest_records c)"

interpretation host_buffer: rolling_buffer 1000 "push_then_trim 1000 :: HostFileEvent list \<Rightarrow> _ \<Rightarrow> _"
  by unfold_locales (simp_all add: push_then_trim_spec)

interpretation guest_buffer: rolling_buffer 1000 "push_then_trim 1000 :: GuestWriteRecord list \<Rightarrow> _ \<Rightarrow> _"
  by unfold_locales (simp_all add: push_then_trim_spec)

subsection \<open>The life of a correlator\<close>

datatype corr_event =
    HostEvent HostFileEvent
  | GuestRecord GuestWriteRecord u64 \<comment> \<open>record, host time\<close>
  | Exchange exchange \<comment> \<open>through \<open>clock_sync_mut\<close>\<close>

fun corr_step :: "WslCorrelator \<Rightarrow> corr_event \<Rightarrow> WslCorrelator" where
  "corr_step c (HostEvent e) = record_host_event c e"
| "corr_step c (GuestRecord r now) = snd (correlate_guest_record c r now)"
| "corr_step c (Exchange x) = c\<lparr>clock_sync := run_exchanges (clock_sync c) [x]\<rparr>"

definition corr_run :: "bytes \<Rightarrow> u64 \<Rightarrow> corr_event list \<Rightarrow> WslCorrelator" where
  "corr_run d w es = foldl corr_step (correlator_new d w) es"

definition host_inputs :: "corr_event list \<Rightarrow> HostFileEvent list" where
  "host_inputs es = concat (map (\<lambda>e. case e of HostEvent h \<Rightarrow> [h] | _ \<Rightarrow> []) es)"

definition guest_inputs :: "corr_event list \<Rightarrow> GuestWriteRecord list" where
  "guest_inputs es = concat (map (\<lambda>e. case e of GuestRecord r _ \<Rightarrow> [r] | _ \<Rightarrow> []) es)"

definition exchange_inputs :: "corr_event list \<Rightarrow> exchange list" where
  "exchange_inputs es = concat (map (\<lambda>e. case e of Exchange x \<Rightarrow> [x] | _ \<Rightarrow> []) es)"

lemma correlate_state:
  "snd (correlate_guest_record c r now) = c\<lparr>guest_records := push_then_trim 1000 (guest_records c) r\<rparr>"
  by (simp add: correlate_guest_record_def case_prod_beta Let_def)

lemmas corr_defs = correlate_state record_host_event_def host_inputs_def guest_inputs_def
  exchange_inputs_def corr_run_def

lemma corr_run_state:
  "host_events (corr_run d w es) = last_n 1000 (host_inputs es)
   \<and> guest_records (corr_run d w es) = last_n 1000 (guest_inputs es)
   \<and> clock_sync (corr_run d w es) = run_exchanges (synchronizer_new d) (exchange_inputs es)
   \<and> correlation_window_ms (corr_run d w es) = min w 250"
proof (induction es rule: rev_induct)
  case Nil
  show ?case by (simp add: corr_defs correlator_new_def last_n_def kavach_const)
next
  case (snoc e es)
  then show ?case
    by (cases e) (simp_all add: corr_defs push_then_trim_spec last_n_last_n_snoc run_append)
qed

lemma classify_High:
  "fst (classify c r p now) = High \<longleftrightarrow>
     (\<exists>est he. get_valid_estimate (clock_sync c) now = Some est
        \<and> matching_events c p (adjusted_host_ts est r) = [he])"
proof (cases "get_valid_estimate (clock_sync c) now")
  case None
  then show ?thesis by (simp add: classify_def)
next
  case (Some est)
  then have "uncertainty_ns est \<le> 50000000"
    by (auto simp: get_valid_estimate_def kavach_const split: option.splits if_splits)
  with Some show ?thesis
    by (auto simp: classify_def Let_def length_Suc_conv)
qed

lemma correlate_fields:
  "confidence (fst (correlate_guest_record c r now)) = fst (classify c r (windows_path_of r) now)"
  "allow_pid_enforcement (fst (correlate_guest_record c r now))
     = (fst (classify c r (windows_path_of r) now) = High)"
  by (simp_all add: correlate_guest_record_def case_prod_beta Let_def)

lemma window_ns: "w \<le> 250 \<Longrightarrow> unat (w * 1000000 :: u64) = unat w * 1000000"
  by (simp add: unat_word_ariths word_le_nat_alt)

lemma valid_estimate_bound:
  assumes "get_valid_estimate s now = Some est"
  shows "current_estimate s = Some est" "uncertainty_ns est \<le> 50000000"
    "now \<le> valid_until_host_monotonic_ns est" "consecutive_failures s < 3"
  using assms by (auto simp: get_valid_estimate_def kavach_const not_less not_le split: option.splits if_splits)

lemma adjusted_error:
  assumes "abs (offset_ns est - theta) \<le> 50000001"
    and "50000001 \<le> uint (guest_monotonic_ns r) + theta"
    and "uint (guest_monotonic_ns r) + theta + 50000001 < 2 ^ 64"
  shows "abs (uint (adjusted_host_ts est r) - (uint (guest_monotonic_ns r) + theta)) \<le> 50000001"
proof -
  have "uint (adjusted_host_ts est r) = uint (guest_monotonic_ns r) + offset_ns est"
    unfolding adjusted_host_ts_def using assms by (intro uint_of_int_id) auto
  with assms(1) show ?thesis by simp
qed

lemma match_bound:
  assumes "he \<in> set (matching_events c p ts)" "correlation_window_ms c \<le> 250"
  shows "he \<in> set (host_events c)" "eq_ignore_ascii_case (canonical_windows_path he) p"
    "abs (uint (host_timestamp_ns he) - uint ts) \<le> uint (correlation_window_ms c) * 1000000"
proof -
  have "unat (abs_diff (host_timestamp_ns he) ts) \<le> unat (correlation_window_ms c) * 1000000"
    using assms window_ns [of "correlation_window_ms c"]
    by (auto simp: matching_events_def word_le_nat_alt)
  then have "uint (abs_diff (host_timestamp_ns he) ts) \<le> uint (correlation_window_ms c) * 1000000"
    unfolding uint_nat by (metis of_nat_le_iff of_nat_mult of_nat_numeral)
  then show "abs (uint (host_timestamp_ns he) - uint ts) \<le> uint (correlation_window_ms c) * 1000000"
    by (simp add: uint_abs_diff)
qed (use assms in \<open>auto simp: matching_events_def\<close>)

lemma splitn2_drive:
  "CHR ''/'' \<notin> set d \<Longrightarrow> splitn2 (CHR ''/'') (d @ CHR ''/'' # rest) = (d, Some rest)"
  by (simp add: splitn2_def takeWhile_append dropWhile_append)

lemma replace_char_absent [simp]: "a \<notin> set s \<Longrightarrow> replace_char a b s = s"
  by (induction s) (auto simp: replace_char_def)

lemma replace_char_append [simp]: "replace_char a b (s @ t) = replace_char a b s @ replace_char a b t"
  by (simp add: replace_char_def)

lemma translate_drive:
  assumes "d \<noteq> CHR ''/''" "rest \<noteq> []"
  shows "translate_mnt_to_windows_path (''/mnt/'' @ [d] @ ''/'' @ rest)
    = Some ([to_ascii_uppercase_char d, CHR '':'', backslash] @ replace_char (CHR ''/'') backslash rest)"
  using assms splitn2_drive [of "[d]" rest]
  by (simp add: translate_mnt_to_windows_path_def starts_with_def)

definition sample_correlator_events :: "corr_event list" where
  "sample_correlator_events = [Exchange (sample_exchange 10000000),
     HostEvent \<lparr>host_timestamp_ns = 106000000, canonical_windows_path = ''C:'' @ [backslash] @ ''X'',
       is_vmmem_process = True, bytes_written = 4096\<rparr>]"

lemmas corr_eval = corr_run_def sample_correlator_events_def sample_exchange_def sample_record_def
  correlator_new_def record_host_event_def push_then_trim_def get_valid_estimate_def
  adjusted_host_ts_def matching_events_def eq_ignore_ascii_case_def to_ascii_lowercase_def
  to_ascii_lowercase_char_def abs_diff_def windows_path_of_def translate_mnt_to_windows_path_def
  starts_with_def splitn2_def to_ascii_uppercase_char_def

lemma sample_high:
  "allow_pid_enforcement (fst (correlate_guest_record
     (corr_run [] 100 (sample_correlator_events @ [])) ((sample_record ''/mnt/c/x'' 1)\<lparr>guest_monotonic_ns := 100000000\<rparr>) 20000000))"
  by (simp add: correlate_fields classify_def corr_eval clock_eval kavach_const char_of_eval)

subsection \<open>Properties\<close>


text \<open>C6: attribution with enforcement is right about time: with an honest guest and a constant
  true offset, after any interleaving of exchanges, host events and guest records, an
  enforceable record was matched with a host event on the same path that happened within the
  configured window (at most 250 ms) plus 50 ms and 1 ns of the true host time of the write.
  The hypotheses on the time stamp only keep the adjusted time inside the \<open>u64\<close> range.\<close>

theorem enforced_attribution_in_window:
  assumes "\<forall>x \<in> set (exchange_inputs es). accepted x \<longrightarrow> honest theta x" and "abs theta < 2 ^ 62"
    and "50000001 \<le> uint (guest_monotonic_ns r) + theta"
    and "uint (guest_monotonic_ns r) + theta + 50000001 < 2 ^ 64"
    and "allow_pid_enforcement (fst (correlate_guest_record (corr_run d w es) r now))"
  shows "\<exists>he \<in> set (host_inputs es).
      eq_ignore_ascii_case (canonical_windows_path he) (windows_path_of r)
      \<and> abs (uint (host_timestamp_ns he) - (uint (guest_monotonic_ns r) + theta))
          \<le> uint (min w 250) * 1000000 + 50000001"
proof -
  let ?c = "corr_run d w es"
  note st = corr_run_state [of d w es]
  obtain est he where est: "get_valid_estimate (clock_sync ?c) now = Some est"
      and he: "matching_events ?c (windows_path_of r) (adjusted_host_ts est r) = [he]"
    using assms(5) by (auto simp: correlate_fields classify_High)
  note bound = valid_estimate_bound [OF est]
  have "abs (offset_ns est - theta) \<le> uint (uncertainty_ns est) + 1"
    using assms(1,2) bound(1) st by (intro run_estimate_sound) auto
  moreover have "uint (uncertainty_ns est) \<le> 50000000" using bound(2) by (simp add: word_le_def)
  ultimately have adj: "abs (uint (adjusted_host_ts est r) - (uint (guest_monotonic_ns r) + theta)) \<le> 50000001"
    using assms(3,4) by (intro adjusted_error) auto
  have "correlation_window_ms ?c \<le> 250" using st by simp
  note m = match_bound [OF _ this, of he "windows_path_of r" "adjusted_host_ts est r"]
  have "he \<in> set (host_inputs es)"
    using m(1) he st set_last_n [of 1000 "host_inputs es"] by auto
  moreover have "abs (uint (host_timestamp_ns he) - (uint (guest_monotonic_ns r) + theta))
      \<le> uint (min w 250) * 1000000 + 50000001"
    using m(3) he st adj by simp
  ultimately show ?thesis using m(2) he by auto
qed

theorem enforced_attribution_in_window_witness:
  "\<exists>he \<in> set (host_inputs sample_correlator_events).
      eq_ignore_ascii_case (canonical_windows_path he)
        (windows_path_of ((sample_record ''/mnt/c/x'' 1)\<lparr>guest_monotonic_ns := 100000000\<rparr>))
      \<and> abs (uint (host_timestamp_ns he) - (100000000 + 5000000))
          \<le> uint (min 100 250 :: u64) * 1000000 + 50000001"
  using enforced_attribution_in_window [OF _ _ _ _ sample_high, of 5000000]
  by (simp add: sample_correlator_events_def exchange_inputs_def honest_def sample_exchange_def)

text \<open>After any sequence of operations the correlator holds exactly the last thousand host
  events and guest records in order, its clock state is that of its exchanges alone, and
  its window is never above 250 ms, whatever was configured.\<close>

theorem correlator_buffers_bounded:
  "host_events (corr_run d w es) = last_n 1000 (host_inputs es)
   \<and> guest_records (corr_run d w es) = last_n 1000 (guest_inputs es)
   \<and> guest_record_count (corr_run d w es) \<le> 1000
   \<and> clock_sync (corr_run d w es) = run_exchanges (synchronizer_new d) (exchange_inputs es)
   \<and> correlation_window_ms (corr_run d w es) \<le> 250"
  using corr_run_state [of d w es] by (simp add: guest_record_count_def)

text \<open>Translating a mounted path keeps its components: below a one-letter drive, the Windows
  path split at its separator is the drive and the segments of the guest path, as long as
  no segment contains a backslash.\<close>

theorem translate_keeps_components:
  assumes "d \<noteq> CHR ''/''" "d \<noteq> backslash" "segs \<noteq> []"
    and "\<forall>s \<in> set segs. plain_segment s \<and> backslash \<notin> set s"
  shows "\<exists>w. translate_mnt_to_windows_path (''/mnt/'' @ [d] @ ''/'' @ join_with (CHR ''/'') segs) = Some w
     \<and> split_on backslash w = [to_ascii_uppercase_char d, CHR '':''] # segs"
proof -
  have ne: "join_with (CHR ''/'') segs \<noteq> []"
    using assms(3,4) by (cases segs; cases "tl segs") (auto simp: plain_segment_def)
  have nb: "backslash \<notin> set (join_with (CHR ''/'') segs)"
    using assms(4) by (induction "CHR ''/''" segs rule: join_with.induct) auto
  have split: "split_on (CHR ''/'') (join_with (CHR ''/'') segs) = segs"
    using assms(3,4) by (intro split_join) (auto simp: plain_segment_def)
  have up: "to_ascii_uppercase_char d \<noteq> backslash"
    using assms(2) by (rule uppercase_not_backslash)
  show ?thesis
    using translate_drive [OF assms(1) ne] up split_on_replace [OF nb, of "CHR ''/''"] split by simp
qed

theorem translate_keeps_components_witness:
  "\<exists>w. translate_mnt_to_windows_path (''/mnt/'' @ ''d'' @ ''/'' @ join_with (CHR ''/'') [''a'', ''b'']) = Some w
     \<and> split_on backslash w = [to_ascii_uppercase_char (CHR ''d''), CHR '':''] # [''a'', ''b'']"
  by (rule translate_keeps_components) (simp_all add: plain_segment_def)

text \<open>The path check does not know the Windows separator: a single guest segment with
  backslashes passes as normalized and translates to a Windows path that climbs out of the
  drive's directory.\<close>

theorem backslash_segment_escapes:
  "let p = ''/mnt/c/a/..'' @ [backslash] @ ''..'' @ [backslash] @ ''x'';
       w = ''C:'' @ [backslash] @ ''a'' @ [backslash] @ ''..'' @ [backslash] @ ''..'' @ [backslash] @ ''x''
   in is_normalized_mnt_path p \<and> translate_mnt_to_windows_path p = Some w"
  by (simp add: is_normalized_mnt_path_def starts_with_def translate_mnt_to_windows_path_def
      splitn2_def to_ascii_uppercase_char_def replace_char_def char_of_eval)

end
