(* ===== verification/Kavach_Pack.thy ===== *)
theory Kavach_Pack
  imports Kavach_Manifest Kavach_Onnx
begin

section \<open>The packaging tool\<close>

text \<open>
  Models \<open>tools/kavach-pack/src/main.rs\<close>: key generation, the stub model, signing, verification and
  the development bundle, on a disk that maps paths to contents. The signing side of
  \<open>ed25519-dalek\<close>, the random key, path manipulation and the failures of the file system are
  parameters. A command is a function of the disk that returns a result and the disk after it;
  \<open>Panic\<close> is the panic of \<open>copy_from_slice\<close>. Console output is left out.
\<close>

record ('k, 'g) signing = "'k crypto" +
  generate_key :: 'g \<comment> \<open>\<open>SigningKey::generate(&mut OsRng)\<close>\<close>
  verifying_key :: "'g \<Rightarrow> 'k"
  key_to_bytes :: "'k \<Rightarrow> bytes"
  signing_to_bytes :: "'g \<Rightarrow> bytes"
  signing_from_bytes :: "bytes \<Rightarrow> 'g"
  sign :: "'g \<Rightarrow> bytes \<Rightarrow> bytes"

record pack_os =
  pk_join :: "string \<Rightarrow> string \<Rightarrow> string"
  pk_parent :: "string \<Rightarrow> string option"
  create_dir_error :: "string \<Rightarrow> string option"
  write_error :: "string \<Rightarrow> string option"
  read_error :: "string \<Rightarrow> string" \<comment> \<open>of a path that holds no file\<close>
  utf8_error :: "string \<Rightarrow> string" \<comment> \<open>of a file that is not text\<close>

type_synonym disk = "string \<rightharpoonup> bytes"

datatype failure = Message string | Panic

type_synonym 'a command = "disk \<Rightarrow> (failure + 'a) \<times> disk"

subsection \<open>Commands in sequence\<close>

definition ok :: "'a \<Rightarrow> 'a command" where
  "ok x d = (Ok x, d)"

definition fail :: "string \<Rightarrow> 'a command" where
  "fail msg d = (Err (Message msg), d)"

definition andThen :: "'a command \<Rightarrow> ('a \<Rightarrow> 'b command) \<Rightarrow> 'b command" where
  \<comment> \<open>the operator \<open>?\<close>: stop at the first error, keeping what was written\<close>
  "andThen m f d = (case m d of (Err e, d') \<Rightarrow> (Err e, d') | (Ok x, d') \<Rightarrow> f x d')"

definition create_dir_all :: "pack_os \<Rightarrow> string \<Rightarrow> (string \<Rightarrow> string) \<Rightarrow> unit command" where
  "create_dir_all os path msg = (case create_dir_error os path of Some e \<Rightarrow> fail (msg e) | None \<Rightarrow> ok ())"

definition write_file :: "pack_os \<Rightarrow> string \<Rightarrow> bytes \<Rightarrow> (string \<Rightarrow> string) \<Rightarrow> unit command" where
  "write_file os path data msg d = (case write_error os path of
     Some e \<Rightarrow> (Err (Message (msg e)), d) | None \<Rightarrow> (Ok (), d(path \<mapsto> data)))"

definition read_file :: "pack_os \<Rightarrow> string \<Rightarrow> (string \<Rightarrow> string) \<Rightarrow> bytes command" where
  "read_file os path msg d = (case d path of
     Some data \<Rightarrow> (Ok data, d) | None \<Rightarrow> (Err (Message (msg (read_error os path))), d))"

definition files_of :: "pack_os \<Rightarrow> disk \<Rightarrow> files" where
  \<comment> \<open>the file system as the verifier sees it\<close>
  "files_of os d = \<lparr>path_join = pk_join os,
     read_bytes = (\<lambda>p. case d p of Some data \<Rightarrow> Ok data | None \<Rightarrow> Err (read_error os p)),
     read_text = (\<lambda>p. case d p of
       Some data \<Rightarrow> (case from_utf8 data of Some s \<Rightarrow> Ok s | None \<Rightarrow> Err (utf8_error os p))
     | None \<Rightarrow> Err (read_error os p))\<rparr>"

subsection \<open>The commands\<close>

fun pack_parse_arg :: "string list \<Rightarrow> string \<Rightarrow> string option" where
  "pack_parse_arg [] flag = None"
| "pack_parse_arg [a] flag = None"
| "pack_parse_arg (a # b # rest) flag = (if a = flag then Some b else pack_parse_arg (b # rest) flag)"

definition arg_or :: "string list \<Rightarrow> string \<Rightarrow> string \<Rightarrow> string" where
  "arg_or args flag def = (case pack_parse_arg args flag of Some v \<Rightarrow> v | None \<Rightarrow> def)"

definition parse_i64 :: "string \<Rightarrow> i64 option" where
  \<comment> \<open>\<open>i64::from_str\<close>\<close>
  "parse_i64 s = (case s of
     CHR ''-'' # t \<Rightarrow> if t = [] then None
       else (case parse_digits 0 t of Some n \<Rightarrow> if n \<le> 2 ^ 63 then Some (- int n) else None | None \<Rightarrow> None)
   | _ \<Rightarrow> map_option int (parse_unsigned (2 ^ 63) s))"

definition write_named :: "pack_os \<Rightarrow> string \<Rightarrow> bytes \<Rightarrow> unit command" where
  "write_named os path data = write_file os path data (\<lambda>e. ''write '' @ path @ '': '' @ e)"

definition cmd_keygen :: "pack_os \<Rightarrow> ('k, 'g, 'x) signing_scheme \<Rightarrow> string list \<Rightarrow> unit command" where
  "cmd_keygen os lib args =
    (let out_dir = arg_or args ''--output'' ''keys'';
         signing_key = generate_key lib;
         pub_bytes = key_to_bytes lib (verifying_key lib signing_key);
         priv_bytes = signing_to_bytes lib signing_key
     in andThen (create_dir_all os out_dir (\<lambda>e. ''failed to create dir '' @ out_dir @ '': '' @ e)) (\<lambda>_.
        andThen (write_named os (pk_join os out_dir ''sign.key'') priv_bytes) (\<lambda>_.
        andThen (write_named os (pk_join os out_dir ''sign.key.hex'') (as_bytes (hex_encode lib priv_bytes))) (\<lambda>_.
        andThen (write_named os (pk_join os out_dir ''pub.key'') pub_bytes) (\<lambda>_.
        write_named os (pk_join os out_dir ''pub.key.hex'') (as_bytes (hex_encode lib pub_bytes)))))))"

definition cmd_stub_onnx :: "pack_os \<Rightarrow> string list \<Rightarrow> unit command" where
  "cmd_stub_onnx os args =
    (let out_file = arg_or args ''--output'' ''models/active/kavach_multitask_int8.onnx'';
         opset_version = (case Option.bind (pack_parse_arg args ''--opset'') parse_i64 of Some n \<Rightarrow> n | None \<Rightarrow> 21);
         onnx_bytes = generate_kavach_stub_onnx opset_version
     in andThen (case pk_parent os out_file of
            Some parent \<Rightarrow> create_dir_all os parent (\<lambda>e. ''failed to create parent dir for '' @ out_file @ '': '' @ e)
          | None \<Rightarrow> ok ()) (\<lambda>_.
        write_named os out_file onnx_bytes))"

definition key_array :: "string \<Rightarrow> ('k, 'x) crypto_scheme \<Rightarrow> string \<Rightarrow> bytes \<Rightarrow> failure + bytes" where
  \<comment> \<open>the 32 bytes of a key file, raw or as 64 hexadecimal characters; \<open>what\<close> names it in messages\<close>
  "key_array what lib path data =
    (let wrong = Err (Message (path @ '' must be 32 raw bytes or 64 hex characters (found ''
           @ show_nat (length data) @ '' bytes)'')) in
     if length data = 32 then Ok data
     else case from_utf8 data of
       None \<Rightarrow> wrong
     | Some text \<Rightarrow>
       if length (trim text) = 64 then
         (case hex_decode lib (trim text) of
            Err e \<Rightarrow> Err (Message (''hex decode '' @ what @ '': '' @ e))
          | Ok arr \<Rightarrow> if length arr = 32 then Ok arr else Err Panic)
       else wrong)"

definition load_signing_key ::
    "pack_os \<Rightarrow> ('k, 'g, 'x) signing_scheme \<Rightarrow> string \<Rightarrow> 'g command" where
  "load_signing_key os lib path =
     andThen (read_file os path (\<lambda>e. ''failed to read key file '' @ path @ '': '' @ e)) (\<lambda>data d.
       (case key_array ''key'' lib (''key file '' @ path) data of
          Err e \<Rightarrow> (Err e, d)
        | Ok arr \<Rightarrow> (Ok (signing_from_bytes lib arr), d)))"

definition load_verifying_key ::
    "pack_os \<Rightarrow> ('k, 'g, 'x) signing_scheme \<Rightarrow> string option \<Rightarrow> 'k command" where
  "load_verifying_key os lib path = (case path of
     Some p \<Rightarrow> andThen (read_file os p (\<lambda>e. ''read pubkey '' @ p @ '': '' @ e)) (\<lambda>data d.
       (case key_array ''pubkey'' lib (''pubkey '' @ p) data of
          Err e \<Rightarrow> (Err e, d)
        | Ok arr \<Rightarrow> (map_err (\<lambda>e. Message (''invalid ed25519 verifying key: '' @ e)) (key_from_bytes lib arr), d)))
   | None \<Rightarrow> (\<lambda>d. (case pinned_reference_verifying_key lib of Some k \<Rightarrow> Ok k | None \<Rightarrow> Err Panic, d)))"

definition cmd_sign ::
    "pack_os \<Rightarrow> ('k, 'g, 'x) signing_scheme \<Rightarrow> json \<Rightarrow> string list \<Rightarrow> unit command" where
  "cmd_sign os lib js args =
    (case pack_parse_arg args ''--key'' of
       None \<Rightarrow> fail ''missing required --key flag''
     | Some key_file \<Rightarrow>
     (case pack_parse_arg args ''--manifest'' of
       None \<Rightarrow> fail ''missing required --manifest flag''
     | Some manifest_file \<Rightarrow>
       let output_file = arg_or args ''--output''
             (pk_join os (case pk_parent os manifest_file of Some p \<Rightarrow> p | None \<Rightarrow> ''.'') ''manifest.sig'')
       in andThen (load_signing_key os lib key_file) (\<lambda>signing_key.
          andThen (read_file os manifest_file (\<lambda>e. ''read manifest '' @ manifest_file @ '': '' @ e)) (\<lambda>manifest_bytes.
          (case parse_manifest js manifest_bytes of
             Err e \<Rightarrow> fail (''manifest validation failed: '' @ e)
           | Ok _ \<Rightarrow>
             write_named os output_file
               (as_bytes (encode_base64 (sign lib signing_key (sha256_digest lib manifest_bytes)))))))))"

definition cmd_verify ::
    "pack_os \<Rightarrow> ('k, 'g, 'x) signing_scheme \<Rightarrow> json \<Rightarrow> string list \<Rightarrow> unit command" where
  "cmd_verify os lib js args =
    (let bundle_dir = arg_or args ''--bundle'' ''models/active'';
         min_rollback = (case Option.bind (pack_parse_arg args ''--rollback'') parse_u64 of Some n \<Rightarrow> n | None \<Rightarrow> 1)
     in andThen (load_verifying_key os lib (pack_parse_arg args ''--pubkey'')) (\<lambda>key d.
        (case verify_bundle_dir lib js (files_of os d) bundle_dir key min_rollback of
           Ok _ \<Rightarrow> (Ok (), d)
         | Err e \<Rightarrow> (Err (Message (show_DegradedReason e)), d))))"

subsection \<open>The development bundle\<close>

definition manifest_lines :: "string \<Rightarrow> string list" where
  \<comment> \<open>the text of the manifest, with a back quote for every double quote\<close>
  "manifest_lines digest = [
     ''{'',
     ''  `artifact_version`: {'',
     ''    `major`: 1,'',
     ''    `minor`: 0'',
     ''  },'',
     ''  `bundle_version`: `0.1.0-dev`,'',
     ''  `rollback_generation`: 1,'',
     ''  `created_at`: `2026-09-23T00:00:00Z`,'',
     ''  `key_id`: `reference-model-2026-b`,'',
     ''  `onnx`: {'',
     ''    `file`: `kavach_multitask_int8.onnx`,'',
     ''    `sha256`: `'' @ digest @ ''`,'',
     ''    `opset`: 21,'',
     ''    `quantization`: `int8_qdq`'',
     ''  },'',
     ''  `tensors`: ['',
     ''    {'',
     ''      `name`: `io_input`,'',
     ''      `direction`: `input`,'',
     ''      `dtype`: `int8`,'',
     ''      `shape`: [1, 10, 4]'',
     ''    },'',
     ''    {'',
     ''      `name`: `io_score`,'',
     ''      `direction`: `output`,'',
     ''      `dtype`: `float32`,'',
     ''      `shape`: [1, 1]'',
     ''    },'',
     ''    {'',
     ''      `name`: `net_input`,'',
     ''      `direction`: `input`,'',
     ''      `dtype`: `int8`,'',
     ''      `shape`: [1, 32, 4]'',
     ''    },'',
     ''    {'',
     ''      `name`: `net_score`,'',
     ''      `direction`: `output`,'',
     ''      `dtype`: `float32`,'',
     ''      `shape`: [1, 1]'',
     ''    },'',
     ''    {'',
     ''      `name`: `audit_input`,'',
     ''      `direction`: `input`,'',
     ''      `dtype`: `int8`,'',
     ''      `shape`: [1, 16, 4]'',
     ''    },'',
     ''    {'',
     ''      `name`: `audit_score`,'',
     ''      `direction`: `output`,'',
     ''      `dtype`: `float32`,'',
     ''      `shape`: [1, 1]'',
     ''    }'',
     ''  ],'',
     ''  `compatibility`: {'',
     ''    `detector`: {'',
     ''      `min_inclusive`: `0.1.0`,'',
     ''      `max_exclusive`: `0.2.0`'',
     ''    },'',
     ''    `onnx_runtime`: {'',
     ''      `min_inclusive`: `1.20.0`,'',
     ''      `max_exclusive`: `1.22.0`'',
     ''    }'',
     ''  },'',
     ''  `evaluation_report_sha256`: `0123456789abcdef0123456789abcdef0123456789abcdef0123456789abcdef`,'',
     ''  `sbom_sha256`: `0123456789abcdef0123456789abcdef0123456789abcdef0123456789abcdef`'',
     ''}'']"

definition manifest_content :: "string \<Rightarrow> string" where
  "manifest_content digest = join_with (CHR 0x0A) (map (replace_char (CHR 0x60) (CHR 0x22)) (manifest_lines digest))"

definition create_dev_bundle ::
    "pack_os \<Rightarrow> ('k, 'g, 'x) signing_scheme \<Rightarrow> json \<Rightarrow> string \<Rightarrow> string \<Rightarrow> unit command" where
  "create_dev_bundle os lib js bundle_dir keys_dir =
    (let signing_key = generate_key lib;
         key = verifying_key lib signing_key;
         pub_bytes = key_to_bytes lib key;
         onnx_bytes = generate_kavach_stub_onnx 21;
         onnx_file = pk_join os bundle_dir ''kavach_multitask_int8.onnx'';
         content = as_bytes (manifest_content (hex_encode lib (sha256_digest lib onnx_bytes)));
         sig_b64 = encode_base64 (sign lib signing_key (sha256_digest lib content))
     in andThen (create_dir_all os bundle_dir (\<lambda>e. ''failed to create dir '' @ bundle_dir @ '': '' @ e)) (\<lambda>_.
        andThen (create_dir_all os keys_dir (\<lambda>e. ''failed to create dir '' @ keys_dir @ '': '' @ e)) (\<lambda>_.
        andThen (write_file os (pk_join os keys_dir ''dev_root.key'') (signing_to_bytes lib signing_key)
          (\<lambda>e. ''write dev_root.key: '' @ e)) (\<lambda>_.
        andThen (write_file os (pk_join os keys_dir ''dev_root.pub'') pub_bytes
          (\<lambda>e. ''write dev_root.pub: '' @ e)) (\<lambda>_.
        andThen (write_file os (pk_join os keys_dir ''dev_root.pub.hex'') (as_bytes (hex_encode lib pub_bytes))
          (\<lambda>e. ''write dev_root.pub.hex: '' @ e)) (\<lambda>_.
        andThen (write_named os onnx_file onnx_bytes) (\<lambda>_.
        andThen (write_named os (pk_join os bundle_dir ''manifest.json'') content) (\<lambda>_.
        andThen (write_named os (pk_join os bundle_dir ''manifest.sig'') (as_bytes sig_b64)) (\<lambda>_ d.
        (case verify_bundle_dir lib js (files_of os d) bundle_dir key 1 of
           Ok _ \<Rightarrow> (Ok (), d)
         | Err e \<Rightarrow> (Err (Message (''self-verification of generated bundle failed: '' @ show_DegradedReason e)), d)))))))))))"

definition cmd_init_dev ::
    "pack_os \<Rightarrow> ('k, 'g, 'x) signing_scheme \<Rightarrow> json \<Rightarrow> string list \<Rightarrow> unit command" where
  "cmd_init_dev os lib js args = create_dev_bundle os lib js
     (arg_or args ''--bundle-dir'' ''models/active'') (arg_or args ''--keys-dir'' ''keys'')"

datatype pack_exit = Exit nat | Panicked

definition pack_main ::
    "pack_os \<Rightarrow> ('k, 'g, 'x) signing_scheme \<Rightarrow> json \<Rightarrow> string list \<Rightarrow> disk \<Rightarrow> pack_exit \<times> disk" where
  \<comment> \<open>\<open>args\<close> holds the program name first\<close>
  "pack_main os lib js args d =
    (if length args < 2 then (Exit 0, d)
     else
       let cmd = args ! 1; rest = drop 2 args;
           (res, d') = (if cmd = ''keygen'' then cmd_keygen os lib rest d
             else if cmd = ''stub-onnx'' then cmd_stub_onnx os rest d
             else if cmd = ''sign'' then cmd_sign os lib js rest d
             else if cmd = ''verify'' then cmd_verify os lib js rest d
             else if cmd = ''init-dev'' then cmd_init_dev os lib js rest d
             else if cmd \<in> {''--help'', ''-h'', ''help''} then (Ok (), d)
             else (Err (Message (''unknown subcommand: '' @ cmd)), d))
       in ((case res of Ok _ \<Rightarrow> Exit 0 | Err (Message _) \<Rightarrow> Exit 1 | Err Panic \<Rightarrow> Panicked), d'))"

subsection \<open>What the commands leave on the disk\<close>

lemma andThen_ok [simp]: "andThen (ok x) f d = f x d"
  by (simp add: andThen_def ok_def)

lemma andThen_write: "write_error os p = None \<Longrightarrow> andThen (write_file os p data msg) f d = f () (d(p \<mapsto> data))"
  by (simp add: andThen_def write_file_def)

lemma andThen_write_named: "write_error os p = None \<Longrightarrow> andThen (write_named os p data) f d = f () (d(p \<mapsto> data))"
  by (simp add: write_named_def andThen_write)

lemma write_last: "write_error os p = None \<Longrightarrow> write_named os p data d = (Ok (), d(p \<mapsto> data))"
  by (simp add: write_named_def write_file_def)

lemma andThen_read: "d p = Some data \<Longrightarrow> andThen (read_file os p msg) f d = f data d"
  by (simp add: andThen_def read_file_def)

lemma printable_ascii: "printable c \<Longrightarrow> byte_of c < 0x80"
  by (simp add: printable_def word_less_nat_alt unat_byte_of)

definition ed25519_sound :: "('k, 'g, 'x) signing_scheme \<Rightarrow> bool" where
  \<comment> \<open>what the tool relies on of \<open>ed25519-dalek\<close> and \<open>hex\<close>: keys survive their 32-byte encodings, own
    signatures verify, hexadecimal text is lower-case, printable and decodes back\<close>
  "ed25519_sound lib \<longleftrightarrow>
     (\<forall>k. key_from_bytes lib (key_to_bytes lib k) = Ok k \<and> length (key_to_bytes lib k) = 32)
     \<and> (\<forall>g. signing_from_bytes lib (signing_to_bytes lib g) = g \<and> length (signing_to_bytes lib g) = 32)
     \<and> (\<forall>g m. verify_strict lib (verifying_key lib g) m (sign lib g m) = Ok () \<and> length (sign lib g m) = 64)
     \<and> (\<forall>b. hex_decode lib (hex_encode lib b) = Ok b \<and> length (hex_encode lib b) = 2 * length b
          \<and> list_all printable (hex_encode lib b) \<and> to_ascii_lowercase (hex_encode lib b) = hex_encode lib b)"

definition writable :: "pack_os \<Rightarrow> bool" where
  "writable os \<longleftrightarrow> create_dir_error os = (\<lambda>_. None) \<and> write_error os = (\<lambda>_. None)"

lemma printable_text: "list_all printable t \<Longrightarrow> from_utf8 (as_bytes t) = Some t \<and> trim t = t"
proof
  assume t: "list_all printable t"
  then have "\<forall>b \<in> set (as_bytes t). b < 0x80" using printable_ascii by (auto simp: list_all_iff as_bytes_def)
  then show "from_utf8 (as_bytes t) = Some t" by (intro from_utf8_as_bytes valid_utf8_ascii)
  show "trim t = t" using t trim_printable [of t] by (simp add: list_all_iff)
qed

lemma base64_text: "from_utf8 (as_bytes (encode_base64 bs)) = Some (encode_base64 bs)"
  using printable_text [of "encode_base64 bs"] encode_printable by (auto simp: list_all_iff)

lemma key_array_raw: "length data = 32 \<Longrightarrow> key_array what lib p data = Ok data"
  by (simp add: key_array_def)

lemma key_array_hex:
  "ed25519_sound lib \<Longrightarrow> length data = 32 \<Longrightarrow> key_array what lib p (as_bytes (hex_encode lib data)) = Ok data"
  using printable_text [of "hex_encode lib data"]
  by (simp add: key_array_def ed25519_sound_def)

lemma load_signing_key_from:
  assumes "ed25519_sound lib" "d path = Some data"
    and "data = signing_to_bytes lib g \<or> data = as_bytes (hex_encode lib (signing_to_bytes lib g))"
  shows "load_signing_key os lib path d = (Ok g, d)"
proof -
  have "key_array ''key'' lib (''key file '' @ path) data = Ok (signing_to_bytes lib g)"
    using assms(1,3) key_array_hex [OF assms(1), of "signing_to_bytes lib g"]
    by (auto simp: ed25519_sound_def intro: key_array_raw)
  then show ?thesis using assms(1,2) by (simp add: load_signing_key_def andThen_read ed25519_sound_def)
qed

lemma load_verifying_key_from:
  assumes "ed25519_sound lib" "d path = Some data"
    and "data = key_to_bytes lib k \<or> data = as_bytes (hex_encode lib (key_to_bytes lib k))"
  shows "load_verifying_key os lib (Some path) d = (Ok k, d)"
proof -
  have "key_array ''pubkey'' lib (''pubkey '' @ path) data = Ok (key_to_bytes lib k)"
    using assms(1,3) key_array_hex [OF assms(1), of "key_to_bytes lib k"]
    by (auto simp: ed25519_sound_def intro: key_array_raw)
  then show ?thesis using assms(1,2) by (simp add: load_verifying_key_def andThen_read ed25519_sound_def)
qed

text \<open>A signature of the tool over the manifest on the disk, beside the model it names, verifies.\<close>

lemma signed_bundle_verifies:
  fixes os lib js d dir g mb m ob
  defines "j \<equiv> pk_join os dir"
  assumes "ed25519_sound lib"
    and "d (j ''manifest.json'') = Some mb" "d (j name) = Some ob"
    and "d (j ''manifest.sig'') = Some (as_bytes (encode_base64 (sign lib g (sha256_digest lib mb))))"
    and "parse_onnx_file js mb = Ok (Some name)" "parse_manifest js mb = Ok m"
    and "major (manifest_version m) = 1" "min_rollback \<le> rollback_generation m"
    and "onnx_sha256 (onnx m) = hex_encode lib (sha256_digest lib ob)"
  shows "verify_bundle_dir lib js (files_of os d) dir (verifying_key lib g) min_rollback = Ok m"
  unfolding verify_bundle_Ok manifest_accepted_def
  using assms by (auto simp: files_of_def base64_text decode_encode ed25519_sound_def)

definition dev_files :: "pack_os \<Rightarrow> string \<Rightarrow> string \<Rightarrow> string list" where
  "dev_files os bundle_dir keys_dir =
    map (pk_join os keys_dir) [''dev_root.key'', ''dev_root.pub'', ''dev_root.pub.hex'']
    @ map (pk_join os bundle_dir) [''kavach_multitask_int8.onnx'', ''manifest.json'', ''manifest.sig'']"

definition stub_digest :: "('k, 'x) crypto_scheme \<Rightarrow> string" where
  "stub_digest lib = hex_encode lib (sha256_digest lib (generate_kavach_stub_onnx 21))"

subsection \<open>Properties\<close>


definition sample_hex :: "bytes \<Rightarrow> string" where
  "sample_hex b = concat (map (\<lambda>x. [char_of (97 + unat x div 16), char_of (97 + unat x mod 16)]) b)"

fun sample_unhex :: "string \<Rightarrow> bytes" where
  "sample_unhex (h # l # r) = word_of_nat (16 * (of_char h - 97) + (of_char l - 97)) # sample_unhex r"
| "sample_unhex _ = []"

definition sample_signing :: "(unit, unit) signing" where
  \<comment> \<open>one key, a digest and an encoding that lose nothing\<close>
  "sample_signing = \<lparr>sha256_digest = (\<lambda>b. b), verify_strict = (\<lambda>_ _ _. Ok ()), hex_encode = sample_hex,
     hex_decode = (\<lambda>s. Ok (sample_unhex s)), key_from_bytes = (\<lambda>_. Ok ()), generate_key = (),
     verifying_key = (\<lambda>_. ()), key_to_bytes = (\<lambda>_. replicate 32 1), signing_to_bytes = (\<lambda>_. replicate 32 2),
     signing_from_bytes = (\<lambda>_. ()), sign = (\<lambda>_ _. replicate 64 3)\<rparr>"

definition sample_pack_os :: pack_os where
  "sample_pack_os = \<lparr>pk_join = (\<lambda>a b. a @ ''/'' @ b), pk_parent = (\<lambda>_. None), create_dir_error = (\<lambda>_. None),
     write_error = (\<lambda>_. None), read_error = (\<lambda>_. ''not found''), utf8_error = (\<lambda>_. ''not text'')\<rparr>"

definition sample_pack_json :: json where
  "sample_pack_json = \<lparr>parse_manifest = (\<lambda>_. Ok (sample_manifest\<lparr>onnx := (onnx sample_manifest)\<lparr>onnx_sha256 := stub_digest sample_signing\<rparr>\<rparr>)),
     parse_onnx_file = (\<lambda>_. Ok (Some ''kavach_multitask_int8.onnx''))\<rparr>"

lemma sample_hex_simps [simp]: "sample_hex [] = []"
  "sample_hex (x # b) = char_of (97 + unat x div 16) # char_of (97 + unat x mod 16) # sample_hex b"
  by (simp_all add: sample_hex_def)

lemma nibble: "n < 16 \<Longrightarrow> of_char (char_of (97 + n :: nat) :: char) = 97 + n"
  by simp

lemma sample_hex_laws:
  "sample_unhex (sample_hex b) = b" "length (sample_hex b) = 2 * length b" "list_all printable (sample_hex b)"
  "to_ascii_lowercase (sample_hex b) = sample_hex b"
proof -
  have n: "unat x div 16 < 16" "unat x mod 16 < 16" for x :: u8 using unat_bound [of x] by simp_all
  have c: "of_char (char_of (97 + unat x div 16) :: char) = 97 + unat x div 16"
    "of_char (char_of (97 + unat x mod 16) :: char) = 97 + unat x mod 16" for x :: u8
    using n [of x] by (simp_all only: nibble)
  show "sample_unhex (sample_hex b) = b" by (induction b) (simp_all add: c del: of_char_of)
  show "length (sample_hex b) = 2 * length b" by (induction b) simp_all
  have "printable (char_of (97 + unat x div 16))" "printable (char_of (97 + unat x mod 16))" for x :: u8
    using n [of x] by (simp_all only: printable_def c) simp_all
  then show "list_all printable (sample_hex b)" by (induction b) simp_all
  show "to_ascii_lowercase (sample_hex b) = sample_hex b"
    by (induction b) (simp_all add: to_ascii_lowercase_def to_ascii_lowercase_char_def c Let_def del: of_char_of)
qed

lemma sample_signing_sound: "ed25519_sound sample_signing"
  by (simp add: ed25519_sound_def sample_signing_def sample_hex_laws)


text \<open>Generated keys can be used: after \<open>keygen\<close> on a disk that takes the writes, the signing key
  and the public key read back from either of their two files, raw or hexadecimal, are the
  generated ones.\<close>

theorem keygen_roundtrip:
  fixes os lib dir d
  defines "d' \<equiv> snd (cmd_keygen os lib [''--output'', dir] d)" and "j \<equiv> pk_join os dir"
  assumes "ed25519_sound lib" "writable os"
    and "distinct (map j [''sign.key'', ''sign.key.hex'', ''pub.key'', ''pub.key.hex''])"
  shows "fst (cmd_keygen os lib [''--output'', dir] d) = Ok ()
   \<and> fst (load_signing_key os lib (j ''sign.key'') d') = Ok (generate_key lib)
   \<and> fst (load_signing_key os lib (j ''sign.key.hex'') d') = Ok (generate_key lib)
   \<and> fst (load_verifying_key os lib (Some (j ''pub.key'')) d') = Ok (verifying_key lib (generate_key lib))
   \<and> fst (load_verifying_key os lib (Some (j ''pub.key.hex'')) d') = Ok (verifying_key lib (generate_key lib))"
proof -
  let ?g = "generate_key lib"
  let ?pub = "key_to_bytes lib (verifying_key lib ?g)" and ?priv = "signing_to_bytes lib ?g"
  have run: "cmd_keygen os lib [''--output'', dir] d = (Ok (), d(j ''sign.key'' \<mapsto> ?priv,
      j ''sign.key.hex'' \<mapsto> as_bytes (hex_encode lib ?priv), j ''pub.key'' \<mapsto> ?pub, j ''pub.key.hex'' \<mapsto> as_bytes (hex_encode lib ?pub)))"
    using assms(4) by (simp add: cmd_keygen_def arg_or_def create_dir_all_def writable_def andThen_write_named j_def
        write_last Let_def)
  then have f: "d' (j ''sign.key'') = Some ?priv" "d' (j ''sign.key.hex'') = Some (as_bytes (hex_encode lib ?priv))"
      "d' (j ''pub.key'') = Some ?pub" "d' (j ''pub.key.hex'') = Some (as_bytes (hex_encode lib ?pub))"
    using assms(5) by (simp_all add: d'_def)
  note sk = load_signing_key_from [OF assms(3), where d = d' and g = ?g and os = os]
    and vk = load_verifying_key_from [OF assms(3), where d = d' and k = "verifying_key lib ?g" and os = os]
  show ?thesis
    using run by (simp add: sk [OF f(1)] sk [OF f(2)] vk [OF f(3)] vk [OF f(4)])
qed

theorem keygen_roundtrip_witness:
  "fst (load_signing_key sample_pack_os sample_signing (pk_join sample_pack_os ''k'' ''sign.key.hex'')
     (snd (cmd_keygen sample_pack_os sample_signing [''--output'', ''k''] Map.empty))) = Ok ()"
  using keygen_roundtrip [OF sample_signing_sound, of sample_pack_os "''k''" Map.empty]
  by (simp add: writable_def sample_pack_os_def sample_signing_def)

text \<open>Signing is all or nothing: when \<open>sign\<close> fails, for whatever reason, the disk is as before
  (a write that fails is taken to leave the file alone); when
  it succeeds it has read a signing key and a manifest that parses, and has written exactly one
  file, the base64 text of the signature by that key over the digest of that manifest.\<close>

theorem sign_all_or_nothing:
  fixes os lib js args d
  defines "res \<equiv> cmd_sign os lib js args d"
  shows "case fst res of
      Err _ \<Rightarrow> snd res = d
    | Ok _ \<Rightarrow> (\<exists>key_file manifest_file out g mb m. pack_parse_arg args ''--key'' = Some key_file
        \<and> pack_parse_arg args ''--manifest'' = Some manifest_file
        \<and> load_signing_key os lib key_file d = (Ok g, d)
        \<and> d manifest_file = Some mb \<and> parse_manifest js mb = Ok m
        \<and> snd res = d(out \<mapsto> as_bytes (encode_base64 (sign lib g (sha256_digest lib mb)))))"
proof -
  have load: "snd (load_signing_key os lib key_file d) = d" for key_file
    by (simp add: load_signing_key_def andThen_def read_file_def split: option.split sum.split)
  show ?thesis
    unfolding res_def cmd_sign_def
    by (auto simp: fail_def andThen_def read_file_def write_named_def write_file_def Let_def
        split: option.splits sum.splits prod.splits) (use load in \<open>fastforce simp: prod_eq_iff\<close>)+
qed

end
