(* ===== verification/Kavach_Injector.thy ===== *)
theory Kavach_Injector
  imports Kavach_Pack Kavach_Beacon Kavach_Tripwire
begin

section \<open>The threat injector\<close>

text \<open>
  Models \<open>threat-injector/src/main.rs\<close>: the generated file contents, the three simulations and the
  program. The state is the disk and what the program did so far, the printed lines and the sleeps
  in order; the file system of the pack tool supplies paths and errors. Counters of type \<open>usize\<close>
  are natural numbers.
\<close>

datatype effect = Line string | Sleep u64

record injector =
  inj_disk :: disk
  inj_trace :: "effect list"

type_synonym simulation = "injector \<Rightarrow> (string + unit) \<times> injector"

definition emit :: "effect list \<Rightarrow> injector \<Rightarrow> injector" where
  "emit es s = s\<lparr>inj_trace := inj_trace s @ es\<rparr>"

definition then_run :: "simulation \<Rightarrow> simulation \<Rightarrow> simulation" where
  \<comment> \<open>the operator \<open>?\<close> followed by the rest\<close>
  "then_run m k s = (case m s of (Err e, s') \<Rightarrow> (Err e, s') | (Ok _, s') \<Rightarrow> k s')"

definition show_width :: "nat \<Rightarrow> nat \<Rightarrow> string" where
  \<comment> \<open>\<open>{:0w}\<close>\<close>
  "show_width w n = replicate (w - length (show_nat n)) (CHR ''0'') @ show_nat n"

subsection \<open>File contents\<close>

primrec generate_ciphertext_block :: "nat \<Rightarrow> u32 \<Rightarrow> bytes" where
  "generate_ciphertext_block 0 state = []"
| "generate_ciphertext_block (Suc sz) state =
    (let state' = state * 1664525 + 1013904223
     in ucast (drop_bit 16 state') # generate_ciphertext_block sz state')"

definition PLAINTEXT :: bytes where
  "PLAINTEXT = as_bytes ''Confidential business report and accounting records. Authorized access only. ''"

function fill_with :: "bytes \<Rightarrow> nat \<Rightarrow> bytes \<Rightarrow> bytes" where
  \<comment> \<open>\<open>while buf.len() < size\<close>\<close>
  "fill_with pat sz buf = (if length buf < sz \<and> pat \<noteq> [] then fill_with pat sz (buf @ pat) else buf)"
  by auto
termination
  by (relation "measure (\<lambda>(pat, sz, buf). sz - length buf)") (auto simp: neq_Nil_conv)

declare fill_with.simps [simp del]

definition generate_plaintext_block :: "nat \<Rightarrow> bytes" where
  "generate_plaintext_block sz = take sz (fill_with PLAINTEXT sz [])"

definition ransomware_block :: "bool \<Rightarrow> nat \<Rightarrow> nat \<Rightarrow> bytes" where
  \<comment> \<open>block \<open>b\<close> of file \<open>i\<close>\<close>
  "ransomware_block intermittent i b =
    (if intermittent \<and> b mod 2 = 1 then generate_plaintext_block 4096
     else generate_ciphertext_block 4096 (0x1337 + word_of_nat (i * 10 + b)))"

definition ransomware_file :: "bool \<Rightarrow> nat \<Rightarrow> bytes" where
  "ransomware_file intermittent i = concat (map (ransomware_block intermittent i) [0 ..< 10])"

definition ransomware_path :: "pack_os \<Rightarrow> string \<Rightarrow> nat \<Rightarrow> string" where
  "ransomware_path os dir i = pk_join os dir (''document_'' @ show_width 3 i @ ''.docx'')"

subsection \<open>Simulations\<close>

fun encrypt_files :: "pack_os \<Rightarrow> string \<Rightarrow> bool \<Rightarrow> nat list \<Rightarrow> simulation" where
  \<comment> \<open>the loop over the file numbers\<close>
  "encrypt_files os dir intermittent [] s = (Ok (), s)"
| "encrypt_files os dir intermittent (i # is) s =
    (let path = ransomware_path os dir i; content = ransomware_file intermittent i
     in case write_error os path of
          Some e \<Rightarrow> (Err (''write '' @ path @ '': '' @ e), s)
        | None \<Rightarrow> encrypt_files os dir intermittent is
            (emit [Line (''  [+] Encrypted: '' @ path @ '' ('' @ show_nat (length content) @ '' bytes)''), Sleep 5]
              (s\<lparr>inj_disk := (inj_disk s)(path \<mapsto> content)\<rparr>)))"

definition run_ransomware_simulation :: "pack_os \<Rightarrow> string \<Rightarrow> nat \<Rightarrow> bool \<Rightarrow> simulation" where
  "run_ransomware_simulation os target_dir file_count intermittent s =
    (let s = emit [Line ''=== Simulating Ransomware Encryption Burst ==='',
         Line (''  Target Directory: '' @ target_dir),
         Line (''  File Count:       '' @ show_nat file_count),
         Line (''  Mode:             '' @ (if intermittent then ''Intermittent (alternating high/low blocks)''
            else ''Full Encryption''))] s
     in case create_dir_error os target_dir of
          Some e \<Rightarrow> (Err (''create dir: '' @ e), s)
        | None \<Rightarrow> then_run (encrypt_files os target_dir intermittent [1 ..< file_count + 1])
            (\<lambda>s. (Ok (), emit [Line ''[OK] Ransomware burst simulation completed.''] s)) s)"

definition c2_next :: "u32 \<Rightarrow> u32" where
  "c2_next state = state * 1103515245 + 12345"

definition jitter_factor :: "u32 \<Rightarrow> u32 \<Rightarrow> fl" where
  "jitter_factor state jitter_pct =
     fdiv b32 (fsub b32 (fl_of_nat b32 (unat (state mod (jitter_pct * 2 + 1)))) (fl_of_nat b32 (unat jitter_pct)))
       (Fin 100)"

definition pulse_sleep_ms :: "u64 \<Rightarrow> u32 \<Rightarrow> u32 \<Rightarrow> u64" where
  "pulse_sleep_ms interval_ms jitter_pct state =
     f64_as_u64 (fmax (fmul b32 (fl_of_nat b32 (unat interval_ms)) (fadd b32 (Fin 1) (jitter_factor state jitter_pct)))
       (Fin 10))"

fun c2_pulses :: "nat \<Rightarrow> u64 \<Rightarrow> u32 \<Rightarrow> nat list \<Rightarrow> u32 \<Rightarrow> effect list" where
  \<comment> \<open>the loop over the pulse numbers\<close>
  "c2_pulses packet_count interval_ms jitter_pct [] state = []"
| "c2_pulses packet_count interval_ms jitter_pct (i # is) state =
    (let state' = c2_next state; ms = pulse_sleep_ms interval_ms jitter_pct state'
     in Line (''  [Pulse '' @ show_width 2 i @ ''/'' @ show_nat packet_count
            @ ''] Outbound C2 beacon -> 198.51.100.10:443 (sleeping '' @ show_word ms @ '' ms)'')
        # Sleep ms # c2_pulses packet_count interval_ms jitter_pct is state')"

definition run_c2_simulation :: "nat \<Rightarrow> u64 \<Rightarrow> u32 \<Rightarrow> simulation" where
  "run_c2_simulation packet_count interval_ms jitter_pct s = (Ok (), emit
     ([Line ''=== Simulating C2 Rhythmic Network Beaconing ==='',
       Line (''  Pulse Count:       '' @ show_nat packet_count),
       Line (''  Nominal Interval:  '' @ show_word interval_ms @ '' ms''),
       Line (''  Target Jitter CV:  < 0.35 (simulated '' @ show_word jitter_pct @ ''% variance)'')]
      @ c2_pulses packet_count interval_ms jitter_pct [1 ..< packet_count + 1] 0x5EED
      @ [Line ''[OK] C2 beaconing simulation completed.'']) s)"

definition event_line :: "nat \<Rightarrow> string \<Rightarrow> string \<Rightarrow> effect" where
  \<comment> \<open>a printed event of the user \<open>Administrator\<close>\<close>
  "event_line i what suffix = Line (''  [Event '' @ show_width 2 i @ ''] EventID '' @ what @ '' user=''
     @ [CHR 0x27] @ ''Administrator'' @ [CHR 0x27] @ suffix)"

definition run_audit_simulation :: "nat \<Rightarrow> simulation" where
  "run_audit_simulation failed_count s = (Ok (), emit
     ([Line ''=== Simulating Credential Tampering & Elevation ==='',
       Line (''  Failed Logons:     '' @ show_nat failed_count),
       Line ''  Follow-up Action:  LogonSuccess -> LSASS Access'']
      @ concat (map (\<lambda>i. [event_line i ''4625 (LogonFailure)''
            ('' workstation='' @ [CHR 0x27] @ ''WORKSTATION'' @ [CHR 0x27]), Sleep 20]) [1 ..< failed_count + 1])
      @ [event_line (failed_count + 1) ''4624 (LogonSuccess)'' '' (Elevated)'', Sleep 20,
         event_line (failed_count + 2) ''4672 (SpecialPrivilegesAssigned)'' [],
         Line ''[OK] Credential elevation simulation completed.'']) s)"

definition RULE :: effect where
  "RULE = Line (replicate 60 (CHR ''=''))"

definition run_full_scenario :: "pack_os \<Rightarrow> simulation" where
  "run_full_scenario os s =
     then_run (run_ransomware_simulation os ''target/threat_sandbox'' 5 True)
    (\<lambda>s. then_run (run_c2_simulation 8 50 5)
    (\<lambda>s. then_run (run_audit_simulation 3)
    (\<lambda>s. (Ok (), emit [RULE, Line ''All 3 attack vectors dispatched. Check Kavach-NPU daemon logs!''] s))
       (emit [Line []] s)) (emit [Line []] s))
       (emit [RULE, Line ''     Kavach-NPU Full Synthetic Multi-Vector Attack Test     '', RULE] s)"

subsection \<open>The program\<close>

fun parse_arg_aliases :: "string list \<Rightarrow> string list \<Rightarrow> string option" where
  "parse_arg_aliases (a # b # args) names =
     (if a \<in> set names then Some b else parse_arg_aliases (b # args) names)"
| "parse_arg_aliases _ names = None"

definition number_or :: "(string \<Rightarrow> 'a option) \<Rightarrow> string list \<Rightarrow> string list \<Rightarrow> 'a \<Rightarrow> 'a" where
  \<comment> \<open>\<open>.and_then(|s| s.parse().ok()).unwrap_or(d)\<close>\<close>
  "number_or parse args names d = (case Option.bind (parse_arg_aliases args names) parse of Some v \<Rightarrow> v | None \<Rightarrow> d)"

definition injector_main :: "pack_os \<Rightarrow> string list \<Rightarrow> injector \<Rightarrow> nat \<times> injector" where
  \<comment> \<open>the exit code; \<open>args\<close> holds the program name first; texts on the error stream are not modelled\<close>
  "injector_main os args s =
    (if length args < 2 then (0, s)
     else
       let mode = (case parse_arg_aliases args [''--mode'', ''-m''] of Some m \<Rightarrow> m | None \<Rightarrow> args ! 1);
           usize = parse_unsigned (2 ^ 64);
           (res, s') =
             (if mode = ''ransomware'' then
                run_ransomware_simulation os
                  (case parse_arg_aliases args [''--target'', ''--target-dir'', ''-t''] of
                     Some dir \<Rightarrow> dir | None \<Rightarrow> ''target/sandbox'')
                  (number_or usize args [''--files'', ''--file-count'', ''-f'', ''-n''] 10)
                  (''--intermittent'' \<in> set args) s
              else if mode = ''c2'' then
                run_c2_simulation (number_or usize args [''--packets'', ''--packet-count'', ''-p''] 32)
                  (number_or parse_u64 args [''--interval-ms'', ''--interval'', ''-i''] 200)
                  (number_or parse_u32 args [''--jitter'', ''-j''] 10) s
              else if mode = ''audit'' then
                run_audit_simulation (number_or usize args [''--events'', ''--iterations'', ''--count'', ''-e''] 5) s
              else if mode = ''full-scenario'' then run_full_scenario os s
              else if mode \<in> {''--help'', ''-h'', ''help''} then (Ok (), s)
              else (Err [], s))
       in (case res of Ok _ \<Rightarrow> 0 | Err _ \<Rightarrow> 1, s'))"

subsection \<open>Contents of the generated files\<close>

lemma length_ciphertext [simp]: "length (generate_ciphertext_block n state) = n"
  by (induction n arbitrary: state) (simp_all add: Let_def)

lemma length_fill: "pat \<noteq> [] \<Longrightarrow> n \<le> length (fill_with pat n buf)"
  by (induction pat n buf rule: fill_with.induct) (subst fill_with.simps, auto)

lemma length_plaintext [simp]: "length (generate_plaintext_block n) = n"
  using length_fill [of PLAINTEXT n "[]"] by (simp add: generate_plaintext_block_def PLAINTEXT_def as_bytes_def)

lemma length_block [simp]: "length (ransomware_block b i k) = 4096"
  by (simp add: ransomware_block_def)

lemma chunks_concat: "0 < n \<Longrightarrow> list_all (\<lambda>b. length b = n) bs \<Longrightarrow> chunks n (concat bs) = bs"
proof (induction bs)
  case Nil
  then show ?case by (simp add: chunks.simps)
next
  case (Cons b bs)
  then have "b \<noteq> []" by auto
  with Cons show ?case by (subst chunks.simps) simp
qed

lemma file_blocks: "chunks 4096 (ransomware_file b i) = map (ransomware_block b i) [0 ..< 10]"
  unfolding ransomware_file_def by (rule chunks_concat) (simp_all add: list_all_iff)

lemma parse_digits_show: "parse_digits a (show_nat n @ t) = parse_digits (a * 10 ^ length (show_nat n) + n) t"
proof (induction n arbitrary: a t rule: show_nat.induct)
  case (1 n)
  have d: "digit_value (digit_char k) = Some k" if "k < 10" for k
    using that by (simp add: digit_value_def digit_char_def Let_def)
  show ?case
  proof (cases "n < 10")
    case True
    then show ?thesis by (subst (1 2) show_nat.simps) (simp add: d mult.commute)
  next
    case False
    then show ?thesis
      by (subst (1 2) show_nat.simps) (simp add: 1 d algebra_simps)
  qed
qed

lemma parse_digits_zeros: "parse_digits 0 (replicate k (CHR ''0'') @ t) = parse_digits 0 t"
  by (induction k) (simp_all add: digit_value_def)

lemma show_width_inj: "show_width w i = show_width w j \<Longrightarrow> i = j"
proof -
  assume "show_width w i = show_width w j"
  then have "parse_digits 0 (show_width w i) = parse_digits 0 (show_width w j)" by simp
  then show "i = j" using parse_digits_show [of 0 _ "[]"] by (simp add: show_width_def parse_digits_zeros)
qed

subsection \<open>Written files\<close>

definition written :: "pack_os \<Rightarrow> string \<Rightarrow> nat list \<Rightarrow> nat list" where
  \<comment> \<open>the file numbers before the first write that fails\<close>
  "written os dir is = takeWhile (\<lambda>i. write_error os (ransomware_path os dir i) = None) is"

definition with_files :: "pack_os \<Rightarrow> string \<Rightarrow> bool \<Rightarrow> nat list \<Rightarrow> disk \<Rightarrow> disk" where
  "with_files os dir b is d p = (case find (\<lambda>i. ransomware_path os dir i = p) is of
     Some i \<Rightarrow> Some (ransomware_file b i) | None \<Rightarrow> d p)"

lemma path_inj: "inj (pk_join os dir) \<Longrightarrow> ransomware_path os dir i = ransomware_path os dir j \<longleftrightarrow> i = j"
  by (auto simp: ransomware_path_def inj_eq dest: show_width_inj)

lemma findSomeD: "find P xs = Some x \<Longrightarrow> x \<in> set xs \<and> P x"
  by (auto simp: find_Some_iff)

lemma with_files_Cons:
  "inj (pk_join os dir) \<Longrightarrow> i \<notin> set is \<Longrightarrow>
    with_files os dir b is (d(ransomware_path os dir i \<mapsto> ransomware_file b i)) = with_files os dir b (i # is) d"
  by (rule ext) (auto simp: with_files_def path_inj find_None_iff split: option.split dest!: findSomeD)

lemma encrypt_outcome:
  assumes "inj (pk_join os dir)" "distinct is"
  shows "inj_disk (snd (encrypt_files os dir b is s)) = with_files os dir b (written os dir is) (inj_disk s)
    \<and> (is_ok (fst (encrypt_files os dir b is s)) \<longleftrightarrow> written os dir is = is)"
  using assms(2)
proof (induction "is" arbitrary: s)
  case Nil
  then show ?case by (simp add: written_def with_files_def)
next
  case (Cons i "is")
  have "i \<notin> set (written os dir is)" using Cons.prems by (auto simp: written_def dest: set_takeWhileD)
  moreover have "with_files os dir b [] d = d" for d by (simp add: with_files_def fun_eq_iff)
  ultimately show ?case
    using Cons assms(1)
    by (cases "write_error os (ransomware_path os dir i)") (simp_all add: written_def with_files_Cons emit_def Let_def)
qed

subsection \<open>Pulses\<close>

definition sleeps :: "effect list \<Rightarrow> u64 list" where
  "sleeps es = concat (map (\<lambda>e. case e of Sleep ms \<Rightarrow> [ms] | Line _ \<Rightarrow> []) es)"

lemma sleeps_simps [simp]: "sleeps [] = []" "sleeps (Sleep ms # es) = ms # sleeps es" "sleeps (Line l # es) = sleeps es"
  "sleeps (es @ es') = sleeps es @ sleeps es'"
  by (simp_all add: sleeps_def)

lemma fround_neg_le: "x < 0 \<Longrightarrow> fle (fround f x) (Fin 0)"
proof -
  assume x: "x < 0"
  have "0 \<le> round_even (\<bar>x\<bar> / rpow2 (quantum f \<bar>x\<bar>))"
    by (rule round_even_nonneg) (simp add: less_imp_le)
  then show ?thesis using x by (auto simp: fround_def fle_def fval_def Let_def intro!: mult_nonneg_nonneg less_imp_le [OF rpow2_pos])
qed

lemma fround_le_nat:
  assumes "x \<le> of_nat k"
  shows "k < 2 ^ 24 \<Longrightarrow> fle (fround b32 x) (Fin (of_nat k))" "k < 2 ^ 53 \<Longrightarrow> fle (fround b64 x) (Fin (of_nat k))"
proof -
  have low: "fle (fround f x) (Fin (of_nat k))" if "x < 0" for f
    using fround_neg_le [OF that, of f] by (cases "fround f x") (auto simp: fle_def fval_def intro: order.trans)
  show "k < 2 ^ 24 \<Longrightarrow> fle (fround b32 x) (Fin (of_nat k))"
    using fround_mono_nonneg [of x "of_nat k" b32] low assms fl_of_nat_exact(1) [of k] by (cases "x < 0") (simp_all add: fl_of_nat_def)
  show "k < 2 ^ 53 \<Longrightarrow> fle (fround b64 x) (Fin (of_nat k))"
    using fround_mono_nonneg [of x "of_nat k" b64] low assms fl_of_nat_exact(2) [of k] by (cases "x < 0") (simp_all add: fl_of_nat_def)
qed

lemma fadd_le:
  assumes "fle a (Fin (of_nat m))" "fle b (Fin (of_nat n))"
    and "\<And>x. x \<le> of_nat (m + n) \<Longrightarrow> fle (fround f x) (Fin (of_nat (m + n)))"
  shows "fle (fadd f a b) (Fin (of_nat (m + n)))"
proof -
  have "fval a + fval b \<le> of_nat (m + n)" if "is_finite a" "is_finite b"
    using assms(1,2) that by (cases a; cases b) (auto simp: fle_def fval_def is_finite_def)
  then show ?thesis
    using assms(1,2) assms(3) [of "fval a + fval b"]
    by (cases a; cases b) (auto simp: fadd_def is_finite_def fle_def fval_def)
qed

lemma pulse_at_least: "10 \<le> pulse_sleep_ms interval jitter state"
proof -
  let ?x = "fmul b32 (fl_of_nat b32 (unat interval)) (fadd b32 (Fin 1) (jitter_factor state jitter))"
  have "10 \<le> fl_trunc 0 (2 ^ 64 - 1) (fmax ?x (Fin 10)) \<and> fl_trunc 0 (2 ^ 64 - 1) (fmax ?x (Fin 10)) < 2 ^ 64"
    by (cases ?x) (auto simp: fmax_def flt_def fle_def fval_def fl_trunc_def le_floor_iff)
  then show ?thesis
    by (simp add: pulse_sleep_ms_def f64_as_u64_def word_le_def uint_of_int_id)
qed

lemma fle_zero_nat: "fle (signed_zero b) (Fin (of_nat k))" "fle NegInf (Fin r)"
  by (simp_all add: signed_zero_def fle_def fval_def)

lemma fdiv_le:
  assumes "fle v (Fin (of_nat (n * k)))" "0 < n" "\<And>x. x \<le> of_nat k \<Longrightarrow> fle (fround f x) (Fin (of_nat k))"
  shows "fle (fdiv f v (Fin (of_nat n))) (Fin (of_nat k))"
proof (cases v)
  case (Fin r)
  then have "r \<le> of_nat n * of_nat k" using assms(1) by (simp add: fle_def fval_def)
  then have "r / of_nat n \<le> of_nat k" using assms(2) by (simp add: divide_le_eq mult.commute)
  from assms(3) [OF this] show ?thesis
    using Fin assms(2) by (simp add: fdiv_def is_finite_def fval_def fle_zero_nat Let_def)
qed (use assms(1,2) in \<open>simp_all add: fdiv_def is_finite_def fval_def signed_inf_def is_neg_def fle_zero_nat
      fle_def [of PosInf] fle_def [of NaN] Let_def\<close>)

lemma fmul_le:
  assumes "fle w (Fin (of_nat k))" "i * k < 2 ^ 24"
  shows "fmul b32 (Fin (of_nat i)) w = NaN \<or> fle (fmul b32 (Fin (of_nat i)) w) (Fin (of_nat (i * k)))"
proof (cases w)
  case (Fin r)
  then have "of_nat i * r \<le> of_nat (i * k)" using assms(1) by (simp add: fle_def fval_def mult_left_mono)
  from fround_le_nat(1) [OF this assms(2)] show ?thesis
    using Fin fle_zero_nat(1) [of _ "i * k"] by (simp add: fmul_def is_finite_def fval_def Let_def)
qed (use assms(1) fle_zero_nat(1) [of _ "i * k"] in \<open>simp_all add: fmul_def is_finite_def fval_def signed_inf_def is_neg_def
      fle_zero_nat(2) fle_def [of PosInf] fle_def [of NaN] Let_def\<close>)

lemma jitter_factor_le:
  assumes "jitter \<le> 100"
  shows "fle (jitter_factor state jitter) (Fin 1)"
proof -
  let ?m = "unat (state mod (jitter * 2 + 1))" and ?j = "unat jitter"
  have j: "?j \<le> 100" using assms by (simp add: word_le_nat_alt)
  then have "unat (jitter * 2 + 1) = 2 * ?j + 1"
    by (simp add: unat_word_ariths)
  then have m: "?m \<le> 2 * ?j" using mod_less_divisor [of "2 * ?j + 1" "unat state"] by (simp add: unat_mod)
  have sub: "fsub b32 (fl_of_nat b32 ?m) (fl_of_nat b32 ?j) = fround b32 (of_nat ?m - of_nat ?j)"
    using m j by (auto simp: fl_of_nat_exact fsub_def fneg_def fadd_def fval_def)
  have "of_nat ?m - of_nat ?j \<le> (of_nat (100 * 1) :: rat)" using m j by linarith
  then have "fle (fround b32 (of_nat ?m - of_nat ?j)) (Fin (of_nat (100 * 1)))" by (rule fround_le_nat) simp
  from fdiv_le [OF this, of b32] show ?thesis
    using fround_le_nat(1) [of _ 1] unfolding jitter_factor_def sub by simp
qed

lemma trunc_max_le:
  assumes "x = NaN \<or> fle x (Fin (of_nat n))"
  shows "fl_trunc 0 (2 ^ 64 - 1) (fmax x (Fin 10)) \<le> int (max 10 n) \<and> 0 \<le> fl_trunc 0 (2 ^ 64 - 1) (fmax x (Fin 10))"
proof (cases x)
  case (Fin r)
  then have "r \<le> of_nat n" using assms by (simp add: fle_def fval_def)
  then have "floor r \<le> floor (of_nat n :: rat)" by (rule floor_mono)
  then show ?thesis using Fin by (simp add: fmax_def flt_def fle_def fval_def fl_trunc_def le_floor_iff min_le_iff_disj le_max_iff_disj of_nat_max)
qed (use assms in \<open>simp_all add: fmax_def flt_def fle_def fval_def fl_trunc_def\<close>)

lemma pulse_at_most:
  assumes "jitter \<le> 100" "unat interval \<le> 2 ^ 22"
  shows "unat (pulse_sleep_ms interval jitter state) \<le> max 10 (unat interval * 2)"
proof -
  let ?i = "unat interval" and ?w = "fadd b32 (Fin 1) (jitter_factor state jitter)"
  let ?x = "fmul b32 (Fin (of_nat ?i)) ?w"
  have "fle ?w (Fin (of_nat (1 + 1)))"
    using jitter_factor_le [OF assms(1), of state] by (intro fadd_le fround_le_nat) (simp_all add: fle_refl)
  then have x: "?x = NaN \<or> fle ?x (Fin (of_nat (?i * 2)))"
    using fmul_le [of ?w 2 ?i] assms(2) by simp
  have e: "fl_of_nat b32 ?i = Fin (of_nat ?i)" using assms(2) by (intro fl_of_nat_exact) simp
  have t: "fl_trunc 0 (2 ^ 64 - 1) (fmax ?x (Fin 10)) \<le> int (max 10 (?i * 2)) \<and> 0 \<le> fl_trunc 0 (2 ^ 64 - 1) (fmax ?x (Fin 10))"
    using x by (rule trunc_max_le)
  have "int (max 10 (?i * 2)) < 2 ^ LENGTH(64)" using assms(2) by simp
  with t have "uint (pulse_sleep_ms interval jitter state) = fl_trunc 0 (2 ^ 64 - 1) (fmax ?x (Fin 10))"
    unfolding pulse_sleep_ms_def e f64_as_u64_def by (intro uint_of_int_id) linarith+
  then show ?thesis using t by (simp only: uint_nat) linarith
qed

lemma c2_sleeps:
  "length (sleeps (c2_pulses n interval jitter is state)) = length is"
  "ms \<in> set (sleeps (c2_pulses n interval jitter is state)) \<Longrightarrow> \<exists>state'. ms = pulse_sleep_ms interval jitter state'"
  by (induction "is" arbitrary: state) (auto simp: Let_def)

lemma c2_trace:
  "sleeps (inj_trace (snd (run_c2_simulation n interval jitter s)))
     = sleeps (inj_trace s) @ sleeps (c2_pulses n interval jitter [1 ..< n + 1] 0x5EED)"
  by (simp add: run_c2_simulation_def emit_def)

lemma fsum_le:
  assumes "\<And>d. d \<in> set ds \<Longrightarrow> fle d (Fin (of_nat k))" "length ds * k < 2 ^ 53"
  shows "fle (fsum b64 ds) (Fin (of_nat (length ds * k)))"
proof -
  have "fle (foldl (fadd b64) a ds) (Fin (of_nat (m + length ds * k)))"
    if "fle a (Fin (of_nat m))" "m + length ds * k < 2 ^ 53" for a m
    using assms(1) that
  proof (induction ds arbitrary: a m)
    case (Cons d ds)
    have "fle (fadd b64 a d) (Fin (of_nat (m + k)))"
      using Cons.prems by (intro fadd_le fround_le_nat) auto
    from Cons.IH [OF _ this] show ?case using Cons.prems by (simp add: add.assoc)
  qed simp
  from this [of NegZero 0] show ?thesis using assms(2) by (simp add: fsum_def fle_def fval_def)
qed

definition gaps_ns :: "RollingFlow \<Rightarrow> nat list" where
  \<comment> \<open>nanoseconds between successive packets\<close>
  "gaps_ns fw = map (\<lambda>(p, p'). unat (saturating_sub (timestamp_ns p') (timestamp_ns p))) (zip (packets fw) (tl (packets fw)))"

lemma short_gaps_no_beacon:
  assumes "evaluate_beacon_rhythm log10 sha256 fw = Some r" "\<And>g. g \<in> set (gaps_ns fw) \<Longrightarrow> g \<le> 1000000 * 499"
  shows "\<not> is_c2_beacon r"
proof -
  let ?ds = "map (\<lambda>(p, p'). delta_ms p p') (zip (packets fw) (tl (packets fw)))"
  have full: "is_full fw" using assms(1) by (auto simp: evaluate_beacon_rhythm_def split: if_splits)
  have d: "fle d (Fin (of_nat 499))" if "d \<in> set ?ds" for d
  proof -
    from that obtain g where g: "g \<in> set (gaps_ns fw)" "d = fdiv b64 (fl_of_nat b64 g) (Fin (of_nat 1000000))"
      by (auto simp: gaps_ns_def delta_ms_def)
    have le: "g \<le> 1000000 * 499" using assms(2) g(1) by blast
    then have "fl_of_nat b64 g = Fin (of_nat g)" by (intro fl_of_nat_exact) simp
    moreover have "fle (Fin (of_nat g)) (Fin (of_nat (1000000 * 499)))"
      using le by (simp only: fle_def fval_def fl.case fl.distinct of_nat_le_iff) simp
    ultimately show ?thesis
      unfolding g(2) by (simp only:) (rule fdiv_le, assumption, simp, erule fround_le_nat, simp)
  qed
  have l: "length ?ds = 31" using full_deltas [OF full] by (simp only: length_map)
  have "fle (fsum b64 ?ds) (Fin (of_nat (length ?ds * 499)))" by (rule fsum_le [OF d]) (simp_all only: l, simp)
  then have "fle (fsum b64 ?ds) (Fin (of_nat (31 * 499)))" by (simp only: l)
  then have "fle (fdiv b64 (fsum b64 ?ds) (Fin (of_nat 31))) (Fin (of_nat 499))"
    by (rule fdiv_le) (simp, erule fround_le_nat, simp)
  moreover have "mean_delta_ms r = fdiv b64 (fsum b64 ?ds) (Fin (of_nat 31))"
    using assms(1) full_deltas [OF full] fl_of_nat_exact(2) [of 31]
    by (auto simp: evaluate_beacon_rhythm_def Let_def split: if_splits option.splits)
  ultimately have "\<not> fle (Fin 500) (mean_delta_ms r)"
    by (cases "mean_delta_ms r") (auto simp: fle_def fval_def)
  then show ?thesis using rhythm_scores(4,5) [OF assms(1)] jitter_half by (auto simp: MIN_BEACON_INTERVAL_MS_def)
qed

subsection \<open>Properties\<close>

text \<open>The ransomware simulation writes exactly the files it should: when different names give
  different paths, the disk afterwards holds the files numbered from 1 up to the first write that
  fails, each with ten 4096-byte blocks, and is otherwise unchanged; the run succeeds exactly when
  the directory can be created and no write fails; and the tripwire scanner sees of every file the
  ten generated blocks, in intermittent mode alternating cipher text and text.\<close>

theorem ransomware_files:
  fixes os dir n b s
  defines "res \<equiv> run_ransomware_simulation os dir n b s"
    and "done \<equiv> (if create_dir_error os dir = None then written os dir [1 ..< n + 1] else [])"
  assumes "inj (pk_join os dir)"
  shows "inj_disk (snd res) = with_files os dir b done (inj_disk s)
    \<and> (is_ok (fst res) \<longleftrightarrow> create_dir_error os dir = None \<and> done = [1 ..< n + 1])
    \<and> block_entropy_scan log2 (ransomware_file b i) DEFAULT_BLOCK_SIZE
        = map (\<lambda>k. shannon_entropy log2 (ransomware_block b i k)) [0 ..< 10]"
proof -
  have "length (ransomware_file b i) = 40960" by (simp add: ransomware_file_def length_concat comp_def sum_list_triv)
  then have "ransomware_file b i \<noteq> []" by (metis list.size(3) zero_neq_numeral)
  then have scan: "block_entropy_scan log2 (ransomware_file b i) DEFAULT_BLOCK_SIZE
        = map (\<lambda>k. shannon_entropy log2 (ransomware_block b i k)) [0 ..< 10]"
    by (simp add: block_entropy_scan_def kavach_const file_blocks comp_def)
  have "with_files os dir b [] d = d" for d by (simp add: with_files_def fun_eq_iff)
  moreover obtain s' where s': "run_ransomware_simulation os dir n b s = (case create_dir_error os dir of
       Some e \<Rightarrow> (Err (''create dir: '' @ e), s')
     | None \<Rightarrow> then_run (encrypt_files os dir b [1 ..< n + 1])
         (\<lambda>s. (Ok (), emit [Line ''[OK] Ransomware burst simulation completed.''] s)) s')" "inj_disk s' = inj_disk s"
    by (rule that, unfold run_ransomware_simulation_def Let_def, rule refl) (simp add: emit_def)
  moreover have "inj_disk (snd (then_run m (\<lambda>s. (Ok (), emit es s)) s)) = inj_disk (snd (m s))
      \<and> is_ok (fst (then_run m (\<lambda>s. (Ok (), emit es s)) s)) = is_ok (fst (m s))" for m es s
    by (simp add: then_run_def emit_def split: prod.split sum.split)
  ultimately show ?thesis
    using encrypt_outcome [OF assms(3), of "[1 ..< n + 1]" b s'] scan
    by (cases "create_dir_error os dir") (simp_all add: res_def done_def)
qed

definition blank_injector :: injector where
  "blank_injector = \<lparr>inj_disk = Map.empty, inj_trace = []\<rparr>"

theorem ransomware_files_witness:
  "inj_disk (snd (run_ransomware_simulation sample_pack_os ''d'' 2 True blank_injector))
     = with_files sample_pack_os ''d'' True [1, 2] Map.empty
   \<and> is_ok (fst (run_ransomware_simulation sample_pack_os ''d'' 2 True blank_injector))"
proof -
  have "[1 ..< 2 + 1] = [1, 2 :: nat]" by (simp add: upt_rec)
  then show ?thesis
    using ransomware_files [of sample_pack_os "''d''" 2 True blank_injector]
    by (simp add: sample_pack_os_def blank_injector_def written_def inj_def del: upt_Suc)
qed

text \<open>Every run of the command-and-control simulation makes the requested number of pulses and
  sleeps at least 10 ms after each; with a jitter of at most 100 percent no sleep is longer than
  twice the nominal interval.\<close>

theorem c2_pulse_bounds:
  fixes n interval jitter s
  defines "ms \<equiv> sleeps (inj_trace (snd (run_c2_simulation n interval jitter (s\<lparr>inj_trace := []\<rparr>))))"
  assumes "jitter \<le> 100" "unat interval \<le> 2 ^ 22"
  shows "length ms = n \<and> list_all (\<lambda>t. 10 \<le> t \<and> unat t \<le> max 10 (unat interval * 2)) ms"
proof -
  have "10 \<le> t \<and> unat t \<le> max 10 (unat interval * 2)"
    if "t \<in> set (sleeps (c2_pulses n interval jitter [1 ..< n + 1] 0x5EED))" for t
    using c2_sleeps(2) [OF that] pulse_at_least pulse_at_most [OF assms(2,3)] by auto
  then show ?thesis
    unfolding ms_def c2_trace by (simp add: list_all_iff c2_sleeps(1) del: upt_Suc)
qed

theorem c2_pulse_bounds_witness:
  "length (sleeps (inj_trace (snd (run_c2_simulation 32 200 10 blank_injector)))) = 32"
  using c2_pulse_bounds [of 10 200 32 blank_injector] by (simp add: blank_injector_def)

text \<open>The simulated beacon is too fast for the detector: with a nominal interval of at most 249 ms
  (200 by default, 50 in the full scenario) no flow whose packets are no further apart than the
  simulated pulses is ever classified as a beacon, at any jitter up to 100 percent.\<close>

theorem simulated_beacon_undetected:
  assumes "jitter \<le> 100" "unat interval \<le> 249"
    and "evaluate_beacon_rhythm log10 sha256 fw = Some r"
    and "\<forall>g \<in> set (gaps_ns fw). \<exists>t \<in> set (sleeps (c2_pulses n interval jitter is state)). g \<le> 1000000 * unat t"
  shows "\<not> is_c2_beacon r"
proof (rule short_gaps_no_beacon [OF assms(3)])
  fix g
  assume "g \<in> set (gaps_ns fw)"
  then obtain t where t: "t \<in> set (sleeps (c2_pulses n interval jitter is state))" "g \<le> 1000000 * unat t"
    using assms(4) by blast
  then have "unat t \<le> max 10 (unat interval * 2)"
    using c2_sleeps(2) [OF t(1)] pulse_at_most [OF assms(1)] assms(2) by auto
  then show "g \<le> 1000000 * 499" using t(2) assms(2) by linarith
qed

theorem simulated_beacon_undetected_witness:
  "\<exists>r. evaluate_beacon_rhythm (\<lambda>_. Fin 0) (\<lambda>b. b) sample_flow = Some r \<and> \<not> is_c2_beacon r"
proof -
  have full: "is_full sample_flow" by (simp add: sample_flow_def flow_of_def is_full_def kavach_const)
  then obtain r where r: "evaluate_beacon_rhythm (\<lambda>_. Fin 0) (\<lambda>b. b) sample_flow = Some r"
    using full_evaluates by blast
  have "g = 0" if "g \<in> set (gaps_ns sample_flow)" for g
    using that by (auto simp: gaps_ns_def sample_flow_def flow_of_def last_n_def set_zip saturating_sub_def nth_tl)
  then have "\<forall>g \<in> set (gaps_ns sample_flow). \<exists>t \<in> set (sleeps (c2_pulses 1 200 10 [1] 0x5EED)). g \<le> 1000000 * unat t"
    by (auto simp: Let_def)
  from simulated_beacon_undetected [OF _ _ r this] r show ?thesis by simp
qed

end
