(* ===== verification/Kavach_Cli.thy ===== *)
theory Kavach_Cli
  imports Kavach_Service Kavach_Correlator Kavach_Injector
begin

section \<open>The command-line program\<close>

text \<open>
  Models the commands of \<open>src/main.rs\<close> beside the live daemon: the tripwire diagnosis, the NPU check,
  the WSL lab mode, the heartbeat daemon and the program itself with its exit codes. A command
  returns what it prints as a value; \<open>None\<close> stands for a panic. Timings are not modelled.
\<close>

record cli_os =
  path_exists :: "string \<Rightarrow> bool"
  cli_read :: "string \<Rightarrow> string + bytes"
  cli_log2 :: "fl \<Rightarrow> fl"
  current_exe :: "string + string option" \<comment> \<open>the path of the program, if it is text\<close>
  sc_exe :: sc_exe
  start_dispatcher :: "string + unit"
  epoch_ms :: u64

subsection \<open>\<open>kavach tripwire\<close>\<close>

definition SYNTHETIC_TEXT :: bytes where
  "SYNTHETIC_TEXT = as_bytes ''Kavach-NPU hardware-enforced endpoint detection and response system. ''"

definition synthetic_payload :: bytes where
  \<comment> \<open>a block of text, then a block from the generator the injector uses too\<close>
  "synthetic_payload = take 4096 (fill_with SYNTHETIC_TEXT 4096 []) @ generate_ciphertext_block 4096 0xDEADBEEF"

record tripwire_report =
  report_source :: string
  report_size :: nat
  report_entropy :: fl
  report_blocks :: "fl list"
  report_summary :: SparseEntropySummary
  report_alert :: bool
  report_writes :: "ProcessBurstEvaluation option list" \<comment> \<open>\<open>None\<close> prints below the threshold\<close>

definition victim_path :: "nat \<Rightarrow> string" where
  "victim_path i = ''C:'' @ [backslash] @ ''Users'' @ [backslash] @ ''victim'' @ [backslash] @ ''Documents'' @ [backslash]
     @ ''file_'' @ show_nat i @ ''.dat''"

fun test_writes ::
    "(fl \<Rightarrow> fl) \<Rightarrow> (bytes \<Rightarrow> bytes) \<Rightarrow> bytes \<Rightarrow> nat list \<Rightarrow> EntropyEngine \<Rightarrow> ProcessBurstEvaluation option list" where
  "test_writes log2 sha256 data [] eng = []"
| "test_writes log2 sha256 data (i # is) eng =
    (let (eval, eng') = ingest_operation log2 sha256 eng 4096 (victim_path i) data False (1000 + word_of_nat i * 10)
     in eval # test_writes log2 sha256 data is eng')"

definition tripwire_input :: "cli_os \<Rightarrow> string option \<Rightarrow> string + bytes \<times> string" where
  "tripwire_input os path_arg = (case path_arg of
     Some path \<Rightarrow>
       if \<not> path_exists os path then Err (''File not found: '' @ path)
       else map_sum (\<lambda>e. ''Failed to read file: '' @ e) (\<lambda>data. (data, path)) (cli_read os path)
   | None \<Rightarrow> Ok (synthetic_payload, ''Synthetic Dual-Phase Buffer''))"

definition run_tripwire_test :: "cli_os \<Rightarrow> (bytes \<Rightarrow> bytes) \<Rightarrow> string option \<Rightarrow> string + tripwire_report" where
  "run_tripwire_test os sha256 path_arg = (case tripwire_input os path_arg of
     Err e \<Rightarrow> Err e
   | Ok (data, source) \<Rightarrow>
       let blocks = block_entropy_scan (cli_log2 os) data DEFAULT_BLOCK_SIZE;
           summary = differential_entropy blocks
       in Ok \<lparr>report_source = source, report_size = length data,
           report_entropy = shannon_entropy (cli_log2 os) data, report_blocks = blocks, report_summary = summary,
           report_alert = fle ENTROPY_RANSOMWARE_THRESHOLD (max_entropy summary),
           report_writes = test_writes (cli_log2 os) sha256 data [1 ..< 5] entropy_engine_new\<rparr>)"

subsection \<open>\<open>kavach npu-check\<close>\<close>

record 's npu_report =
  checked_hardware :: NpuHardwareInfo
  checked_backend :: ExecutionProviderBackend
  checked_provider :: string
  checked_scores :: "fl list"
  checked_engine :: "'s NpuEngine"

definition provider_line :: "bool \<Rightarrow> 's NpuEngine \<Rightarrow> string" where
  "provider_line hardware eng =
    (if \<not> hardware then ''Pure Rust Baseline (build with --features npu-hardware for DirectML/NPU)''
     else case ort_session eng of
       Some sess \<Rightarrow> show_backend (ort_backend sess) @ '' (Direct hardware dispatch active)''
     | None \<Rightarrow> ''Native SIMD Fallback Scorer'')"

definition run_npu_check :: "('k, 's, 't) sentinel_env \<Rightarrow> ort_state \<Rightarrow> 's npu_report \<times> ort_state" where
  "run_npu_check env st =
    (let hw = probe (env_os env);
         (eng, st') = engine_new (env_os env) (env_feature env) st;
         (io, eng1) = run_io_inference (env_ort env) eng (replicate 10 [64, 20, 10, 30]);
         (net, eng2) = run_net_inference (env_ort env) eng1 (replicate 32 [50, 10, 0, 0]);
         (audit, eng3) = run_audit_inference (env_ort env) eng2 (replicate 16 [45, 5, 0, 0])
     in (\<lparr>checked_hardware = hw, checked_backend = active_backend eng,
          checked_provider = provider_line (env_hardware env) eng,
          checked_scores = [io, net, audit], checked_engine = eng3\<rparr>, st'))"

subsection \<open>\<open>kavach wsl --lab-mode\<close>\<close>

definition lab_challenge :: ClockChallenge where
  "lab_challenge = \<lparr>challenge_nonce = replicate 16 0x55, t0_host_monotonic_ns = 1000000000\<rparr>"

definition lab_response :: ClockResponse where
  "lab_response = \<lparr>response_nonce = replicate 16 0x55, g1_guest_monotonic_ns = 1010000000,
     g2_guest_monotonic_ns = 1010500000\<rparr>"

definition lab_event :: HostFileEvent where
  "lab_event = \<lparr>host_timestamp_ns = 1025000000,
     canonical_windows_path = ''C:'' @ [backslash] @ ''Users'' @ [backslash] @ ''victim'' @ [backslash] @ ''Documents''
       @ [backslash] @ ''thesis.docx.kavach'',
     is_vmmem_process = True, bytes_written = 65536\<rparr>"

definition lab_record :: GuestWriteRecord where
  "lab_record = \<lparr>version = \<lparr>major = 1, minor = 0\<rparr>, sequence_number = 101, guest_monotonic_ns = 1015000000,
     guest_realtime_ns = 1700000000000000000, guest_process_id = 8821, guest_process_start_ticks = 900000000,
     distribution_id = replicate 16 0x42, mount_namespace_id = 4026531840, executable_sha256 = replicate 32 0xEE,
     cgroup_sha256 = replicate 32 0, operation = Write,
     normalized_path = ''/mnt/c/Users/victim/Documents/thesis.docx.kavach'',
     byte_range_start = 0, byte_range_length = 65536, record_flags = 0\<rparr>"

definition run_wsl_lab_mode :: "(ClockOffsetEstimate \<times> WslAttributionResult) option" where
  "run_wsl_lab_mode =
    (let c = correlator_new (replicate 16 0x42) 250;
         (res, sync) = process_response (clock_sync c) lab_challenge lab_response 1020000000;
         c = c\<lparr>clock_sync := sync\<rparr>
     in case res of
          Err _ \<Rightarrow> None
        | Ok estimate \<Rightarrow>
            let c = record_host_event c lab_event in
            if \<not> is_normalized_mnt_path (normalized_path lab_record) then None
            else Some (estimate, fst (correlate_guest_record c lab_record 1025000000)))"

subsection \<open>\<open>kavach daemon\<close>\<close>

record heartbeat =
  beat_status :: SystemStatusReport
  beat_entropy :: EntropyEngine
  beat_flows :: TcnEngine
  beat_events :: EventSubscriber
  beat_correlator :: WslCorrelator
  beat_client :: WfpClient
  beat_broker :: EnforcementBroker
  beat_rule_id :: u64
  beat_answer :: "DispatchError + EnforcedAction" \<comment> \<open>discarded by the program\<close>

definition ipv4 :: "u8 \<Rightarrow> u8 \<Rightarrow> u8 \<Rightarrow> u8 \<Rightarrow> IpAddr" where
  "ipv4 a b c d = V4 (word_of_nat (((unat a * 256 + unat b) * 256 + unat c) * 256 + unat d))"

definition HEARTBEAT_MS :: u64 where
  "HEARTBEAT_MS = 1700000000000"

definition heartbeat_verdict :: Verdict where
  "heartbeat_verdict = \<lparr>protocol_version = \<lparr>major = 1, minor = 0\<rparr>, request_id = replicate 16 0xAA,
     issued_at_unix_ms = HEARTBEAT_MS, expires_at_unix_ms = HEARTBEAT_MS + 10000,
     detector_instance_id = replicate 16 0x01, requested_action = Alert, evidence_digest = replicate 32 0x55,
     model_bundle_sha256 = replicate 32 0x77, policy_generation = 1, target_process_id = 100,
     target_process_start_filetime = 133500000000000000, corroborating_evidence_count = 2, flags = 0\<rparr>"

definition run_sentinel_daemon ::
    "('k, 's, 't) sentinel_env \<Rightarrow> (fl \<Rightarrow> fl) \<Rightarrow> KavachConfig \<Rightarrow> ort_state \<Rightarrow> heartbeat \<times> ort_state" where
  "run_sentinel_daemon env log2 config st =
    (let sha256 = sha256_digest (env_crypto env);
         (status, st') = collect_status env config st;
         (_, eng) = ingest_operation log2 sha256 entropy_engine_new 100
           (''C:'' @ [backslash] @ ''Windows'' @ [backslash] @ ''temp'' @ [backslash] @ ''log.txt'')
           (as_bytes ''safe baseline operating system telemetry data'') False HEARTBEAT_MS;
         (_, tcn) = ingest_packet (env_log10 env) sha256 tcn_new
           \<lparr>local_addr = ipv4 192 168 1 50, local_port = 54321, remote_addr = ipv4 1 1 1 1, remote_port = 443, protocol = 6\<rparr>
           \<lparr>timestamp_ns = HEARTBEAT_MS * 1000000, payload_bytes = 128, packet_direction = Outbound\<rparr>;
         (_, sub) = ingest_event sha256 subscriber_new
           \<lparr>event_id = LogonSuccess, timestamp_unix_ms = HEARTBEAT_MS, event_process_id = 100,
            subject_user = ''SYSTEM'', target_resource = ''C:'' @ [backslash] @ ''Windows'' @ [backslash] @ ''System32''\<rparr>;
         (rule_id, client) = quarantine_target client_new
           (DestinationIpPort (ipv4 198 51 100 7) (Some 443) 6) HEARTBEAT_MS;
         (answer, broker) = evaluate_and_enforce (broker_new 1 False 2 (replicate 32 0x77) True)
           heartbeat_verdict HEARTBEAT_MS
     in (\<lparr>beat_status = status, beat_entropy = eng, beat_flows = tcn, beat_events = sub,
          beat_correlator = correlator_new (replicate 16 0x42) 250, beat_client = client, beat_broker = broker,
          beat_rule_id = rule_id, beat_answer = answer\<rparr>, st'))"

subsection \<open>The program\<close>

datatype 's cli_result =
    Heartbeat heartbeat
  | Live "(notice list \<times> 's Sentinel) option" \<comment> \<open>\<open>None\<close> while it runs\<close>
  | Status SystemStatusReport
  | NpuCheck "'s npu_report"
  | TripwireTest tripwire_report
  | LabMode "(ClockOffsetEstimate \<times> WslAttributionResult) option"
  | ServiceText string
  | ServiceRan
  | Usage
  | Failed string

definition tripwire_path :: "string list \<Rightarrow> string option" where
  "tripwire_path args =
    (if length args > 3 \<and> args ! 2 = ''--test'' then Some (args ! 3)
     else if length args > 2 \<and> args ! 2 \<noteq> ''--test'' then Some (args ! 2) else None)"

definition install_path :: "string list \<Rightarrow> string option" where
  "install_path args =
    (if length args > 4 \<and> args ! 3 = ''--path'' then Some (args ! 4)
     else if length args > 3 \<and> \<not> starts_with (args ! 3) ''-'' then Some (args ! 3) else None)"

definition answer :: "string \<Rightarrow> string \<Rightarrow> (string + string) \<times> sc_log \<Rightarrow> nat \<times> 's cli_result \<times> sc_log" where
  "answer banner doing r = (case r of
     (Ok msg, l) \<Rightarrow> (0, ServiceText (banner @ msg), l)
   | (Err e, l) \<Rightarrow> (1, Failed (''Error '' @ doing @ '': '' @ e), l))"

definition service_command ::
    "cli_os \<Rightarrow> bool \<Rightarrow> string list \<Rightarrow> sc_log \<Rightarrow> nat \<times> 's cli_result \<times> sc_log" where
  \<comment> \<open>exit code, what is shown, and the \<open>sc.exe\<close> commands run\<close>
  "service_command os windows args l =
    (if length args < 3
     then (1, Failed ''Usage: kavach-npu service <install|uninstall|start|stop|status|run> [options]'', l)
     else let action = args ! 2 in
       if action = ''install'' then answer [] ''installing service'' (install_service (sc_exe os) (current_exe os) (install_path args) l)
       else if action = ''uninstall'' then answer [] ''uninstalling service'' (uninstall_service (sc_exe os) l)
       else if action = ''start'' then answer [] ''starting service'' (start_service (sc_exe os) l)
       else if action = ''stop'' then answer [] ''stopping service'' (stop_service (sc_exe os) l)
       else if action = ''status'' then answer (''=== Service Status ==='' @ NL) ''querying service status'' (query_status (sc_exe os) l)
       else if action = ''run'' then
         (if windows then (case run_service_dispatcher (start_dispatcher os) of
              Ok _ \<Rightarrow> (0, ServiceRan, l)
            | Err e \<Rightarrow> (1, Failed (''Service dispatcher error: '' @ e), l))
          else (1, Failed ''Windows Service dispatcher is only supported on Windows.'', l))
       else (1, Failed (''Unknown service action: '' @ action
              @ ''. Expected install, uninstall, start, stop, status, or run.''), l))"

definition app_main ::
    "nat \<Rightarrow> ('k, 's, 't) sentinel_env \<Rightarrow> cli_os \<Rightarrow> string list \<Rightarrow> ort_state \<Rightarrow> sc_log \<Rightarrow> nat \<times> 's cli_result \<times> sc_log" where
  \<comment> \<open>\<open>args\<close> holds the program name first; \<open>fuel\<close> is for the live daemon\<close>
  "app_main fuel env os args st l =
    (let config = safe_defaults;
         windows = is_windows (env_os env);
         sha256 = sha256_digest (env_crypto env);
         daemon = (0, Heartbeat (fst (run_sentinel_daemon env (cli_log2 os) config st)), l)
     in
     if length args < 2 then daemon
     else let cmd = args ! 1 in
       if cmd = ''status'' then (0, Status (fst (collect_status env config st)), l)
       else if cmd = ''npu-check'' then (0, NpuCheck (fst (run_npu_check env st)), l)
       else if cmd = ''tripwire'' then
         (case run_tripwire_test os sha256 (tripwire_path args) of
            Ok r \<Rightarrow> (0, TripwireTest r, l)
          | Err e \<Rightarrow> (1, Failed (''Error: '' @ e), l))
       else if cmd = ''wsl'' then (case run_wsl_lab_mode of None \<Rightarrow> (101, LabMode None, l) | r \<Rightarrow> (0, LabMode r, l))
       else if cmd = ''daemon'' then
         (if ''--live'' \<in> set args then
            (if windows then (0, Live (run_live_sentinel_daemon_ext fuel env config
                 (''--continuous'' \<in> set args \<or> ''-c'' \<in> set args) 3 (epoch_ms os) st), l)
             else daemon)
          else daemon)
       else if cmd = ''service'' then service_command os windows args l
       else if cmd \<in> {''--help'', ''-h'', ''help''} then (0, Usage, l)
       else (2, Failed (''Unknown subcommand: '' @ cmd), l))"

subsection \<open>The diagnosis\<close>

definition test_event :: "(fl \<Rightarrow> fl) \<Rightarrow> bytes \<Rightarrow> nat \<Rightarrow> FileOperationEvent" where
  "test_event log2 data i = make_write_event log2 4096 (1000 + word_of_nat i * 10) (victim_path i) data False"

definition tracker_of :: "FileOperationEvent list \<Rightarrow> EntropyEngine" where
  "tracker_of es = \<lparr>tracker = tracker_new\<lparr>events := es\<rparr>\<rparr>"

lemma ingest_test:
  assumes "list_all (\<lambda>e. saturating_sub (1000 + word_of_nat i * 10) 50 \<le> file_timestamp_ms e) es"
  shows "ingest_operation log2 sha256 (tracker_of es) 4096 (victim_path i) data False (1000 + word_of_nat i * 10)
    = (evaluate_pid sha256 (tracker (tracker_of (es @ [test_event log2 data i]))) 4096 (1000 + word_of_nat i * 10),
       tracker_of (es @ [test_event log2 data i]))"
proof -
  have "saturating_sub now w \<le> now" for now w :: u64 by (simp add: word_le_nat_alt unat_saturating_sub)
  then have "record_event (tracker (tracker_of es)) (test_event log2 data i) (1000 + word_of_nat i * 10)
      = tracker (tracker_of (es @ [test_event log2 data i]))"
    using assms by (simp add: tracker_of_def record_event_def purge_expired_def tracker_new_def test_event_def
        make_write_event_def list_all_iff kavach_const Let_def)
  then show ?thesis by (simp add: ingest_operation_def test_event_def [symmetric] tracker_of_def Let_def)
qed

lemma saturating_sub_le: "saturating_sub a b \<le> a"
  by (simp add: word_le_nat_alt unat_saturating_sub)

lemma test_in_window:
  assumes "j \<le> i" "i < 5"
  shows "saturating_sub (1000 + word_of_nat i * 10) 50 \<le> (1000 + word_of_nat j * 10 :: u64)"
proof -
  have "unat (1000 + word_of_nat k * 10 :: u64) = 1000 + k * 10" if "k < 5" for k
    using that unat_of_nat_small [where 'a = 64, of "1000 + k * 10"] by (simp add: mult.commute)
  then show ?thesis using assms by (simp add: word_le_nat_alt unat_saturating_sub)
qed

definition test_events :: "(fl \<Rightarrow> fl) \<Rightarrow> bytes \<Rightarrow> nat \<Rightarrow> FileOperationEvent list" where
  \<comment> \<open>the first \<open>n\<close> simulated writes\<close>
  "test_events log2 data n = map (test_event log2 data) [1 ..< n + 1]"

lemma test_events_simps [simp]: "test_events log2 data 0 = []"
  "test_events log2 data (Suc n) = test_events log2 data n @ [test_event log2 data (Suc n)]"
  by (simp_all add: test_events_def)

lemma test_events_window:
  "n < 4 \<Longrightarrow> list_all (\<lambda>e. saturating_sub (1000 + word_of_nat (Suc n) * 10) 50 \<le> file_timestamp_ms e) (test_events log2 data n)"
  unfolding list_all_iff test_events_def
  by (auto simp: test_event_def make_write_event_def simp del: upt_Suc of_nat_Suc intro!: test_in_window)

lemma test_writes_eq:
  assumes "k \<le> m" "m \<le> 4"
  shows "test_writes log2 sha256 data [Suc k ..< Suc m] (tracker_of (test_events log2 data k))
     = map (\<lambda>n. evaluate_pid sha256 (tracker (tracker_of (test_events log2 data n))) 4096 (1000 + word_of_nat n * 10))
         [Suc k ..< Suc m]"
  using assms
proof (induction "m - k" arbitrary: k)
  case (Suc d)
  then have k: "[Suc k ..< Suc m] = Suc k # [Suc (Suc k) ..< Suc m]" by (simp add: upt_conv_Cons del: upt_Suc)
  have "k < 4" using Suc.hyps(2) Suc.prems by simp
  then show ?case
    using Suc.hyps(1) [of "Suc k"] Suc.hyps(2) Suc.prems
    unfolding k list.map test_writes.simps
    by (simp add: ingest_test [OF test_events_window] Let_def del: upt_Suc of_nat_Suc)
qed simp

lemma victim_path_inj: "victim_path i = victim_path j \<longleftrightarrow> i = j"
  using show_width_inj [of 0 i j] by (auto simp: victim_path_def show_width_def)

lemma test_distinct_files:
  assumes "0 < n"
  shows "map_option (length \<circ> distinct_files)
      (evaluate_pid sha256 (tracker (tracker_of (test_events log2 data n))) 4096 now) = Some n"
proof -
  have "distinct (map victim_path [1 ..< n + 1])" by (simp add: distinct_map inj_on_def victim_path_inj del: upt_Suc)
  then have "length (sort (remdups (map victim_path [1 ..< n + 1]))) = n"
    by (simp add: distinct_remdups_id del: upt_Suc)
  moreover have "map file_path (test_events log2 data n) = map victim_path [1 ..< n + 1]"
    "filter (\<lambda>e. file_pid e = 4096) (test_events log2 data n) = test_events log2 data n"
    by (auto simp: test_events_def test_event_def make_write_event_def filter_id_conv simp del: upt_Suc)
  moreover have "test_events log2 data n \<noteq> []" using assms by (simp add: test_events_def)
  ultimately show ?thesis
    by (simp add: evaluate_pid_def tracker_of_def Let_def del: upt_Suc)
qed

subsection \<open>Properties\<close>

text \<open>The tripwire diagnosis fails exactly when it is given a path that does not exist or cannot be
  read; otherwise each of its four simulated writes is reported as a suspicious burst, the n-th
  with n distinct files, whatever the file holds: the message for a write below the suspension
  threshold is never printed.\<close>

theorem tripwire_test_outcome:
  "case run_tripwire_test os sha256 path_arg of
     Err _ \<Rightarrow> \<exists>p. path_arg = Some p \<and> \<not> (path_exists os p \<and> is_ok (cli_read os p))
   | Ok r \<Rightarrow> map (map_option (length \<circ> distinct_files)) (report_writes r) = [Some 1, Some 2, Some 3, Some 4]"
proof -
  have "map (map_option (length \<circ> distinct_files))
      (test_writes (cli_log2 os) sha256 data [Suc 0 ..< Suc 4] (tracker_of (test_events (cli_log2 os) data 0)))
    = map Some [Suc 0 ..< Suc 4]" for data
    by (subst test_writes_eq) (simp_all add: test_distinct_files del: upt_Suc test_events_simps)
  moreover have "entropy_engine_new = tracker_of (test_events (cli_log2 os) data 0)" for data
    by (simp add: tracker_of_def entropy_engine_new_def tracker_new_def)
  moreover have "[1 ..< 5] = [Suc 0 ..< Suc 4]" "map Some [Suc 0 ..< Suc 4] = [Some 1, Some 2, Some 3, Some (4 :: nat)]"
    by (simp_all add: upt_rec)
  ultimately have w: "map (map_option (length \<circ> distinct_files)) (test_writes (cli_log2 os) sha256 data [1 ..< 5] entropy_engine_new)
      = [Some 1, Some 2, Some 3, Some 4]" for data
    by metis
  show ?thesis
  proof (cases "tripwire_input os path_arg")
    case (Inl e)
    then show ?thesis by (auto simp: run_tripwire_test_def tripwire_input_def split: option.splits if_splits elim: is_okE)
  next
    case (Inr x)
    then show ?thesis by (simp add: run_tripwire_test_def w Let_def split: prod.split del: One_nat_def)
  qed
qed

lemma lab_path: "is_normalized_mnt_path (normalized_path lab_record)"
  "windows_path_of lab_record = canonical_windows_path lab_event"
proof -
  have "normalized_path lab_record = [] @ CHR ''/'' # ''mnt'' @ CHR ''/'' # ''c'' @ CHR ''/'' # ''Users'' @ CHR ''/''
      # ''victim'' @ CHR ''/'' # ''Documents'' @ CHR ''/'' # ''thesis.docx.kavach''"
    by (simp add: lab_record_def)
  then have "split_on (CHR ''/'') (normalized_path lab_record)
      = [[], ''mnt'', ''c'', ''Users'', ''victim'', ''Documents'', ''thesis.docx.kavach'']"
    by (simp only:) (simp add: split_on_append split_on_absent del: split_on.simps append.simps)
  then show "is_normalized_mnt_path (normalized_path lab_record)"
    by (simp add: is_normalized_mnt_path_def starts_with_def lab_record_def del: split_on.simps)
  have "to_ascii_uppercase_char (CHR ''c'') = CHR ''C''"
    by (simp add: to_ascii_uppercase_char_def char_of_eval)
  then show "windows_path_of lab_record = canonical_windows_path lab_event"
    by (simp add: lab_record_def lab_event_def windows_path_of_def translate_mnt_to_windows_path_def
        starts_with_def splitn2_def replace_char_def)
qed

definition lab_estimate :: ClockOffsetEstimate where
  "lab_estimate = \<lparr>estimate_distribution_id = replicate 16 0x42, offset_ns = - 250000, uncertainty_ns = 10000000,
     accepted_at_host_monotonic_ns = 1020000000, valid_until_host_monotonic_ns = 91020000000\<rparr>"

lemma lab_clock:
  "process_response (synchronizer_new (replicate 16 0x42)) lab_challenge lab_response 1020000000
     = (Ok lab_estimate, \<lparr>sync_distribution_id = replicate 16 0x42,
         accepted_samples = [\<lparr>sample_offset_ns = - 250000, rtt_ns = 20000000, sample_host_timestamp_ns = 1020000000\<rparr>],
         current_estimate = Some lab_estimate, consecutive_failures = 0\<rparr>)"
  by code_simp

lemma lab_times:
  "adjusted_host_ts lab_estimate lab_record = 1014750000"
  "abs_diff (host_timestamp_ns lab_event) 1014750000 = 10250000"
  by code_simp+

text \<open>The lab mode of the WSL bridge ends in success: it neither panics at the clock exchange nor at
  the path check, and attributes the write to guest process 8821 with high confidence, 10 ms
  apart, on the estimated offset of -250 microseconds.\<close>

theorem lab_mode_succeeds:
  "case run_wsl_lab_mode of
     None \<Rightarrow> False
   | Some (estimate, result) \<Rightarrow> offset_ns estimate = - 250000 \<and> uncertainty_ns estimate = 10000000
     \<and> attributed_process_id result = 8821 \<and> confidence result = High \<and> correlation_delta_ms result = 10
     \<and> attributed_windows_path result = canonical_windows_path lab_event \<and> allow_pid_enforcement result"
  by (simp add: run_wsl_lab_mode_def correlator_new_def lab_clock lab_path correlate_guest_record_def classify_def
      get_valid_estimate_def lab_times record_host_event_def push_then_trim_def matching_events_def
      eq_ignore_ascii_case_def kavach_const Let_def)
    (simp add: lab_estimate_def lab_record_def)

text \<open>The heartbeat daemon exercises every component once, whatever the configuration and the host:
  one tracked flow, one recorded event and one file operation, one dynamic rule with the first
  identifier; and its own broker, created degraded, denies the verdict it is given and remembers
  nothing, a denial the program ignores when it reports success.\<close>

theorem heartbeat_outcome:
  fixes env log2 config st
  defines "hb \<equiv> fst (run_sentinel_daemon env log2 config st)"
  shows "active_flow_count (beat_flows hb) = 1 \<and> event_count (beat_events hb) = 1
    \<and> length (events (tracker (beat_entropy hb))) = 1 \<and> beat_rule_id hb = 1
    \<and> active_rule_count (registry (beat_client hb)) = 1
    \<and> beat_answer hb = Err ActionDenied \<and> replay_cache_size (beat_broker hb) = 0"
proof -
  have flow: "active_flow_count (snd (ingest_packet l10 sha tcn_new k m)) = 1" for l10 sha k m
    by (simp add: ingest_packet_def tcn_new_def active_flow_count_def case_prod_beta Let_def)
  have event: "event_count (snd (ingest_event sha subscriber_new r)) = 1" for sha r
    using ingest_event_window [of sha subscriber_new r]
    by (simp add: event_count_def tracker_len_def subscriber_new_def sequence_tracker_new_def push_drop_first_def kavach_const)
  have op: "length (events (tracker (snd (ingest_operation log2 sha entropy_engine_new pid p data r now)))) = 1"
    for sha pid p data r now
    using saturating_sub_le [of now 50]
    by (simp add: ingest_operation_def entropy_engine_new_def tracker_new_def make_write_event_def kavach_const Let_def)
  have rule: "fst (quarantine_target client_new t now) = 1"
    "active_rule_count (registry (snd (quarantine_target client_new t now))) = 1" for t now
    by (simp_all add: quarantine_target_def client_new_def registry_new_def add_quarantine_rule_def active_rule_count_def Let_def)
  have deny: "evaluate_and_enforce (broker_new 1 False 2 (replicate 32 0x77) True) heartbeat_verdict HEARTBEAT_MS
      = (Err ActionDenied, broker_new 1 False 2 (replicate 32 0x77) True)"
    by (simp add: evaluate_and_enforce_def broker_new_def heartbeat_verdict_def HEARTBEAT_MS_def
        purge_expired_replay_cache_def retain_nonces_def Let_def)
  show ?thesis
    unfolding hb_def run_sentinel_daemon_def Let_def case_prod_beta
    by (simp add: flow event op rule deny) (simp add: replay_cache_size_def broker_new_def)
qed

text \<open>What the program does for its arguments: it exits with 2 exactly for an unknown subcommand, it
  starts the live daemon exactly for \<open>daemon --live\<close> on Windows, and only \<open>service\<close> runs \<open>sc.exe\<close>;
  without a subcommand it runs the heartbeat daemon.\<close>

theorem cli_outcome:
  fixes fuel env os args st l
  defines "r \<equiv> app_main fuel env os args st l"
  shows "(fst r = 2 \<longleftrightarrow> 2 \<le> length args \<and> args ! 1 \<notin> set [''status'', ''npu-check'', ''tripwire'', ''wsl'', ''daemon'',
            ''service'', ''--help'', ''-h'', ''help''])
    \<and> ((\<exists>out. fst (snd r) = Live out) \<longleftrightarrow> 2 \<le> length args \<and> args ! 1 = ''daemon'' \<and> ''--live'' \<in> set args
          \<and> is_windows (env_os env))
    \<and> (snd (snd r) = l \<or> (2 \<le> length args \<and> args ! 1 = ''service''))
    \<and> (2 \<le> length args \<or> fst (snd r) = Heartbeat (fst (run_sentinel_daemon env (cli_log2 os) safe_defaults st)))"
proof -
  have svc: "fst (service_command os w args l) \<noteq> 2" "fst (snd (service_command os w args l)) \<noteq> Live out"
    "fst (answer b d x) \<noteq> 2" "fst (snd (answer b d x)) \<noteq> Live out" for w out b d x
    by (auto simp: service_command_def answer_def Let_def split: prod.split sum.split)
  show ?thesis
    unfolding r_def app_main_def Let_def
    by (simp add: svc split: sum.split option.split)
qed

end
