(* ===== verification/Kavach_Wsl_Guest.thy ===== *)
theory Kavach_Wsl_Guest
  imports Kavach_Correlator
begin

section \<open>The WSL2 guest agent\<close>

text \<open>
  Models the crate \<open>crates/kavach-wsl-guest\<close>: record formulation (\<open>audit_source.rs\<close>), the clock
  responder (\<open>clock_sync.rs\<close>), back-off and framing (\<open>vsock.rs\<close>) and the program itself
  (\<open>main.rs\<close>) as a function from its arguments to its output lines and exit. The clock
  readings, the process id, SHA-256 and the \<open>hex\<close> crate are parameters.
\<close>

record GuestAuditSource =
  source_distribution_id :: bytes
  sequence_counter :: u64

definition audit_source_new :: "bytes \<Rightarrow> GuestAuditSource" where
  "audit_source_new distro = \<lparr>source_distribution_id = distro, sequence_counter = 1\<rparr>"

record guest_request =
  \<comment> \<open>the arguments of \<open>record_operation\<close> and the clock readings during the call\<close>
  req_pid :: u32
  req_executable_path :: string
  req_normalized_path :: string
  req_operation :: GuestFileOperation
  req_range_start :: u64
  req_range_length :: u64
  req_monotonic_ns :: u64
  req_realtime_ns :: u64

definition record_operation ::
    "(bytes \<Rightarrow> bytes) \<Rightarrow> GuestAuditSource \<Rightarrow> guest_request
      \<Rightarrow> (string + GuestWriteRecord) \<times> GuestAuditSource" where
  "record_operation sha256 s q =
    (if \<not> is_normalized_mnt_path (req_normalized_path q)
       then (Err (''path '' @ [CHR 0x27] @ req_normalized_path q @ [CHR 0x27]
               @ '' is not a normalized /mnt/<drive>/ path''), s)
     else
       let seqno = sequence_counter s;
           exe_hash = sha256 (as_bytes (req_executable_path q));
           cgroup_hash = sha256 (as_bytes (''/sys/fs/cgroup/user.slice/user-''
             @ show_word (req_pid q) @ ''.slice''))
       in (Ok \<lparr>version = \<lparr>major = 1, minor = 0\<rparr>, sequence_number = seqno,
               guest_monotonic_ns = req_monotonic_ns q, guest_realtime_ns = req_realtime_ns q,
               guest_process_id = req_pid q, guest_process_start_ticks = 1000,
               distribution_id = source_distribution_id s, mount_namespace_id = 4026531840,
               executable_sha256 = exe_hash, cgroup_sha256 = cgroup_hash,
               operation = req_operation q, normalized_path = req_normalized_path q,
               byte_range_start = req_range_start q, byte_range_length = req_range_length q,
               record_flags = 0\<rparr>,
           s\<lparr>sequence_counter := sequence_counter s + 1\<rparr>))"

definition respond_to_challenge :: "ClockChallenge \<Rightarrow> u64 \<Rightarrow> u64 \<Rightarrow> ClockResponse" where
  \<comment> \<open>\<open>g1\<close> and \<open>g2\<close> are the two readings of the guest's monotonic clock\<close>
  "respond_to_challenge challenge g1 g2 = \<lparr>response_nonce = challenge_nonce challenge,
     g1_guest_monotonic_ns = g1, g2_guest_monotonic_ns = g2\<rparr>"

definition DEFAULT_VSOCK_PORT :: u32 where
  [kavach_const]: "DEFAULT_VSOCK_PORT = 7350"

definition VMADDR_CID_HOST :: u32 where
  [kavach_const]: "VMADDR_CID_HOST = 2"

record VsockConfig =
  host_cid :: u32
  port :: u32
  vsock_distribution_id :: bytes
  max_reconnect_backoff_ms :: u64

definition vsock_config_default :: VsockConfig where
  "vsock_config_default = \<lparr>host_cid = VMADDR_CID_HOST, port = DEFAULT_VSOCK_PORT,
     vsock_distribution_id = replicate 16 0x42, max_reconnect_backoff_ms = 60000\<rparr>"

definition compute_backoff_ms :: "u32 \<Rightarrow> u64 \<Rightarrow> u64" where
  "compute_backoff_ms attempt max_backoff_ms =
    (let base = 1000;
         shift = min attempt 6;
         delay = base * push_bit (unat shift) 1
     in min delay max_backoff_ms)"

definition prepare_wire_frame :: "GuestWriteRecord \<Rightarrow> string + bytes" where
  "prepare_wire_frame r = map_err (\<lambda>e. ''failed to format AF_VSOCK wire frame: '' @ show_VsockWireError e)
     (to_frame r)"

subsection \<open>The program\<close>

definition guest_usage :: "string list" where
  \<comment> \<open>the lines \<open>print_usage\<close> writes\<close>
  "guest_usage = [''kavach-wsl-guest - Linux WSL2 Guest Agent for Kavach-NPU'', [], ''USAGE:'',
    ''    kavach-wsl-guest [OPTIONS]'', [], ''OPTIONS:'',
    ''    --host-cid <CID>        AF_VSOCK host CID (default: 2 / VMADDR_CID_HOST)'',
    ''    --port <PORT>           AF_VSOCK host listener port (default: 7350)'',
    ''    --distribution-id <HEX> 16-byte distribution UUID hex (default: 4242...42)'',
    ''    --test-emit <PATH>      Format and emit a test GuestWriteRecord frame for a path'',
    ''    --daemon                Run continuous guest background agent'',
    ''    --help, -h              Display this help message'', []]"

definition parse_arg :: "string list \<Rightarrow> string \<Rightarrow> string option" where
  "parse_arg args flag =
    map_option (\<lambda>i. args ! (i + 1))
      (find (\<lambda>i. args ! i = flag \<and> i + 1 < length args) [0 ..< length args])"

record guest_env =
  env_sha256 :: "bytes \<Rightarrow> bytes"
  env_hex_encode :: "bytes \<Rightarrow> string"
  env_hex_decode :: "string \<Rightarrow> bytes option"
  env_process_id :: u32
  env_record_mono :: u64
  env_record_real :: u64
  env_g1 :: u64
  env_g2 :: u64

datatype guest_exit = Returned | ExitCode nat | Panicked

definition option_or :: "'a option \<Rightarrow> 'a \<Rightarrow> 'a" where
  "option_or x d = (case x of None \<Rightarrow> d | Some a \<Rightarrow> a)"

definition guest_distribution_id :: "guest_env \<Rightarrow> string list \<Rightarrow> bytes" where
  "guest_distribution_id env args = (case parse_arg args ''--distribution-id'' of
     Some hex_str \<Rightarrow>
       let clean = trim hex_str;
           bs = option_or (env_hex_decode env clean) (replicate 16 0x42);
           len = min (length bs) 16
       in copy_at 0 (take len bs) (replicate 16 0x42)
   | None \<Rightarrow> replicate 16 0x42)"

definition guest_settings :: "guest_env \<Rightarrow> string list \<Rightarrow> u32 \<times> u32 \<times> bytes" where
  "guest_settings env args =
    (option_or (Option.bind (parse_arg args ''--host-cid'') parse_u32) VMADDR_CID_HOST,
     option_or (Option.bind (parse_arg args ''--port'') parse_u32) DEFAULT_VSOCK_PORT,
     guest_distribution_id env args)"

definition env_request :: "guest_env \<Rightarrow> string \<Rightarrow> string \<Rightarrow> u64 \<Rightarrow> guest_request" where
  "env_request env exe path len = \<lparr>req_pid = env_process_id env, req_executable_path = exe,
     req_normalized_path = path, req_operation = Write, req_range_start = 0,
     req_range_length = len, req_monotonic_ns = env_record_mono env,
     req_realtime_ns = env_record_real env\<rparr>"

definition show_operation :: "GuestFileOperation \<Rightarrow> string" where
  "show_operation op = (case op of Write \<Rightarrow> ''Write'' | Rename \<Rightarrow> ''Rename'' | Delete \<Rightarrow> ''Delete'')"

definition emit_test :: "guest_env \<Rightarrow> bytes \<Rightarrow> string \<Rightarrow> string list \<times> guest_exit" where
  \<comment> \<open>the \<open>--test-emit\<close> branch\<close>
  "emit_test env dist_id path =
    (let start = [[], ''Generating diagnostic telemetry record for path: '' @ path @ ''...''] in
     case fst (record_operation (env_sha256 env) (audit_source_new dist_id)
        (env_request env ''/usr/bin/python3'' path 4096)) of
       Ok r \<Rightarrow> (case prepare_wire_frame r of
           Ok frame \<Rightarrow>
             (start @ [''[OK] Wire frame created successfully ('' @ show_nat (length frame) @ '' bytes):'',
               ''  Sequence:  '' @ show_word (sequence_number r),
               ''  Guest PID: '' @ show_word (guest_process_id r),
               ''  Operation: '' @ show_operation (operation r),
               ''  Path:      '' @ normalized_path r,
               ''  Hex:       '' @ env_hex_encode env (take (min (length frame) 64) frame)], Returned)
         | Err e \<Rightarrow> (start, Panicked))
     | Err e \<Rightarrow> (start @ [''[ERROR] Failed to record operation: '' @ e], ExitCode 1))"

definition run_heartbeat :: "guest_env \<Rightarrow> bytes \<Rightarrow> string list \<times> guest_exit" where
  \<comment> \<open>the default mode\<close>
  "run_heartbeat env dist_id =
    (let start = [[], ''Simulating guest agent operational heartbeat...''] in
     case fst (record_operation (env_sha256 env) (audit_source_new dist_id)
        (env_request env ''/usr/bin/cargo'' ''/mnt/c/Users/Developer/workspace/project.rs'' 8192)) of
       Err e \<Rightarrow> (start, Panicked)
     | Ok r \<Rightarrow> (case prepare_wire_frame r of
         Err e \<Rightarrow> (start, Panicked)
       | Ok wire_frame \<Rightarrow>
           let response = respond_to_challenge
                 \<lparr>challenge_nonce = replicate 16 0x55, t0_host_monotonic_ns = 100000000\<rparr>
                 (env_g1 env) (env_g2 env)
           in (start @ [''  [+] Generated write record frame ('' @ show_nat (length wire_frame) @ '' bytes).'',
                ''  [+] Responded to host clock challenge (nonce: '' @ env_hex_encode env (response_nonce response)
                  @ '', g1: '' @ show_word (g1_guest_monotonic_ns response)
                  @ '', g2: '' @ show_word (g2_guest_monotonic_ns response) @ '').'',
                ''WSL2 guest agent initialized in ready state.''], Returned)))"

definition guest_main :: "guest_env \<Rightarrow> string list \<Rightarrow> string list \<times> guest_exit" where
  "guest_main env args =
    (if list_ex (\<lambda>a. a = ''--help'' \<or> a = ''-h'') args then (guest_usage, Returned)
     else
       let (cid, prt, dist_id) = guest_settings env args;
           banner = [''=== Kavach WSL2 Linux Guest Agent ==='',
             ''  Target Host CID:    '' @ show_word cid,
             ''  Target Host Port:   '' @ show_word prt,
             ''  Distribution ID:    '' @ env_hex_encode env dist_id];
           (out, ex) = (case parse_arg args ''--test-emit'' of
               Some path \<Rightarrow> emit_test env dist_id path
             | None \<Rightarrow> run_heartbeat env dist_id)
       in (banner @ out, ex))"

subsection \<open>Sequences of operations\<close>

fun record_all :: "(bytes \<Rightarrow> bytes) \<Rightarrow> GuestAuditSource \<Rightarrow> guest_request list \<Rightarrow> GuestWriteRecord list" where
  \<comment> \<open>the records of a session, in order; refused paths give none\<close>
  "record_all sha256 s [] = []"
| "record_all sha256 s (q # qs) = (case record_operation sha256 s q of
     (Err _, s') \<Rightarrow> record_all sha256 s' qs
   | (Ok r, s') \<Rightarrow> r # record_all sha256 s' qs)"

lemma record_refused:
  "\<not> is_normalized_mnt_path (req_normalized_path q) \<Longrightarrow>
     \<exists>e. record_operation sha256 s q = (Err e, s)"
  by (simp add: record_operation_def)

lemma record_accepted:
  assumes "is_normalized_mnt_path (req_normalized_path q)"
  obtains r where "record_operation sha256 s q = (Ok r, s\<lparr>sequence_counter := sequence_counter s + 1\<rparr>)"
    "sequence_number r = sequence_counter s" "major (version r) = 1" "record_flags r = 0"
    "normalized_path r = req_normalized_path q" "distribution_id r = source_distribution_id s"
    "executable_sha256 r = sha256 (as_bytes (req_executable_path q))"
    "\<exists>t. cgroup_sha256 r = sha256 (as_bytes t)"
  using assms that by (fastforce simp: record_operation_def Let_def)

lemma word_of_nat_unat_plus: "word_of_nat (unat s) + 1 = s + (1 :: u64)"
  by simp

lemma record_all_sequence:
  assumes "unat (sequence_counter s) + length qs < 2 ^ 64"
  shows "map (\<lambda>r. unat (sequence_number r)) (record_all sha256 s qs)
     = [unat (sequence_counter s) ..< unat (sequence_counter s) + length (record_all sha256 s qs)]
   \<and> length (record_all sha256 s qs) \<le> length qs"
  using assms
proof (induction qs arbitrary: s)
  case Nil
  then show ?case by simp
next
  case (Cons q qs)
  show ?case
  proof (cases "is_normalized_mnt_path (req_normalized_path q)")
    case True
    then obtain r where r: "record_operation sha256 s q = (Ok r, s\<lparr>sequence_counter := sequence_counter s + 1\<rparr>)"
        "sequence_number r = sequence_counter s"
      by (rule record_accepted)
    have "unat (sequence_counter s + 1) = Suc (unat (sequence_counter s))"
      using Cons.prems unat_add_no_wrap [of "sequence_counter s" 1] by simp
    then show ?thesis
      using Cons.IH [of "s\<lparr>sequence_counter := sequence_counter s + 1\<rparr>"] Cons.prems r
      by (simp add: upt_conv_Cons del: upt_Suc)
  next
    case False
    then obtain e where "record_operation sha256 s q = (Err e, s)" using record_refused by blast
    with Cons.IH [of s] Cons.prems show ?thesis by simp
  qed
qed

lemma record_all_member:
  assumes "r \<in> set (record_all sha256 s qs)" "\<And>b. length (sha256 b) = 32"
    "length (source_distribution_id s) = 16"
  shows "is_normalized_mnt_path (normalized_path r) \<and> major (version r) = 1 \<and> record_flags r = 0
     \<and> length (distribution_id r) = 16 \<and> length (executable_sha256 r) = 32
     \<and> length (cgroup_sha256 r) = 32 \<and> normalized_path r \<in> req_normalized_path ` set qs"
  using assms
proof (induction qs arbitrary: s)
  case Nil
  then show ?case by simp
next
  case (Cons q qs)
  show ?case
  proof (cases "is_normalized_mnt_path (req_normalized_path q)")
    case True
    then obtain r' where r': "record_operation sha256 s q = (Ok r', s\<lparr>sequence_counter := sequence_counter s + 1\<rparr>)"
      "major (version r') = 1" "record_flags r' = 0" "normalized_path r' = req_normalized_path q"
      "distribution_id r' = source_distribution_id s"
      "executable_sha256 r' = sha256 (as_bytes (req_executable_path q))"
      "\<exists>t. cgroup_sha256 r' = sha256 (as_bytes t)"
      by (rule record_accepted)
    show ?thesis
    proof (cases "r = r'")
      case True
      with r' Cons.prems \<open>is_normalized_mnt_path (req_normalized_path q)\<close> show ?thesis by auto
    next
      case False
      then have "r \<in> set (record_all sha256 (s\<lparr>sequence_counter := sequence_counter s + 1\<rparr>) qs)"
        using r' Cons.prems by simp
      with Cons.IH Cons.prems show ?thesis by auto
    qed
  next
    case False
    then obtain e where "record_operation sha256 s q = (Err e, s)" using record_refused by blast
    with Cons show ?thesis by auto
  qed
qed

lemma prepare_Ok: "prepare_wire_frame r = Ok b \<longleftrightarrow> to_frame r = Ok b"
  by (simp add: prepare_wire_frame_def)

lemma to_frame_long:
  assumes "is_normalized_mnt_path (normalized_path r)"
  shows "is_ok (to_frame r) \<longleftrightarrow> length (normalized_path r) \<le> 4096"
proof -
  have "6 \<le> length (normalized_path r)" using assms by (rule normalized_length)
  with assms show ?thesis by (auto simp: to_frame_def Let_def kavach_const)
qed

definition sample_requests :: "guest_request list" where
  "sample_requests = map (\<lambda>p. \<lparr>req_pid = 7, req_executable_path = ''/bin/sh'', req_normalized_path = p,
     req_operation = Rename, req_range_start = 0, req_range_length = 0, req_monotonic_ns = 5,
     req_realtime_ns = 6\<rparr>) [''/mnt/c/a'', ''/etc/passwd'', ''/mnt/c/b'']"

lemma backoff_value:
  "unat (compute_backoff_ms a m) = min (1000 * 2 ^ min (unat a) 6) (unat m)"
proof -
  have shift: "unat (min a 6) = min (unat a) 6"
    by (simp add: min_def word_le_nat_alt)
  have mn: "unat (min x y) = min (unat x) (unat y)" for x y :: u64
    by (simp add: min_def word_le_nat_alt)
  have "(2 :: nat) ^ min (unat a) 6 \<le> 2 ^ 6" by (rule power_increasing) simp_all
  then have b: "(2 :: nat) ^ min (unat a) 6 \<le> 64" by simp
  then have "unat (push_bit (min (unat a) 6) (1 :: u64)) = 2 ^ min (unat a) 6"
    unfolding unsigned_push_bit_eq by (simp add: take_bit_eq_mod)
  with b have "unat (1000 * push_bit (min (unat a) 6) (1 :: u64)) = 1000 * 2 ^ min (unat a) 6"
    by (simp add: unat_word_ariths)
  then show ?thesis by (simp add: compute_backoff_ms_def shift mn Let_def)
qed

lemma prepare_is_ok:
  assumes "is_normalized_mnt_path (normalized_path r)"
  shows "is_ok (prepare_wire_frame r) \<longleftrightarrow> length (normalized_path r) \<le> 4096"
  using to_frame_long [OF assms] by (cases "to_frame r") (simp_all add: prepare_wire_frame_def)

lemma env_record:
  assumes "is_normalized_mnt_path path"
  obtains r where "fst (record_operation (env_sha256 env) (audit_source_new d) (env_request env exe path n)) = Ok r"
    "normalized_path r = path"
proof -
  have "is_normalized_mnt_path (req_normalized_path (env_request env exe path n))"
    using assms by (simp add: env_request_def)
  then show thesis
    by (rule record_accepted [of _ "env_sha256 env" "audit_source_new d"]) (use that in \<open>auto simp: env_request_def\<close>)
qed

lemma emit_panics:
  "snd (emit_test env d path) = Panicked \<longleftrightarrow> is_normalized_mnt_path path \<and> 4096 < length path"
proof (cases "is_normalized_mnt_path path")
  case True
  then obtain r where "fst (record_operation (env_sha256 env) (audit_source_new d)
      (env_request env ''/usr/bin/python3'' path 4096)) = Ok r" "normalized_path r = path"
    by (rule env_record)
  with True prepare_is_ok [of r] show ?thesis
    by (cases "prepare_wire_frame r") (simp_all add: emit_test_def Let_def not_le)
next
  case False
  then show ?thesis by (simp add: emit_test_def env_request_def record_operation_def)
qed

lemma heartbeat_returns: "snd (run_heartbeat env d) = Returned"
proof -
  let ?p = "''/mnt/c/Users/Developer/workspace/project.rs''"
  have n: "is_normalized_mnt_path ?p"
    using normalized_join(1) [of "[''c'', ''Users'', ''Developer'', ''workspace'', ''project.rs'']"]
    by (simp add: plain_segment_def)
  then obtain r where "fst (record_operation (env_sha256 env) (audit_source_new d)
      (env_request env ''/usr/bin/cargo'' ?p 8192)) = Ok r" "normalized_path r = ?p"
    by (rule env_record)
  with n prepare_is_ok [of r] show ?thesis
    by (cases "prepare_wire_frame r") (simp_all add: run_heartbeat_def Let_def)
qed

lemma guest_main_exit:
  "snd (guest_main env args) = (if ''--help'' \<in> set args \<or> ''-h'' \<in> set args then Returned
     else case parse_arg args ''--test-emit'' of
       Some path \<Rightarrow> snd (emit_test env (snd (snd (guest_settings env args))) path)
     | None \<Rightarrow> Returned)"
proof -
  have "list_ex (\<lambda>a. a = ''--help'' \<or> a = ''-h'') args \<longleftrightarrow> ''--help'' \<in> set args \<or> ''-h'' \<in> set args"
    unfolding list_ex_iff by blast
  then show ?thesis
    by (simp add: guest_main_def case_prod_beta Let_def heartbeat_returns split: option.split)
qed

subsection \<open>Properties\<close>

text \<open>C21: a guest session is accepted by the host end to end. For any sequence of requests (fewer
  than \<open>2 ^ 64 - 1\<close>), the records made carry the sequence numbers 1, 2, 3, ... without gaps
  whatever requests are refused in between, and every record whose path is UTF-8 of at most
  4096 bytes is framed and decoded by the host to the same record. SHA-256 is any function
  with 32-byte results.\<close>

theorem guest_session_decodes_on_host:
  assumes "\<And>b. length (sha256 b) = 32" and "length distro = 16" and "length qs < 2 ^ 64 - 1"
  shows "map (\<lambda>r. unat (sequence_number r)) (record_all sha256 (audit_source_new distro) qs)
       = [1 ..< 1 + length (record_all sha256 (audit_source_new distro) qs)]
     \<and> (\<forall>r \<in> set (record_all sha256 (audit_source_new distro) qs).
          valid_utf8 (as_bytes (normalized_path r)) \<and> length (normalized_path r) \<le> 4096 \<longrightarrow>
          (\<exists>b. prepare_wire_frame r = Ok b \<and> from_frame b = Ok r))"
proof -
  let ?rs = "record_all sha256 (audit_source_new distro) qs"
  have nums: "map (\<lambda>r. unat (sequence_number r)) ?rs = [1 ..< 1 + length ?rs]"
    using record_all_sequence [of "audit_source_new distro" qs sha256] assms(3)
    by (simp add: audit_source_new_def)
  have "\<exists>b. prepare_wire_frame r = Ok b \<and> from_frame b = Ok r"
    if r: "r \<in> set ?rs" and ok: "valid_utf8 (as_bytes (normalized_path r))" "length (normalized_path r) \<le> 4096" for r
  proof -
    have "unat (sequence_number r) \<in> set (map (\<lambda>r. unat (sequence_number r)) ?rs)" using r by simp
    then have "sequence_number r \<noteq> 0" unfolding nums by auto
    then have "wf_record r \<and> valid_record r"
      using record_all_member [OF r assms(1)] assms(2) ok
      by (simp add: wf_record_def valid_record_def audit_source_new_def kavach_const)
    then show ?thesis using frame_codec.dec_enc [of r] by (auto simp: prepare_Ok)
  qed
  with nums show ?thesis by blast
qed

theorem guest_session_decodes_on_host_witness:
  "map (\<lambda>r. unat (sequence_number r)) (record_all (\<lambda>b. replicate 32 0) (audit_source_new (replicate 16 0x42)) sample_requests) = [1, 2]"
  using conjunct1 [OF guest_session_decodes_on_host [of "\<lambda>b. replicate 32 0" "replicate 16 0x42" sample_requests]]
  by (simp add: sample_requests_def record_operation_def is_normalized_mnt_path_def starts_with_def
      audit_source_new_def Let_def upt_rec)

text \<open>The answer of the guest never fails the host's nonce check, and is accepted exactly when
  the guest clock did not run backwards and the round trip took between 1 ns and 100 ms;
  otherwise the refusal names the right cause.\<close>

theorem guest_answer_outcome:
  "fst (process_response s c (respond_to_challenge c g1 g2) t3) =
     (if unat t3 \<le> unat (t0_host_monotonic_ns c) \<or> unat g2 < unat g1 then Err NonMonotonicTimestamps
      else if unat t3 - unat (t0_host_monotonic_ns c) > 100000000
        then Err (RttTooHigh (t3 - t0_host_monotonic_ns c) 100000000)
      else Ok (make_estimate (sync_distribution_id s)
        (last_n 5 (accepted_samples s @ [make_sample c (respond_to_challenge c g1 g2) t3])) t3))"
  if "length (accepted_samples s) \<le> 5"
  using that
  by (auto simp: process_response_def respond_to_challenge_def push_drop_first_spec Let_def kavach_const
      word_le_nat_alt word_less_nat_alt unat_minus_le)

theorem guest_answer_outcome_witness:
  "fst (process_response (synchronizer_new []) \<lparr>challenge_nonce = [], t0_host_monotonic_ns = 100\<rparr>
      (respond_to_challenge \<lparr>challenge_nonce = [], t0_host_monotonic_ns = 100\<rparr> 5 4) 300)
     = Err NonMonotonicTimestamps"
  by (subst guest_answer_outcome) (simp_all add: synchronizer_new_def)

text \<open>The reconnect back-off is \<open>min (1000 * 2 ^ min attempt 6, max)\<close> without overflow: it
  never exceeds the configured maximum, never decreases with the number of attempts, and for
  a maximum of at most 64 s it is the documented \<open>min (1000 * 2 ^ attempt, max)\<close>.\<close>

theorem backoff_bounds:
  "unat (compute_backoff_ms a m) = min (1000 * 2 ^ min (unat a) 6) (unat m)
   \<and> compute_backoff_ms a m \<le> m
   \<and> (a \<le> a' \<longrightarrow> compute_backoff_ms a m \<le> compute_backoff_ms a' m)
   \<and> (unat m \<le> 64000 \<longrightarrow> unat (compute_backoff_ms a m) = min (1000 * 2 ^ unat a) (unat m))"
proof -
  have mono: "(2 :: nat) ^ min i 6 \<le> 2 ^ min j 6" if "i \<le> j" for i j
    using that by (intro power_increasing) auto
  have "(64 :: nat) \<le> 2 ^ unat a" if "6 \<le> unat a"
    using power_increasing [OF that, of "2 :: nat"] by simp
  then have "min (1000 * 2 ^ min (unat a) 6) (unat m) = min (1000 * 2 ^ unat a) (unat m)" if "unat m \<le> 64000"
    using that by (cases "6 \<le> unat a") (simp_all add: min_absorb2)
  with mono [of "unat a" "unat a'"] show ?thesis
    by (auto simp: backoff_value word_le_nat_alt min_le_iff_disj)
qed

theorem backoff_bounds_witness:
  "compute_backoff_ms 3 60000 \<le> compute_backoff_ms 9 60000 \<and> unat (compute_backoff_ms 9 60000) = min (1000 * 2 ^ unat (9 :: u32)) 60000"
  using backoff_bounds [of 3 60000 9] backoff_bounds [of 9 60000 9] by simp

text \<open>The agent panics in exactly one situation: \<open>--test-emit\<close> (without \<open>--help\<close>) with a normalized
  path of more than 4096 bytes, whose frame \<open>main\<close> unwraps.\<close>

theorem guest_main_panics_iff:
  "snd (guest_main env args) = Panicked \<longleftrightarrow>
     ''--help'' \<notin> set args \<and> ''-h'' \<notin> set args \<and>
     (\<exists>path. parse_arg args ''--test-emit'' = Some path
        \<and> is_normalized_mnt_path path \<and> 4096 < length path)"
  by (simp add: guest_main_exit emit_panics split: option.split)

end
