(* ===== verification/Kavach_Allowlist.thy ===== *)
theory Kavach_Allowlist
  imports Kavach_Manifest
begin

section \<open>The signed allowlist\<close>

text \<open>
  Models \<open>crates/kavach-core/src/allowlist.rs\<close>: bounds, signature check and matching of entries.
  The JSON parser is a parameter; the cryptographic crates are the record of the manifest
  theory.
\<close>

definition MAX_ALLOWLIST_ENTRIES :: nat where
  [kavach_const]: "MAX_ALLOWLIST_ENTRIES = 4096"

definition MAX_PATH_SCOPE_ENTRIES :: nat where
  [kavach_const]: "MAX_PATH_SCOPE_ENTRIES = 32"

definition MAX_PATH_LENGTH_BYTES :: nat where
  [kavach_const]: "MAX_PATH_LENGTH_BYTES = 1024"

datatype AllowlistError =
    ParseError string
  | UnsupportedMajorVersion u16
  | SignatureVerificationFailed string
  | DigestMismatch string string
  | EntryCountExceeded nat
  | PathScopeExceeded string nat
  | PathLengthExceeded string nat
  | DisallowedAction string string
  | ArtifactExpired string

definition quoted :: "string \<Rightarrow> string" where
  "quoted s = [CHR 0x27] @ s @ [CHR 0x27]"

definition show_AllowlistError :: "AllowlistError \<Rightarrow> string" where
  "show_AllowlistError e = (case e of
     ParseError msg \<Rightarrow> ''allowlist parse error: '' @ msg
   | UnsupportedMajorVersion v \<Rightarrow> ''unsupported allowlist major version: '' @ show_word v
   | SignatureVerificationFailed msg \<Rightarrow> ''allowlist signature verification failed: '' @ msg
   | DigestMismatch expected actual \<Rightarrow>
       ''signed payload digest mismatch: expected '' @ expected @ '', actual '' @ actual
   | EntryCountExceeded c \<Rightarrow>
       ''entry count '' @ show_nat c @ '' exceeds maximum '' @ show_nat MAX_ALLOWLIST_ENTRIES
   | PathScopeExceeded i c \<Rightarrow> ''entry '' @ quoted i @ '' path count '' @ show_nat c
       @ '' exceeds maximum '' @ show_nat MAX_PATH_SCOPE_ENTRIES
   | PathLengthExceeded i len \<Rightarrow> ''entry '' @ quoted i @ '' path length '' @ show_nat len
       @ '' exceeds maximum '' @ show_nat MAX_PATH_LENGTH_BYTES
   | DisallowedAction i action \<Rightarrow> ''entry '' @ quoted i @ '' contains disallowed action ''
       @ quoted action @ '' (only '' @ quoted ''suspend_and_alert'' @ '' permitted)''
   | ArtifactExpired t \<Rightarrow> ''allowlist expired at '' @ t)"

record AuthenticodeIdentity =
  publisher_subject :: string
  thumbprint_sha256 :: string

record AllowlistEntry =
  entry_id :: string
  image_sha256 :: string
  authenticode :: "AuthenticodeIdentity option"
  product_name :: string
  allowed_actions :: "string list"
  path_scope :: "string list"
  entry_expires_at :: string

definition entry_matches ::
    "AllowlistEntry \<Rightarrow> string \<Rightarrow> AuthenticodeIdentity option \<Rightarrow> string option \<Rightarrow> bool" where
  "entry_matches e target_image target_auth target_path =
    (if \<not> eq_ignore_ascii_case (image_sha256 e) target_image then False
     else if (case authenticode e of
         None \<Rightarrow> False
       | Some required \<Rightarrow> (case target_auth of
           Some actual \<Rightarrow> publisher_subject required \<noteq> publisher_subject actual
             \<or> \<not> eq_ignore_ascii_case (thumbprint_sha256 required) (thumbprint_sha256 actual)
         | None \<Rightarrow> True)) then False
     else if path_scope e \<noteq> [] \<and> (case target_path of
         Some path \<Rightarrow> \<not> list_ex (\<lambda>scope. eq_ignore_ascii_case scope path) (path_scope e)
       | None \<Rightarrow> True) then False
     else True)"

record AllowlistManifest =
  allowlist_version :: ArtifactVersion
  allowlist_id :: string
  issued_at :: string
  allowlist_expires_at :: string
  allowlist_policy_generation :: u64
  signed_payload_sha256 :: string
  allowlist_key_id :: string
  entries :: "AllowlistEntry list"
  allowlist_signature :: string

fun check_paths :: "string \<Rightarrow> string list \<Rightarrow> AllowlistError + unit" where
  "check_paths i [] = Ok ()"
| "check_paths i (p # ps) =
     (if length p > MAX_PATH_LENGTH_BYTES then Err (PathLengthExceeded i (length p)) else check_paths i ps)"

fun check_actions :: "string \<Rightarrow> string list \<Rightarrow> AllowlistError + unit" where
  "check_actions i [] = Ok ()"
| "check_actions i (a # as) =
     (if a \<noteq> ''suspend_and_alert'' then Err (DisallowedAction i a) else check_actions i as)"

fun check_entries :: "AllowlistEntry list \<Rightarrow> AllowlistError + unit" where
  \<comment> \<open>the loop over the entries, with its two inner loops\<close>
  "check_entries [] = Ok ()"
| "check_entries (e # es) =
     (if length (path_scope e) > MAX_PATH_SCOPE_ENTRIES
        then Err (PathScopeExceeded (entry_id e) (length (path_scope e)))
      else case check_paths (entry_id e) (path_scope e) of
        Err x \<Rightarrow> Err x
      | Ok _ \<Rightarrow> (case check_actions (entry_id e) (allowed_actions e) of
          Err x \<Rightarrow> Err x
        | Ok _ \<Rightarrow> check_entries es))"

definition parse_and_verify ::
    "('k, 'x) crypto_scheme \<Rightarrow> (bytes \<Rightarrow> string + AllowlistManifest) \<Rightarrow> bytes \<Rightarrow> 'k
      \<Rightarrow> AllowlistError + AllowlistManifest" where
  "parse_and_verify lib parse json_bytes key =
    (case map_err ParseError (parse json_bytes) of
       Err e \<Rightarrow> Err e
     | Ok manifest \<Rightarrow>
       if major (allowlist_version manifest) \<noteq> 1
         then Err (UnsupportedMajorVersion (major (allowlist_version manifest)))
       else if length (entries manifest) > MAX_ALLOWLIST_ENTRIES
         then Err (EntryCountExceeded (length (entries manifest)))
       else case check_entries (entries manifest) of
         Err e \<Rightarrow> Err e
       | Ok _ \<Rightarrow>
       (case map_err (\<lambda>e. ParseError (''signed_payload_sha256 hex: '' @ e))
            (hex_decode lib (signed_payload_sha256 manifest)) of
         Err e \<Rightarrow> Err e
       | Ok payload_digest_bytes \<Rightarrow>
       (case map_err (\<lambda>e. SignatureVerificationFailed (''base64 decode: '' @ e))
            (decode_base64 (allowlist_signature manifest)) of
         Err e \<Rightarrow> Err e
       | Ok sig_bytes \<Rightarrow>
         if length sig_bytes \<noteq> 64
           then Err (SignatureVerificationFailed (''expected 64 signature bytes, got ''
             @ show_nat (length sig_bytes)))
         else case map_err SignatureVerificationFailed
             (verify_strict lib key payload_digest_bytes sig_bytes) of
           Err e \<Rightarrow> Err e
         | Ok _ \<Rightarrow> Ok manifest)))"

definition is_exempt ::
    "AllowlistManifest \<Rightarrow> string \<Rightarrow> AuthenticodeIdentity option \<Rightarrow> string option \<Rightarrow> bool" where
  "is_exempt m img auth path = list_ex (\<lambda>e. entry_matches e img auth path) (entries m)"

subsection \<open>What acceptance and exemption mean\<close>

definition entry_bounded :: "AllowlistEntry \<Rightarrow> bool" where
  "entry_bounded e \<longleftrightarrow> length (path_scope e) \<le> 32 \<and> (\<forall>p \<in> set (path_scope e). length p \<le> 1024)
     \<and> set (allowed_actions e) \<subseteq> {''suspend_and_alert''}"

definition signature_valid :: "('k, 'x) crypto_scheme \<Rightarrow> 'k \<Rightarrow> AllowlistManifest \<Rightarrow> bool" where
  "signature_valid lib key m \<longleftrightarrow> (\<exists>d s. hex_decode lib (signed_payload_sha256 m) = Ok d
     \<and> decode_base64 (allowlist_signature m) = Ok s \<and> length s = 64
     \<and> verify_strict lib key d s = Ok ())"

lemma check_paths_Ok: "check_paths i ps = Ok u \<longleftrightarrow> (\<forall>p \<in> set ps. length p \<le> 1024)"
  by (induction ps) (auto simp: kavach_const)

lemma check_actions_Ok: "check_actions i as = Ok u \<longleftrightarrow> set as \<subseteq> {''suspend_and_alert''}"
  by (induction as) auto

lemma check_entries_Ok: "check_entries es = Ok u \<longleftrightarrow> (\<forall>e \<in> set es. entry_bounded e)"
proof (induction es)
  case Nil
  show ?case by simp
next
  case (Cons e es)
  then show ?case
    by (auto simp: entry_bounded_def sum_case_Ok if_Err_Ok check_paths_Ok check_actions_Ok kavach_const)
qed

lemma parse_and_verify_Ok:
  "parse_and_verify lib parse b key = Ok m \<longleftrightarrow>
     parse b = Ok m \<and> major (allowlist_version m) = 1 \<and> length (entries m) \<le> 4096
     \<and> (\<forall>e \<in> set (entries m). entry_bounded e) \<and> signature_valid lib key m"
  by (auto simp: parse_and_verify_def sum_case_Ok if_Err_Ok check_entries_Ok signature_valid_def kavach_const)

lemma entry_matches_iff:
  "entry_matches e img auth path \<longleftrightarrow> eq_ignore_ascii_case (image_sha256 e) img
     \<and> (\<forall>req. authenticode e = Some req \<longrightarrow> (\<exists>act. auth = Some act
          \<and> publisher_subject req = publisher_subject act
          \<and> eq_ignore_ascii_case (thumbprint_sha256 req) (thumbprint_sha256 act)))
     \<and> (path_scope e \<noteq> [] \<longrightarrow> (\<exists>p s. path = Some p \<and> s \<in> set (path_scope e) \<and> eq_ignore_ascii_case s p))"
  by (auto simp: entry_matches_def list_ex_iff split: option.splits)

definition sample_entry :: AllowlistEntry where
  "sample_entry = \<lparr>entry_id = ''e1'', image_sha256 = ''AA'', authenticode = None, product_name = ''P'',
     allowed_actions = [''suspend_and_alert''], path_scope = [''p''], entry_expires_at = ''2020''\<rparr>"

definition sample_allowlist :: AllowlistManifest where
  "sample_allowlist = \<lparr>allowlist_version = \<lparr>major = 1, minor = 0\<rparr>, allowlist_id = ''a'', issued_at = ''2019'',
     allowlist_expires_at = ''2020'', allowlist_policy_generation = 1, signed_payload_sha256 = ''d'',
     allowlist_key_id = ''k'', entries = [], allowlist_signature = encode_base64 (replicate 64 0)\<rparr>"

subsection \<open>Properties\<close>


text \<open>A target is exempt exactly when some entry names its image digest (up to ASCII case)
  and, where the entry asks for them, the same publisher and thumbprint and one of its paths:
  a missing signer or path never satisfies an entry that requires one.\<close>

theorem exempt_iff_entry:
  "is_exempt m img auth path \<longleftrightarrow> (\<exists>e \<in> set (entries m). eq_ignore_ascii_case (image_sha256 e) img
     \<and> (authenticode e = None \<or> (\<exists>req act. authenticode e = Some req \<and> auth = Some act
          \<and> publisher_subject req = publisher_subject act
          \<and> eq_ignore_ascii_case (thumbprint_sha256 req) (thumbprint_sha256 act)))
     \<and> (path_scope e = [] \<or> (\<exists>p s. path = Some p \<and> s \<in> set (path_scope e) \<and> eq_ignore_ascii_case s p)))"
proof -
  have "entry_matches e img auth path \<longleftrightarrow> eq_ignore_ascii_case (image_sha256 e) img
     \<and> (authenticode e = None \<or> (\<exists>req act. authenticode e = Some req \<and> auth = Some act
          \<and> publisher_subject req = publisher_subject act
          \<and> eq_ignore_ascii_case (thumbprint_sha256 req) (thumbprint_sha256 act)))
     \<and> (path_scope e = [] \<or> (\<exists>p s. path = Some p \<and> s \<in> set (path_scope e) \<and> eq_ignore_ascii_case s p))" for e
    by (cases "authenticode e") (auto simp: entry_matches_iff)
  then show ?thesis by (simp add: is_exempt_def list_ex_iff)
qed

text \<open>C40: the signature does not cover the entries: when an allowlist is accepted, any bytes that
  parse to the same manifest with other entries within the bounds are accepted too, and then
  exempt whatever those entries name. The digest is never compared with the payload.\<close>

theorem entries_not_covered_by_signature:
  assumes "parse_and_verify lib parse b key = Ok m"
    and "parse b' = Ok (m\<lparr>entries := es\<rparr>)" and "length es \<le> 4096" and "\<forall>e \<in> set es. entry_bounded e"
  shows "parse_and_verify lib parse b' key = Ok (m\<lparr>entries := es\<rparr>)"
  using assms by (auto simp: parse_and_verify_Ok signature_valid_def)

theorem entries_not_covered_by_signature_witness:
  "parse_and_verify sample_crypto (\<lambda>b. if b = [] then Ok sample_allowlist else Ok (sample_allowlist\<lparr>entries := [sample_entry]\<rparr>)) [1] ()
     = Ok (sample_allowlist\<lparr>entries := [sample_entry]\<rparr>)"
proof (rule entries_not_covered_by_signature)
  show "parse_and_verify sample_crypto (\<lambda>b. if b = [] then Ok sample_allowlist
      else Ok (sample_allowlist\<lparr>entries := [sample_entry]\<rparr>)) [] () = Ok sample_allowlist"
    by (simp add: parse_and_verify_Ok signature_valid_def sample_allowlist_def sample_crypto_def decode_encode)
qed (simp_all add: entry_bounded_def sample_entry_def)

end
