(* ===== verification/Kavach_Rounding.thy ===== *)
theory Kavach_Rounding
  imports Kavach_Tensor
begin

section \<open>Rounding-error analysis\<close>

text \<open>
  The error calculus for the floating-point code of the detectors and the model: \<open>near a x e\<close> says that
  the float \<open>a\<close> is finite and within \<open>e\<close> of the rational \<open>x\<close>. The locale \<open>fp_format\<close> states what the
  calculus needs of a format, a bound of the error of one rounding; it holds for \<open>f32\<close> and \<open>f64\<close>.
\<close>

definition near :: "fl \<Rightarrow> rat \<Rightarrow> rat \<Rightarrow> bool" where
  "near a x e \<longleftrightarrow> is_finite a \<and> \<bar>fval a - x\<bar> \<le> e"

lemma near_weaken: "near a x e \<Longrightarrow> e \<le> e' \<Longrightarrow> near a x e'"
  by (simp add: near_def)

lemma near_shift: "near a x e \<Longrightarrow> \<bar>x - y\<bar> \<le> d \<Longrightarrow> near a y (e + d)"
  unfolding near_def by linarith

lemma near_exact: "near (Fin x) x 0"
  by (simp add: near_def is_finite_def fval_def)

lemma near_self: "is_finite a \<Longrightarrow> near a (fval a) 0"
  by (simp add: near_def)

lemma nearD: "near a x e \<Longrightarrow> is_finite a" "near a x e \<Longrightarrow> \<bar>fval a - x\<bar> \<le> e" "near a x e \<Longrightarrow> \<bar>fval a\<bar> \<le> \<bar>x\<bar> + e"
  unfolding near_def by auto

lemma near_le_fle: "near a x e \<Longrightarrow> near b y d \<Longrightarrow> x + e < y - d \<Longrightarrow> \<not> fle b a"
  by (cases a; cases b) (auto simp: near_def fle_def is_finite_def fval_def)

lemma finite_cases: "is_finite a \<longleftrightarrow> a \<noteq> NaN \<and> a \<noteq> PosInf \<and> a \<noteq> NegInf"
  by (cases a) (simp_all add: is_finite_def)

lemma fneg_finite [simp]: "is_finite (fneg a) = is_finite a" "is_finite a \<Longrightarrow> fval (fneg a) = - fval a"
  by (cases a; simp add: fneg_def is_finite_def fval_def)+

lemma near_neg: "near a x e \<Longrightarrow> near (fneg a) (- x) e"
  by (simp add: near_def abs_if split: if_splits)

text \<open>Operations on finite operands round the exact result once.\<close>

lemma fround_zero: "is_finite (fround f 0)" "fval (fround f 0) = 0"
  by (simp_all add: fround_def is_finite_def fval_def)

lemma fadd_finite:
  assumes "is_finite a" "is_finite b"
  shows "is_finite (fadd f a b) = is_finite (fround f (fval a + fval b))"
    "fval (fadd f a b) = fval (fround f (fval a + fval b))"
  using assms fround_zero [of f]
  by (auto simp: fadd_def finite_cases is_finite_def [of NegZero] fval_def [of NegZero])

lemma fmul_finite:
  assumes "is_finite a" "is_finite b"
  shows "is_finite (fmul f a b) = is_finite (fround f (fval a * fval b))"
    "fval (fmul f a b) = fval (fround f (fval a * fval b))"
  using assms fround_zero [of f]
  by (auto simp: fmul_def finite_cases signed_zero_def Let_def fval_def [of NegZero] fval_def [of "Fin 0"])

lemma fdiv_finite:
  assumes "is_finite a" "c \<noteq> 0"
  shows "is_finite (fdiv f a (Fin c)) = is_finite (fround f (fval a / c))"
    "fval (fdiv f a (Fin c)) = fval (fround f (fval a / c))"
  using assms fround_zero [of f]
  by (auto simp: fdiv_def finite_cases signed_zero_def Let_def fval_def [of NegZero] fval_def [of "Fin 0"]
      fval_def [of "Fin c"])

subsection \<open>The contract of a format\<close>

locale fp_format =
  fixes f :: float_format and u :: rat
  assumes round_finite: "\<bar>x\<bar> \<le> 2 ^ 100 \<Longrightarrow> is_finite (fround f x)"
    and round_error: "\<bar>x\<bar> \<le> 2 ^ 100 \<Longrightarrow> \<bar>fval (fround f x) - x\<bar> \<le> (\<bar>x\<bar> + 1) * u"
    and unit_nonneg: "0 \<le> u"
begin

lemma near_round: "\<bar>x - y\<bar> \<le> e \<Longrightarrow> \<bar>x\<bar> + 1 \<le> M \<Longrightarrow> M \<le> 2 ^ 100 \<Longrightarrow> near (fround f x) y (e + M * u)"
proof -
  assume x: "\<bar>x - y\<bar> \<le> e" "\<bar>x\<bar> + 1 \<le> M" "M \<le> 2 ^ 100"
  then have "\<bar>fval (fround f x) - x\<bar> \<le> M * u"
    using round_error [of x] mult_right_mono [OF x(2) unit_nonneg] by linarith
  then show ?thesis using x round_finite [of x] unfolding near_def by linarith
qed

lemma near_add:
  assumes "near a x d" "near b y e" "\<bar>x\<bar> + \<bar>y\<bar> + d + e + 1 \<le> M" "M \<le> 2 ^ 100"
  shows "near (fadd f a b) (x + y) (d + e + M * u)"
proof -
  have "near (fround f (fval a + fval b)) (x + y) (d + e + M * u)"
    using nearD [OF assms(1)] nearD [OF assms(2)] assms(3,4) by (intro near_round) linarith+
  then show ?thesis using nearD(1) [OF assms(1)] nearD(1) [OF assms(2)] by (simp add: near_def fadd_finite)
qed

lemma near_sub:
  assumes "near a x d" "near b y e" "\<bar>x\<bar> + \<bar>y\<bar> + d + e + 1 \<le> M" "M \<le> 2 ^ 100"
  shows "near (fsub f a b) (x - y) (d + e + M * u)"
  using near_add [OF assms(1) near_neg [OF assms(2)], of M] assms(3,4) by (simp add: fsub_def)

lemma near_mul:
  assumes "near a x d" "near b y e" "(\<bar>x\<bar> + d) * (\<bar>y\<bar> + e) + 1 \<le> M" "M \<le> 2 ^ 100"
  shows "near (fmul f a b) (x * y) ((\<bar>x\<bar> + d) * e + \<bar>y\<bar> * d + M * u)"
proof -
  note a = nearD [OF assms(1)] and b = nearD [OF assms(2)]
  have "fval a * fval b - x * y = fval a * (fval b - y) + y * (fval a - x)" by (simp add: algebra_simps)
  then have "\<bar>fval a * fval b - x * y\<bar> \<le> \<bar>fval a\<bar> * \<bar>fval b - y\<bar> + \<bar>y\<bar> * \<bar>fval a - x\<bar>"
    by (metis abs_mult abs_triangle_ineq)
  also have "\<dots> \<le> (\<bar>x\<bar> + d) * e + \<bar>y\<bar> * d"
    using a b by (intro add_mono mult_mono) auto
  finally have "\<bar>fval a * fval b - x * y\<bar> \<le> (\<bar>x\<bar> + d) * e + \<bar>y\<bar> * d" .
  moreover have "\<bar>fval a * fval b\<bar> + 1 \<le> M"
  proof -
    have "0 \<le> \<bar>x\<bar> + d" using a(3) by linarith
    then show ?thesis using mult_mono [OF a(3) b(3)] assms(3) by (simp add: abs_mult)
  qed
  ultimately have "near (fround f (fval a * fval b)) (x * y) ((\<bar>x\<bar> + d) * e + \<bar>y\<bar> * d + M * u)"
    using assms(4) by (intro near_round)
  then show ?thesis using a(1) b(1) by (simp add: near_def fmul_finite)
qed

lemma near_div:
  assumes "near a x d" "0 < c" "(\<bar>x\<bar> + d) / c + 1 \<le> M" "M \<le> 2 ^ 100"
  shows "near (fdiv f a (Fin c)) (x / c) (d / c + M * u)"
proof -
  note a = nearD [OF assms(1)]
  have "\<bar>fval a / c - x / c\<bar> = \<bar>fval a - x\<bar> / c" using assms(2) by (simp add: diff_divide_distrib [symmetric])
  also have "\<dots> \<le> d / c" using a(2) assms(2) by (simp add: divide_right_mono)
  finally have "\<bar>fval a / c - x / c\<bar> \<le> d / c" .
  moreover have "\<bar>fval a / c\<bar> \<le> (\<bar>x\<bar> + d) / c" using divide_right_mono [OF a(3), of c] assms(2) by simp
  then have "\<bar>fval a / c\<bar> + 1 \<le> M" using assms(3) by linarith
  ultimately have "near (fround f (fval a / c)) (x / c) (d / c + M * u)" using assms(4) by (intro near_round)
  then show ?thesis using a(1) assms(2) by (simp add: near_def fdiv_finite)
qed

lemma near_cast: "near a x d \<Longrightarrow> \<bar>x\<bar> + d + 1 \<le> M \<Longrightarrow> M \<le> 2 ^ 100 \<Longrightarrow> near (fcast f a) x (d + M * u)"
proof -
  assume a: "near a x d" "\<bar>x\<bar> + d + 1 \<le> M" "M \<le> 2 ^ 100"
  then have "near (fround f (fval a)) x (d + M * u)" using nearD [OF a(1)] by (intro near_round) linarith+
  moreover have "0 \<le> M * u" using a unit_nonneg nearD [OF a(1)] by (intro mult_nonneg_nonneg) linarith+
  ultimately show ?thesis using a(1) by (cases a) (auto simp: fcast_def near_def is_finite_def fval_def)
qed

text \<open>A left-to-right sum: every term adds its own error and one rounding.\<close>

lemma near_sum_from:
  assumes zero: "near z0 0 0"
    and terms: "\<And>x. x \<in> set xs \<Longrightarrow> near (g x) (t x) e"
    and bounds: "\<And>x. x \<in> set xs \<Longrightarrow> \<bar>t x\<bar> \<le> B"
    and size_ok: "of_nat (length xs) * (B + e + M * u) + 1 \<le> M"
    and nonneg: "0 \<le> e" "0 \<le> B" "0 \<le> M" "M \<le> 2 ^ 100"
  shows "near (foldl (\<lambda>s x. fadd f s (g x)) z0 xs) (\<Sum>x\<leftarrow>xs. t x) (of_nat (length xs) * (e + M * u))
    \<and> \<bar>\<Sum>x\<leftarrow>xs. t x\<bar> \<le> of_nat (length xs) * B"
  using terms bounds size_ok
proof (induction xs rule: rev_induct)
  case Nil
  then show ?case by (simp add: zero)
next
  case (snoc z zs)
  let ?k = "of_nat (length zs) :: rat" and ?S = "\<Sum>x\<leftarrow>zs. t x"
  have Mu: "0 \<le> M * u" using nonneg(3) unit_nonneg by (rule mult_nonneg_nonneg)
  have len: "?k * (B + e + M * u) + (B + e + M * u) + 1 \<le> M" using snoc.prems(3) by (simp add: algebra_simps)
  have IH: "near (foldl (\<lambda>s x. fadd f s (g x)) z0 zs) ?S (?k * (e + M * u))" "\<bar>?S\<bar> \<le> ?k * B"
    using snoc.IH snoc.prems(1,2) len Mu nonneg(1,2) by auto
  have z: "near (g z) (t z) e" "\<bar>t z\<bar> \<le> B" using snoc.prems(1,2) by simp_all
  have "\<bar>?S\<bar> + \<bar>t z\<bar> + ?k * (e + M * u) + e + 1 \<le> M"
    using IH(2) z(2) len Mu nonneg(1) by (simp add: algebra_simps)
  from near_add [OF IH(1) z(1) this nonneg(4)]
  have "near (foldl (\<lambda>s x. fadd f s (g x)) z0 (zs @ [z])) (\<Sum>x\<leftarrow>zs @ [z]. t x) (of_nat (length (zs @ [z])) * (e + M * u))"
    by (simp add: algebra_simps)
  moreover have "\<bar>\<Sum>x\<leftarrow>zs @ [z]. t x\<bar> \<le> of_nat (length (zs @ [z])) * B"
    using IH(2) z(2) by (simp add: algebra_simps)
  ultimately show ?case by blast
qed

lemmas near_sum = near_sum_from [OF near_exact]

lemma near_fsum:
  assumes "\<And>a. a \<in> set as \<Longrightarrow> near (g a) (t a) e" "\<And>a. a \<in> set as \<Longrightarrow> \<bar>t a\<bar> \<le> B"
    and "of_nat (length as) * (B + e + M * u) + 1 \<le> M" "0 \<le> e" "0 \<le> B" "0 \<le> M" "M \<le> 2 ^ 100"
  shows "near (fsum f (map g as)) (\<Sum>a\<leftarrow>as. t a) (of_nat (length as) * (e + M * u))" "\<bar>\<Sum>a\<leftarrow>as. t a\<bar> \<le> of_nat (length as) * B"
proof -
  have "near NegZero 0 0" by (simp add: near_def is_finite_def fval_def)
  from near_sum_from [OF this assms] show "near (fsum f (map g as)) (\<Sum>a\<leftarrow>as. t a) (of_nat (length as) * (e + M * u))"
    "\<bar>\<Sum>a\<leftarrow>as. t a\<bar> \<le> of_nat (length as) * B" by (simp_all add: fsum_def foldl_map)
qed

end

subsection \<open>Single and double precision\<close>

lemma rnd_error_abs:
  assumes "0 < x"
  shows "\<bar>rnd f x - x\<bar> \<le> x * rpow2 (- int (prec f)) + rpow2 (qmin f - 1)"
proof (cases "qmin f \<le> ilog2 x - int (prec f) + 1")
  case True
  then show ?thesis using rnd_error [OF assms True] rpow2_pos [of "qmin f - 1"] by linarith
next
  case False
  let ?q = "quantum f x"
  have q: "?q = qmin f" using False by (simp add: quantum_def)
  have "rnd f x - x = (of_int (round_even (x / rpow2 ?q)) - x / rpow2 ?q) * rpow2 ?q"
    by (simp add: rnd_def field_simps)
  then have "\<bar>rnd f x - x\<bar> = \<bar>of_int (round_even (x / rpow2 ?q)) - x / rpow2 ?q\<bar> * rpow2 ?q"
    by (simp add: abs_mult less_imp_le)
  also have "\<dots> \<le> 1 / 2 * rpow2 ?q"
    by (intro mult_right_mono round_even_error) (simp add: less_imp_le)
  also have "1 / 2 * rpow2 ?q = rpow2 (qmin f - 1)" using rpow2_Suc [of "qmin f - 1"] by (simp add: q)
  finally show ?thesis using assms rpow2_pos [of "- int (prec f)"] by (simp add: add_increasing less_imp_le)
qed

lemma fp_format_intro:
  assumes "u = rpow2 (- int (prec f))" "qmin f - 1 \<le> - int (prec f)" "0 < prec f" "101 < emax f"
  shows "fp_format f u"
proof
  have u: "0 < u" "u \<le> 1" using assms(1,3) rpow2_mono [of "- int (prec f)" 0] by simp_all
  have pos: "is_finite (fround f x) \<and> \<bar>fval (fround f x) - x\<bar> \<le> (x + 1) * u" if "0 < x" "x \<le> 2 ^ 100" for x
  proof -
    have e: "\<bar>rnd f x - x\<bar> \<le> (x + 1) * u"
      using rnd_error_abs [OF that(1), of f] rpow2_mono [OF assms(2)] by (simp add: assms(1) algebra_simps)
    have "(x + 1) * u \<le> (x + 1) * 1" using u(2) that(1) by (intro mult_left_mono) simp_all
    with e have "\<bar>rnd f x - x\<bar> \<le> x + 1" by (metis mult.right_neutral order.trans)
    then have "rnd f x \<le> 2 * 2 ^ 100 + 1" using that(2) by linarith
    also have "\<dots> < rpow2 102" by (simp add: rpow2_def)
    also have "\<dots> \<le> rpow2 (emax f + 1)" using assms(4) by (intro rpow2_mono) simp
    finally have "fround f x = Fin (rnd f x)" using that(1) by (simp add: fround_pos)
    then show ?thesis using e by (simp add: is_finite_def fval_def)
  qed
  have all: "is_finite (fround f x) \<and> \<bar>fval (fround f x) - x\<bar> \<le> (\<bar>x\<bar> + 1) * u" if "\<bar>x\<bar> \<le> 2 ^ 100" for x
  proof -
    consider "x = 0" | "0 < x" | "0 < - x" by linarith
    then show ?thesis
    proof cases
      case 1
      then show ?thesis using fround_zero [of f] u by simp
    next
      case 2
      then show ?thesis using pos [of x] that by simp
    next
      case 3
      then have "is_finite (fround f (- x)) \<and> \<bar>fval (fround f (- x)) - (- x)\<bar> \<le> (- x + 1) * u" using pos [of "- x"] that by simp
      moreover have "fround f x = fneg (fround f (- x))" using fround_neg [OF 3, of f] by simp
      ultimately show ?thesis using 3 by (simp add: abs_minus_commute add.commute [of x])
    qed
  qed
  show "is_finite (fround f x)" "\<bar>fval (fround f x) - x\<bar> \<le> (\<bar>x\<bar> + 1) * u" if "\<bar>x\<bar> \<le> 2 ^ 100" for x
    using all [OF that] by simp_all
  show "0 \<le> u" using u by simp
qed

interpretation f32: fp_format b32 "1 / 2 ^ 24"
  by (rule fp_format_intro) (simp_all add: b32_def rpow2_def)

interpretation f64: fp_format b64 "1 / 2 ^ 53"
  by (rule fp_format_intro) (simp_all add: b64_def rpow2_def)

end
