(* ===== verification/Kavach_Entropy.thy ===== *)
theory Kavach_Entropy
  imports Kavach_Tripwire Kavach_Rounding
begin

section \<open>Shannon entropy, exactly\<close>

text \<open>
  Relates the floating-point loop of \<open>entropy.rs\<close> to the entropy of information theory over the reals.
  \<open>log2\<close> is a parameter of the model; \<open>log2_close\<close> states what is relied on: on \<open>(0, 1]\<close> it is finite and
  within \<open>2 ^ -40\<close> of the logarithm, far weaker than the last-place accuracy of the platforms' libraries.
\<close>

definition exact_entropy :: "bytes \<Rightarrow> real" where
  \<comment> \<open>\<open>H(X) = -sum(p * log2(p))\<close> over the bytes that occur\<close>
  "exact_entropy bs = (\<Sum>c\<leftarrow>filter (\<lambda>c. 0 < c) (byte_counts bs).
     - (of_nat c / of_nat (length bs)) * log 2 (of_nat c / of_nat (length bs)))"

definition log2_close :: "(fl \<Rightarrow> fl) \<Rightarrow> bool" where
  "log2_close log2 \<longleftrightarrow> (\<forall>p. 0 < p \<and> p \<le> 1 \<longrightarrow>
     is_finite (log2 (Fin p)) \<and> \<bar>of_rat (fval (log2 (Fin p))) - log 2 (of_rat p)\<bar> \<le> (1 / 2 ^ 40 :: real))"

subsection \<open>The histogram\<close>

lemma sum_byte_counts: "sum_list (byte_counts bs) = length bs"
proof (induction bs)
  case Nil
  show ?case by (simp add: byte_counts_def)
next
  case (Cons b bs)
  have one: "(\<Sum>k\<leftarrow>[0..<256]. if unat b = k then 1 else 0) = (1 :: nat)"
    using unat_bound [of b] by (simp add: interv_sum_list_conv_sum_set_nat)
  have "sum_list (byte_counts (b # bs)) = (\<Sum>k\<leftarrow>[0..<256]. (if unat b = k then 1 else 0) + length (filter (\<lambda>b. unat b = k) bs))"
    unfolding byte_counts_def by (intro arg_cong [of _ _ sum_list] map_cong) auto
  also have "\<dots> = 1 + sum_list (byte_counts bs)" unfolding sum_list_addf one by (simp add: byte_counts_def)
  finally show ?case using Cons by simp
qed

definition positive_counts :: "bytes \<Rightarrow> nat list" where
  "positive_counts bs = filter (\<lambda>c. 0 < c) (byte_counts bs)"

lemma positive_counts_facts:
  "length (positive_counts bs) \<le> 256" "sum_list (positive_counts bs) = length bs"
  "c \<in> set (positive_counts bs) \<Longrightarrow> 0 < c \<and> c \<le> length bs"
proof -
  have drop0: "sum_list (filter (\<lambda>c. 0 < c) cs) = sum_list cs" for cs :: "nat list" by (induction cs) auto
  show "length (positive_counts bs) \<le> 256"
    unfolding positive_counts_def by (rule order.trans [OF length_filter_le]) (simp add: byte_counts_def)
  show s: "sum_list (positive_counts bs) = length bs" by (simp add: positive_counts_def drop0 sum_byte_counts)
  show "c \<in> set (positive_counts bs) \<Longrightarrow> 0 < c \<and> c \<le> length bs"
    using member_le_sum_list [of c "positive_counts bs"] s by (auto simp: positive_counts_def)
qed

lemma shannon_fold:
  "bs \<noteq> [] \<Longrightarrow> shannon_entropy log2 bs = foldl (\<lambda>s c. fadd b64 s
     (fneg (let p = fdiv b64 (fl_of_nat b64 c) (fl_of_nat b64 (length bs)) in fmul b64 p (log2 p)))) (Fin 0) (positive_counts bs)"
proof -
  have "foldl (\<lambda>s c. if 0 < c then h s c else s) s cs = foldl h s (filter (\<lambda>c. 0 < c) cs)" for h s and cs :: "nat list"
    by (induction cs arbitrary: s) auto
  then show "bs \<noteq> [] \<Longrightarrow> ?thesis"
    unfolding shannon_entropy_def positive_counts_def fsub_def Let_def by simp
qed

subsection \<open>Bounds of the exact entropy\<close>

lemma entropy_term_bound:
  assumes "0 < (p :: real)" "p \<le> 1"
  shows "0 \<le> - p * log 2 p" "- p * log 2 p \<le> of_nat k * p + (1 / 2 ^ k - p) / ln 2"
proof -
  show "0 \<le> - p * log 2 p" using assms by (simp add: mult_nonneg_nonpos)
  have "ln (1 / (2 ^ k * p)) \<le> 1 / (2 ^ k * p) - 1" using assms by (intro ln_le_minus_one) simp
  moreover have "ln (1 / (2 ^ k * p)) = - ln p - of_nat k * ln 2" using assms by (simp add: ln_div ln_mult ln_realpow)
  ultimately have "p * (- ln p - of_nat k * ln 2) \<le> p * (1 / (2 ^ k * p) - 1)" using assms by (intro mult_left_mono) simp_all
  moreover have "p * (1 / (2 ^ k * p) - 1) = 1 / 2 ^ k - p" using assms by (simp add: right_diff_distrib)
  ultimately have "- p * ln p \<le> of_nat k * p * ln 2 + (1 / 2 ^ k - p)" by (simp add: algebra_simps)
  then have "- p * ln p / ln 2 \<le> (of_nat k * p * ln 2 + (1 / 2 ^ k - p)) / ln 2" by (intro divide_right_mono) simp_all
  then show "- p * log 2 p \<le> of_nat k * p + (1 / 2 ^ k - p) / ln 2" by (simp add: log_def add_divide_distrib)
qed

lemma exact_entropy_positive:
  "exact_entropy bs = (\<Sum>c\<leftarrow>positive_counts bs. - (of_nat c / of_nat (length bs)) * log 2 (of_nat c / of_nat (length bs)))"
  by (simp add: exact_entropy_def positive_counts_def)

lemma count_probability:
  "c \<in> set (positive_counts bs) \<Longrightarrow> 0 < of_nat c / (of_nat (length bs) :: real)"
  "c \<in> set (positive_counts bs) \<Longrightarrow> of_nat c / (of_nat (length bs) :: real) \<le> 1"
  using positive_counts_facts(3) [of c bs] by (auto simp: zero_less_divide_iff divide_le_eq_1)

text \<open>The entropy of a block is at most the logarithm of the number of different bytes.\<close>

lemma entropy_support:
  assumes "length (positive_counts bs) \<le> 2 ^ k"
  shows "exact_entropy bs \<le> of_nat k"
proof (cases "bs = []")
  case True
  then show ?thesis by (simp add: exact_entropy_def byte_counts_def)
next
  case False
  let ?n = "of_nat (length bs) :: real" and ?cs = "positive_counts bs"
  have affine: "(\<Sum>c\<leftarrow>cs. of_nat k * (of_nat c / ?n) + (1 / 2 ^ k - of_nat c / ?n) / ln 2)
      = of_nat k * (of_nat (sum_list cs) / ?n) + (of_nat (length cs) / 2 ^ k - of_nat (sum_list cs) / ?n) / ln 2" for cs
    by (induction cs) (simp_all add: add_divide_distrib diff_divide_distrib algebra_simps)
  have one: "of_nat (sum_list ?cs) / ?n = 1" using False by (simp add: positive_counts_facts(2))
  have "(of_nat (length ?cs) :: real) \<le> of_nat (2 ^ k)" using assms by (simp only: of_nat_le_iff)
  then have "(of_nat (length ?cs) / 2 ^ k - 1) / ln 2 \<le> (0 :: real)" by (intro divide_nonpos_pos) simp_all
  moreover have "exact_entropy bs \<le> (\<Sum>c\<leftarrow>?cs. of_nat k * (of_nat c / ?n) + (1 / 2 ^ k - of_nat c / ?n) / ln 2)"
    unfolding exact_entropy_positive by (intro sum_list_mono entropy_term_bound(2) count_probability)
  ultimately show ?thesis unfolding affine one by simp
qed

lemma exact_entropy_bounds: "0 \<le> exact_entropy bs" "exact_entropy bs \<le> 8"
proof -
  show "0 \<le> exact_entropy bs"
    unfolding exact_entropy_positive by (rule sum_list_nonneg) (auto intro!: entropy_term_bound(1) count_probability simp del: mult_minus_left)
  show "exact_entropy bs \<le> 8" using entropy_support [of bs 8] positive_counts_facts(1) [of bs] by simp
qed

subsection \<open>Accuracy of the computed entropy\<close>

lemma probability:
  assumes "0 < c" "c \<le> n" "n \<le> 2 ^ 32"
  obtains q where "fdiv b64 (fl_of_nat b64 c) (fl_of_nat b64 n) = Fin q" "1 / 2 ^ 33 \<le> q" "q \<le> 1"
    "\<bar>q - of_nat c / of_nat n\<bar> \<le> 1 / 2 ^ 52" "of_nat c / of_nat n / 2 \<le> q"
proof -
  define p :: rat where "p = of_nat c / of_nat n"
  have small: "n < 2 ^ 53" using assms(3) by simp
  have "(of_nat n :: rat) \<le> of_nat (2 ^ 32)" using assms(3) by (simp only: of_nat_le_iff)
  then have p: "1 / 2 ^ 32 \<le> p" "p \<le> 1" "0 < p"
    using assms(1,2) frac_le [of 1 "of_nat c :: rat" "of_nat n" "2 ^ 32"] by (auto simp: p_def divide_le_eq_1)
  have e: "is_finite (fround b64 p)" "\<bar>fval (fround b64 p) - p\<bar> \<le> 1 / 2 ^ 52"
    using f64.round_finite [of p] f64.round_error [of p] p by (auto simp: field_simps)
  have eq: "fdiv b64 (fl_of_nat b64 c) (fl_of_nat b64 n) = fround b64 p" unfolding p_def using assms small by (intro b64_ratio) simp_all
  obtain q where q: "fround b64 p = Fin q" using fround_nonneg [of p b64] p e(1) by (auto simp: is_finite_def)
  have "unit_score (fround b64 p)" unfolding eq [symmetric] using assms small by (intro unit_ratio) simp_all
  then have "q \<le> 1" by (simp add: q unit_score_def fle_def fval_def)
  moreover have "\<bar>q - p\<bar> \<le> 1 / 2 ^ 52" using e(2) by (simp add: q fval_def)
  moreover have "p - q \<le> 1 / 2 ^ 52" using calculation(2) by linarith
  then have half: "p / 2 \<le> q" using p(1) by simp
  moreover have "1 / 2 ^ 33 \<le> q" using half p(1) by simp
  ultimately show thesis using that [of q] eq q half unfolding p_def by simp
qed

lemma log2_step:
  assumes "0 < (p :: real)" "p / 2 \<le> q"
  shows "p * \<bar>log 2 q - log 2 p\<bar> \<le> 4 * \<bar>q - p\<bar>"
proof -
  have q: "0 < q" using assms by linarith
  have "ln q - ln p \<le> (q - p) / p" using ln_le_minus_one [of "q / p"] assms(1) q by (simp add: ln_div field_simps)
  then have up: "p * (ln q - ln p) \<le> \<bar>q - p\<bar>" using assms(1) by (simp add: field_simps)
  have "ln p - ln q \<le> (p - q) / q" using ln_le_minus_one [of "p / q"] assms(1) q by (simp add: ln_div field_simps)
  also have "\<dots> \<le> \<bar>q - p\<bar> / q" using q by (intro divide_right_mono) simp_all
  also have "\<dots> \<le> \<bar>q - p\<bar> / (p / 2)" using assms q by (intro divide_left_mono) simp_all
  finally have "p * (ln p - ln q) \<le> 2 * \<bar>q - p\<bar>" using assms(1) by (simp add: field_simps)
  moreover have "p * (ln q - ln p) \<le> 2 * \<bar>q - p\<bar>" by (rule order.trans [OF up]) simp
  ultimately have "p * \<bar>ln q - ln p\<bar> \<le> 2 * \<bar>q - p\<bar>"
    by (cases "ln p \<le> ln q") (simp_all add: abs_if [of "ln q - ln p"])
  moreover have "p * \<bar>log 2 q - log 2 p\<bar> = p * \<bar>ln q - ln p\<bar> / ln 2"
    by (simp add: log_def abs_divide diff_divide_distrib [symmetric])
  moreover have "p * \<bar>ln q - ln p\<bar> / ln 2 \<le> p * \<bar>ln q - ln p\<bar> / (1 / 2)"
    using assms(1) ln_le_minus_one [of "1 / 2"] by (intro divide_left_mono) (simp_all add: ln_div)
  ultimately show ?thesis by simp
qed

lemma log2_range: "1 / 2 ^ 33 \<le> (q :: real) \<Longrightarrow> q \<le> 1 \<Longrightarrow> \<bar>log 2 q\<bar> \<le> 33"
proof -
  assume q: "1 / 2 ^ 33 \<le> q" "q \<le> 1"
  have "0 < q" using q(1) by (rule less_le_trans [rotated]) simp
  with q have "- 33 \<le> log 2 q" "log 2 q \<le> 0" by (simp_all add: le_log_iff powr_neg_numeral)
  then show ?thesis by simp
qed

lemma entropy_term_error:
  assumes "0 < (p :: real)" "1 / 2 ^ 33 \<le> q" "q \<le> 1" "\<bar>q - p\<bar> \<le> 1 / 2 ^ 52" "p / 2 \<le> q" "\<bar>l - log 2 q\<bar> \<le> 1 / 2 ^ 40"
  shows "\<bar>q * l - p * log 2 p\<bar> \<le> 1 / 2 ^ 39"
proof -
  have q: "0 < q" using assms(2) by (rule less_le_trans [rotated]) simp
  note lq = log2_range [OF assms(2,3)]
  have "q * l - p * log 2 p = q * (l - log 2 q) + (q - p) * log 2 q + p * (log 2 q - log 2 p)" by (simp add: algebra_simps)
  then have "\<bar>q * l - p * log 2 p\<bar> \<le> q * \<bar>l - log 2 q\<bar> + \<bar>q - p\<bar> * \<bar>log 2 q\<bar> + p * \<bar>log 2 q - log 2 p\<bar>"
    using assms(1) q abs_triangle_ineq [of "q * (l - log 2 q) + (q - p) * log 2 q" "p * (log 2 q - log 2 p)"]
      abs_triangle_ineq [of "q * (l - log 2 q)" "(q - p) * log 2 q"] by (simp only: abs_mult abs_of_pos)
  also have "p * \<bar>log 2 q - log 2 p\<bar> \<le> 4 * (1 / 2 ^ 52)"
    by (rule order.trans [OF log2_step [OF assms(1,5)]]) (use assms(4) in simp)
  also have "q * \<bar>l - log 2 q\<bar> + \<bar>q - p\<bar> * \<bar>log 2 q\<bar> \<le> 1 * (1 / 2 ^ 40) + 1 / 2 ^ 52 * 33"
    using assms q lq by (intro add_mono mult_mono) auto
  finally show ?thesis by simp
qed

lemma of_rat_abs_diff: "\<bar>x - y\<bar> \<le> e \<Longrightarrow> \<bar>of_rat x - of_rat y\<bar> \<le> (of_rat e :: real)"
  by (simp flip: of_rat_diff add: of_rat_less_eq)

lemma abs_diff_triangle: "\<bar>a - b\<bar> \<le> d \<Longrightarrow> \<bar>b - c\<bar> \<le> e \<Longrightarrow> \<bar>a - c\<bar> \<le> d + e" for a b c d e :: real
  by linarith

lemma of_rat_sum_list: "(of_rat (\<Sum>x\<leftarrow>xs. h x) :: real) = (\<Sum>x\<leftarrow>xs. of_rat (h x))"
  by (induction xs) (simp_all add: of_rat_add)

lemma sum_list_error:
  fixes h g :: "'a \<Rightarrow> real"
  assumes "\<And>x. x \<in> set xs \<Longrightarrow> \<bar>h x - g x\<bar> \<le> e"
  shows "\<bar>(\<Sum>x\<leftarrow>xs. h x) - (\<Sum>x\<leftarrow>xs. g x)\<bar> \<le> of_nat (length xs) * e"
  using assms
proof (induction xs)
  case (Cons x xs)
  then have "\<bar>h x - g x\<bar> \<le> e" "\<bar>(\<Sum>x\<leftarrow>xs. h x) - (\<Sum>x\<leftarrow>xs. g x)\<bar> \<le> of_nat (length xs) * e" by simp_all
  then show ?case by (simp add: algebra_simps)
qed simp

lemma entropy_term_near:
  fixes log2 c n
  defines "p \<equiv> fdiv b64 (fl_of_nat b64 c) (fl_of_nat b64 n)"
  assumes "log2_close log2" "0 < c" "c \<le> n" "n \<le> 2 ^ 32"
  shows "near (fneg (fmul b64 p (log2 p))) (- (fval p * fval (log2 p))) (40 / 2 ^ 53) \<and> \<bar>fval p * fval (log2 p)\<bar> \<le> 34
    \<and> \<bar>of_rat (- (fval p * fval (log2 p))) - (- (of_nat c / of_nat n) * log 2 (of_nat c / of_nat n))\<bar> \<le> (1 / 2 ^ 39 :: real)"
proof -
  obtain q where q: "p = Fin q" "1 / 2 ^ 33 \<le> q" "q \<le> 1" "\<bar>q - of_nat c / of_nat n\<bar> \<le> 1 / 2 ^ 52" "of_nat c / of_nat n / 2 \<le> q"
    using probability [OF assms(3,4,5)] unfolding p_def by metis
  define l where "l = fval (log2 p)"
  have pos: "0 < q" using q(2) by (rule less_le_trans [rotated]) simp
  have l: "is_finite (log2 p)" "\<bar>of_rat l - log 2 (of_rat q)\<bar> \<le> (1 / 2 ^ 40 :: real)"
    using assms(2) pos q(1,3) by (simp_all add: log2_close_def l_def)
  note le = of_rat_less_eq [where 'a = real, THEN iffD2]
  have r: "1 / 2 ^ 33 \<le> (of_rat q :: real)" "of_rat q \<le> (1 :: real)"
    "\<bar>of_rat q - of_nat c / of_nat n\<bar> \<le> (1 / 2 ^ 52 :: real)" "of_nat c / of_nat n / 2 \<le> (of_rat q :: real)"
    using le [OF q(2)] le [OF q(3)] of_rat_abs_diff [OF q(4)] le [OF q(5)]
    by (simp_all add: of_rat_divide of_rat_mult)
  have "\<bar>of_rat l - 0\<bar> \<le> 1 / 2 ^ 40 + (33 :: real)"
    by (rule abs_diff_triangle [OF l(2)]) (use log2_range [OF r(1,2)] in simp)
  then have "of_rat \<bar>l\<bar> \<le> (of_rat 34 :: real)" by simp
  then have l34: "\<bar>l\<bar> \<le> 34" by (simp only: of_rat_less_eq)
  have v: "fval p = q" "\<bar>q\<bar> = q" using q(1) pos by (simp_all add: fval_def)
  have ql: "\<bar>q * l\<bar> \<le> 34" using mult_mono [OF q(3) l34] pos by (simp add: abs_mult)
  then have "(\<bar>q\<bar> + 0) * (\<bar>l\<bar> + 0) + 1 \<le> 40" using pos by (simp add: abs_mult)
  from near_neg [OF f64.near_mul [OF near_exact near_self [OF l(1), folded l_def] this]]
  have "near (fneg (fmul b64 p (log2 p))) (- (q * l)) (40 / 2 ^ 53)"
    by (simp add: q(1))
  moreover have "0 < (of_nat c / of_nat n :: real)" using assms(3,4) by simp
  from entropy_term_error [OF this r l(2)]
  have "\<bar>of_rat (- (q * l)) - (- (of_nat c / of_nat n) * log 2 (of_nat c / of_nat n))\<bar> \<le> (1 / 2 ^ 39 :: real)"
    by (simp add: of_rat_mult of_rat_minus abs_minus_commute)
  ultimately show ?thesis using ql by (simp add: v l_def [symmetric])
qed

lemma shannon_near:
  assumes "log2_close log2" "length bs \<le> 2 ^ 32"
  shows "is_finite (shannon_entropy log2 bs)
    \<and> \<bar>of_rat (fval (shannon_entropy log2 bs)) - exact_entropy bs\<bar> \<le> 1 / 2 ^ 30"
proof (cases "bs = []")
  case True
  then show ?thesis by (simp add: shannon_entropy_def exact_entropy_def byte_counts_def is_finite_def fval_def)
next
  case False
  let ?cs = "positive_counts bs" and ?n = "length bs"
  define p where "p c = fdiv b64 (fl_of_nat b64 c) (fl_of_nat b64 ?n)" for c
  define t where "t c = - (fval (p c) * fval (log2 (p c)))" for c
  have one: "near (fneg (fmul b64 (p c) (log2 (p c)))) (t c) (40 / 2 ^ 53) \<and> \<bar>t c\<bar> \<le> 34
      \<and> \<bar>of_rat (t c) - (- (of_nat c / of_nat ?n) * log 2 (of_nat c / of_nat ?n))\<bar> \<le> (1 / 2 ^ 39 :: real)"
    if "c \<in> set ?cs" for c
    using entropy_term_near [OF assms(1) _ _ assms(2), of c] positive_counts_facts(3) [OF that]
    by (simp add: p_def t_def)
  have len: "of_nat (length ?cs) \<le> (256 :: rat)" "of_nat (length ?cs) \<le> (256 :: real)"
    using positive_counts_facts(1) [of bs] by simp_all
  have "of_nat (length ?cs) * (34 + 40 / 2 ^ 53 + 10000 * (1 / 2 ^ 53)) + 1 \<le> (10000 :: rat)"
    using len(1) by simp
  then have "near (shannon_entropy log2 bs) (\<Sum>c\<leftarrow>?cs. t c) (of_nat (length ?cs) * (40 / 2 ^ 53 + 10000 * (1 / 2 ^ 53)))"
    using f64.near_sum [of ?cs "\<lambda>c. fneg (fmul b64 (p c) (log2 (p c)))" t "40 / 2 ^ 53" 34 10000] one
    by (simp add: shannon_fold [OF False] p_def Let_def)
  then have fl: "near (shannon_entropy log2 bs) (\<Sum>c\<leftarrow>?cs. t c) (1 / 2 ^ 31)"
    by (rule near_weaken) (use len(1) in simp)
  have "\<bar>(\<Sum>c\<leftarrow>?cs. of_rat (t c)) - exact_entropy bs\<bar> \<le> of_nat (length ?cs) * (1 / 2 ^ 39)"
    unfolding exact_entropy_def positive_counts_def [symmetric] using one by (intro sum_list_error) blast
  also have "\<dots> \<le> 1 / 2 ^ 31" using len(2) by simp
  finally have "\<bar>(\<Sum>c\<leftarrow>?cs. of_rat (t c)) - exact_entropy bs\<bar> \<le> 1 / 2 ^ 31" .
  moreover have "\<bar>of_rat (fval (shannon_entropy log2 bs)) - (\<Sum>c\<leftarrow>?cs. of_rat (t c))\<bar> \<le> (1 / 2 ^ 31 :: real)"
    using of_rat_abs_diff [OF nearD(2) [OF fl]] by (simp add: of_rat_sum_list of_rat_divide)
  ultimately have "\<bar>of_rat (fval (shannon_entropy log2 bs)) - exact_entropy bs\<bar> \<le> 1 / 2 ^ 31 + 1 / 2 ^ 31"
    by (intro abs_diff_triangle)
  then show ?thesis using nearD(1) [OF fl] by simp
qed

subsection \<open>Blocks of a write\<close>

text \<open>Every block of an ingested write has a computed entropy between 0 and 8 up to the accuracy.\<close>

definition entropy_range :: "fl \<Rightarrow> bool" where
  "entropy_range a \<longleftrightarrow> is_finite a \<and> - (1 / 2 ^ 20) \<le> fval a \<and> fval a \<le> 8 + 1 / 2 ^ 20"

lemma shannon_range:
  assumes "log2_close log2" "length bs \<le> 2 ^ 32"
  shows "entropy_range (shannon_entropy log2 bs)"
proof -
  let ?h = "fval (shannon_entropy log2 bs)"
  note near = shannon_near [OF assms]
  have "- (1 / 2 ^ 30) \<le> (of_rat ?h :: real)" "of_rat ?h \<le> 8 + (1 / 2 ^ 30 :: real)"
    using near exact_entropy_bounds [of bs] by linarith+
  then have "of_rat (- (1 / 2 ^ 30)) \<le> (of_rat ?h :: real)" "of_rat ?h \<le> (of_rat (8 + 1 / 2 ^ 30) :: real)"
    by (simp_all add: of_rat_add of_rat_divide of_rat_minus)
  then have "- (1 / 2 ^ 30) \<le> ?h" "?h \<le> 8 + 1 / 2 ^ 30" by (simp_all only: of_rat_less_eq)
  then show ?thesis using near by (simp add: entropy_range_def)
qed

lemma chunks_length: "b \<in> set (chunks n xs) \<Longrightarrow> length b \<le> n"
  by (induction n xs rule: chunks.induct) (subst (asm) (2) chunks.simps, auto split: if_splits)

lemma write_blocks_range:
  "log2_close log2 \<Longrightarrow> a \<in> set (block_entropies (make_write_event log2 pid ts p data rename)) \<Longrightarrow> entropy_range a"
  by (auto simp: make_write_event_def block_entropy_scan_def kavach_const split: if_splits
      intro!: shannon_range dest: chunks_length)

subsection \<open>Properties\<close>

definition exact_log2 :: "fl \<Rightarrow> fl" where
  \<comment> \<open>the logarithm cut to 40 binary places\<close>
  "exact_log2 a = Fin (of_int \<lfloor>log 2 (of_rat (fval a)) * 2 ^ 40\<rfloor> / 2 ^ 40)"

lemma exact_log2_close: "log2_close exact_log2"
proof -
  have "\<bar>of_int \<lfloor>x * 2 ^ 40\<rfloor> / 2 ^ 40 - x\<bar> \<le> 1 / 2 ^ 40" for x :: real
    using of_int_floor_le [of "x * 2 ^ 40"] real_of_int_floor_add_one_ge [of "x * 2 ^ 40"]
    by (simp add: abs_le_iff field_simps)
  then show ?thesis by (simp add: log2_close_def exact_log2_def is_finite_def fval_def of_rat_divide)
qed

text \<open>C12: the detector computes Shannon entropy: for every input of at most \<open>2 ^ 32\<close> bytes the result of
  the floating-point loop is finite and within \<open>2 ^ -30\<close> of the entropy over the reals, which lies between
  0 and 8 bits per byte.\<close>

theorem shannon_entropy_accurate:
  assumes "log2_close log2" "length bs \<le> 2 ^ 32"
  shows "is_finite (shannon_entropy log2 bs)
    \<and> \<bar>of_rat (fval (shannon_entropy log2 bs)) - exact_entropy bs\<bar> \<le> 1 / 2 ^ 30
    \<and> 0 \<le> exact_entropy bs \<and> exact_entropy bs \<le> 8"
  using shannon_near [OF assms] exact_entropy_bounds [of bs] by simp

theorem shannon_entropy_accurate_witness:
  "is_finite (shannon_entropy exact_log2 (replicate 4096 7))
    \<and> \<bar>of_rat (fval (shannon_entropy exact_log2 (replicate 4096 7))) - exact_entropy (replicate 4096 7)\<bar> \<le> 1 / 2 ^ 30
    \<and> 0 \<le> exact_entropy (replicate 4096 7) \<and> exact_entropy (replicate 4096 7) \<le> 8"
  by (rule shannon_entropy_accurate [OF exact_log2_close]) simp

end
