(* ===== verification/Kavach_Slot.thy ===== *)
theory Kavach_Slot
  imports Kavach_Entropy
begin

section \<open>The range of a time slot\<close>

text \<open>
  What the entropy features of one time slot (\<open>sliding_window.rs\<close>, \<open>entropy.rs\<close>) can be together: first for
  exact arithmetic on the block entropies, then for the floating-point summary the code computes.
\<close>

subsection \<open>The features of a slot, exactly\<close>

text \<open>
  A block is described by its deficit, the distance of its entropy below the top. Blocks with a deficit of
  at least \<open>c\<close> are low; a transition between neighbouring blocks has a low side.
\<close>

definition low_count :: "rat \<Rightarrow> rat list \<Rightarrow> nat" where
  "low_count c ds = length (filter (\<lambda>d. c \<le> d) ds)"

definition squares :: "rat list \<Rightarrow> rat" where
  "squares ds = (\<Sum>d\<leftarrow>ds. d * d)"

lemma low_count_simps [simp]: "low_count c [] = 0"
  "low_count c (d # ds) = (if c \<le> d then Suc (low_count c ds) else low_count c ds)"
  by (simp_all add: low_count_def)

lemma squares_simps [simp]: "squares [] = 0" "squares (d # ds) = d * d + squares ds"
  by (simp_all add: squares_def)

lemma deficit_chord:
  assumes "\<And>d. d \<in> set ds \<Longrightarrow> 0 \<le> d \<and> d \<le> hi" "0 \<le> c" "c \<le> hi"
  shows "squares ds \<le> (hi + c) * sum_list ds - c * hi * of_nat (low_count c ds)"
  using assms(1)
proof (induction ds)
  case (Cons d ds)
  have d: "0 \<le> d" "d \<le> hi" using Cons.prems [of d] by simp_all
  have "d * d \<le> (hi + c) * d - (if c \<le> d then c * hi else 0)"
  proof (cases "c \<le> d")
    case True
    then have "0 \<le> (d - c) * (hi - d)" using d by (intro mult_nonneg_nonneg) simp_all
    then show ?thesis using True by (simp add: algebra_simps)
  next
    case False
    then have "d * d \<le> (hi + c) * d" using d assms(2) by (intro mult_right_mono) simp_all
    then show ?thesis using False by simp
  qed
  then show ?case using Cons by (simp add: algebra_simps split: if_splits)
qed simp

lemma squares_le: "(\<And>d. d \<in> set ds \<Longrightarrow> 0 \<le> d) \<Longrightarrow> squares ds \<le> sum_list ds * sum_list ds"
proof (induction ds)
  case (Cons d ds)
  then have "0 \<le> d" "0 \<le> sum_list ds" by (simp_all add: sum_list_nonneg)
  then have "0 \<le> d * sum_list ds" by simp
  then show ?case using Cons by (simp add: algebra_simps)
qed simp

lemma low_count_sum: "(\<And>d. d \<in> set ds \<Longrightarrow> 0 \<le> d) \<Longrightarrow> c * of_nat (low_count c ds) \<le> sum_list ds"
proof (induction ds)
  case (Cons d ds)
  then have "0 \<le> d" "c * of_nat (low_count c ds) \<le> sum_list ds" by simp_all
  then show ?case by (simp add: algebra_simps)
qed simp

lemma two_low_squares:
  assumes "\<And>d. d \<in> set ds \<Longrightarrow> 0 \<le> d" "2 \<le> low_count c ds" "0 \<le> c"
  shows "squares ds \<le> sum_list ds * sum_list ds - 2 * c * (sum_list ds - c)"
  using assms(1,2)
proof (induction ds)
  case (Cons d ds)
  let ?A = "sum_list ds"
  have d: "0 \<le> d" "\<And>x. x \<in> set ds \<Longrightarrow> 0 \<le> x" using Cons.prems(1) by simp_all
  have A: "c * of_nat (low_count c ds) \<le> ?A" using d(2) by (rule low_count_sum)
  show ?case
  proof (cases "2 \<le> low_count c ds")
    case True
    then have "c * 2 \<le> c * of_nat (low_count c ds)" using assms(3) by (intro mult_left_mono) simp_all
    then have "c \<le> ?A" using A assms(3) by linarith
    then have "0 \<le> d * (?A - c)" using d(1) by simp
    then show ?thesis using Cons.IH [OF d(2) True] by (simp add: algebra_simps)
  next
    case False
    then have "low_count c ds = 1" "c \<le> d" using Cons.prems(2) by (auto split: if_splits)
    then have "0 \<le> (d - c) * (?A - c)" using A by (intro mult_nonneg_nonneg) simp_all
    moreover have "squares ds \<le> ?A * ?A" using d(2) by (rule squares_le)
    ultimately show ?thesis by (simp add: algebra_simps)
  qed
qed simp

lemma pair_count:
  assumes "\<And>x y. x \<in> set xs \<Longrightarrow> y \<in> set xs \<Longrightarrow> P (x, y) \<Longrightarrow> L x \<or> L y"
  shows "length (filter P (zip xs (tl xs))) \<le> 2 * length (filter L xs)"
proof -
  let ?zs = "zip xs (tl xs)"
  have "(\<And>p. p \<in> set zs \<Longrightarrow> P p \<Longrightarrow> L (fst p) \<or> L (snd p)) \<Longrightarrow>
      length (filter P zs) \<le> length (filter L (map fst zs)) + length (filter L (map snd zs))" for zs
    by (induction zs) auto
  moreover have "L (fst p) \<or> L (snd p)" if "p \<in> set ?zs" "P p" for p
  proof -
    obtain x y where p: "p = (x, y)" by (cases p)
    have "x \<in> set xs" "y \<in> set xs" using that(1) unfolding p by (cases xs; auto dest: set_zip_leftD set_zip_rightD)+
    then show ?thesis using that(2) assms [of x y] by (simp add: p)
  qed
  ultimately have "length (filter P ?zs) \<le> length (filter L (map fst ?zs)) + length (filter L (map snd ?zs))" by blast
  moreover have z: "length (filter L (map fst (zip xs ys))) \<le> length (filter L xs)"
    "length (filter L (map snd (zip xs ys))) \<le> length (filter L ys)" for xs ys
    by (induction xs ys rule: list_induct2') auto
  moreover have "length (filter L (tl xs)) \<le> length (filter L xs)" by (cases xs) auto
  ultimately show ?thesis using z(1) [of xs "tl xs"] z(2) [of xs "tl xs"] by linarith
qed

text \<open>
  The bound of a slot. With \<open>x\<close> the mean deficit and \<open>k\<close> the share of low blocks, the entropy feature falls
  linearly with \<open>x\<close>; a large \<open>x\<close> keeps the sum below the bound even with the intermittent feature at one, and
  a small \<open>x\<close> keeps the intermittent feature itself small.
\<close>

lemma square_tangent: "(2 :: rat) * a * x - a * a \<le> x * x"
  using zero_le_square [of "x - a"] by (simp add: algebra_simps)

lemma square_chord: "a \<le> x \<Longrightarrow> x \<le> b \<Longrightarrow> x * x \<le> (a + b) * x - a * b" for a b x :: rat
proof -
  assume "a \<le> x" "x \<le> b"
  then have "0 \<le> (x - a) * (b - x)" by simp
  then show ?thesis by (simp add: algebra_simps)
qed

abbreviation slot_score :: "rat \<Rightarrow> rat \<Rightarrow> rat" where
  "slot_score x y \<equiv> 7 / 80 * (8 + 1 / 1048576 - x) + 3 / 10 * y"

lemma slot_large_deficit: "178 / 100 \<le> x \<Longrightarrow> y \<le> 1 \<Longrightarrow> slot_score x y \<le> 8445 / 10000"
  by (simp add: field_simps)

lemma slot_chord_bound:
  assumes "x \<le> 178 / 100" "y \<le> k + e + ((8001 / 1000 + 199 / 100) * x - 199 / 100 * (8001 / 1000) * k - x * x) / 16 + 1 / 10000"
    and "199 / 100 * k \<le> x" "e \<le> 0 \<or> (e \<le> 1 / 12 \<and> k \<le> 1 / 2)"
  shows "slot_score x y \<le> 8445 / 10000"
  using assms square_tangent [of "178 / 100" x] by (auto simp: field_simps)

lemma slot_one_of_three:
  assumes "199 / 300 \<le> x" "x \<le> 178 / 100" "y \<le> 1 / 2 + 2 * (x * x) / 16 + 1 / 10000"
  shows "slot_score x y \<le> 8445 / 10000"
  using assms square_chord [OF assms(1,2)] by (simp add: field_simps)

lemma slot_two_of_five:
  assumes "398 / 500 \<le> x" "x \<le> 178 / 100"
    and "y \<le> 1 / 2 + (4 * (x * x) - 398 / 100 * x + 2 / 5 * (199 / 100) * (199 / 100)) / 16 + 1 / 10000"
  shows "slot_score x y \<le> 8445 / 10000"
  using assms square_chord [OF assms(1,2)] by (simp add: field_simps)

lemma transition_share:
  assumes "1 \<le> k" "2 * k < n" "n \<noteq> 3 \<or> k \<noteq> 1" "n \<noteq> 5 \<or> k \<noteq> 2"
  shows "of_nat k / (of_nat n - 1) \<le> of_nat k / of_nat n + (1 / 12 :: rat)"
proof -
  have "12 * k \<le> n * (n - 1)"
  proof (cases "6 \<le> n")
    case True
    then have "6 * (n - 1) \<le> n * (n - 1)" by (rule mult_right_mono) simp
    then show ?thesis using assms(2) by linarith
  next
    case False
    with assms have "(n = 4 \<or> n = 5) \<and> k = 1" by arith
    then show ?thesis by auto
  qed
  then have "of_nat (12 * k) \<le> (of_nat (n * (n - 1)) :: rat)" by (simp only: of_nat_le_iff)
  then have "12 * of_nat k \<le> of_nat n * (of_nat n - 1 :: rat)" using assms(1,2) by (simp add: of_nat_diff)
  moreover have "(1 :: rat) < of_nat n" using assms(1,2) by simp
  ultimately show ?thesis by (simp add: field_simps)
qed

lemma transitions_bound:
  fixes T k n :: nat
  assumes "T \<le> 2 * k" "T \<le> n - 1" "0 < n" "n \<noteq> 3 \<or> k \<noteq> 1" "n \<noteq> 5 \<or> k \<noteq> 2"
  defines "r \<equiv> of_nat T / (2 * (of_nat n - 1)) :: rat" and "K \<equiv> of_nat k / of_nat n :: rat"
  shows "r \<le> K \<or> (r \<le> K + 1 / 12 \<and> K \<le> 1 / 2)"
proof -
  consider (none) "T = 0" | (half) "0 < T" "n \<le> 2 * k" | (few) "0 < T" "2 * k < n" by linarith
  then show ?thesis
  proof cases
    case none
    then show ?thesis by (simp add: r_def K_def)
  next
    case half
    then have "1 < n" using assms(2) by simp
    have "of_nat n \<le> (of_nat (2 * k) :: rat)" using half(2) by (simp only: of_nat_le_iff)
    moreover have "of_nat T \<le> (of_nat n - 1 :: rat)" using assms(2) \<open>1 < n\<close> by (simp add: of_nat_diff)
    ultimately have "r \<le> 1 / 2" "1 / 2 \<le> K" using \<open>1 < n\<close> by (simp_all add: r_def K_def field_simps)
    then show ?thesis by linarith
  next
    case few
    then have "1 \<le> k" "1 < n" "(of_nat T :: rat) \<le> of_nat (2 * k)" using assms(1) by (auto simp only: of_nat_le_iff)
    then have "r \<le> of_nat (2 * k) / (2 * (of_nat n - 1))" unfolding r_def by (intro divide_right_mono) simp_all
    also have "\<dots> = of_nat k / (of_nat n - 1)" using \<open>1 < n\<close> by (simp add: field_simps)
    also have "\<dots> \<le> K + 1 / 12" unfolding K_def using few(2) assms(4,5) \<open>1 \<le> k\<close> by (intro transition_share)
    finally show ?thesis using few(2) by (simp add: K_def field_simps)
  qed
qed

lemma slot_bound:
  fixes ds :: "rat list" and T :: nat and y :: rat
  defines "n \<equiv> of_nat (length ds)" and "k \<equiv> low_count (199 / 100) ds"
  defines "x \<equiv> sum_list ds / n"
  assumes d: "\<And>d. d \<in> set ds \<Longrightarrow> 0 \<le> d \<and> d \<le> 8001 / 1000" and "ds \<noteq> []"
    and T: "T \<le> 2 * k" "T \<le> length ds - 1"
    and y: "y \<le> 1" "y \<le> of_nat T / (2 * (n - 1)) + (squares ds / n - x * x) / 16 + 1 / 10000"
  shows "slot_score x y \<le> 8445 / 10000"
proof -
  have n: "0 < n" "sum_list ds = x * n" using assms(5) by (simp_all add: n_def x_def)
  have nonneg: "\<And>d. d \<in> set ds \<Longrightarrow> 0 \<le> d" using d by blast
  have low: "199 / 100 * of_nat k \<le> x * n" using low_count_sum [OF nonneg, of ds "199 / 100"] by (simp add: k_def n(2))
  have mono: "y \<le> r + w / 16 + 1 / 10000" if "of_nat T / (2 * (n - 1)) \<le> r" "squares ds / n - x * x \<le> w" for r w
    by (rule order.trans [OF y(2)]) (intro add_mono that(1) divide_right_mono that(2), simp_all)
  consider (large) "178 / 100 \<le> x" | (three) "x < 178 / 100" "length ds = 3" "k = 1"
    | (five) "x < 178 / 100" "length ds = 5" "k = 2"
    | (other) "x < 178 / 100" "length ds \<noteq> 3 \<or> k \<noteq> 1" "length ds \<noteq> 5 \<or> k \<noteq> 2" by linarith
  then show ?thesis
  proof cases
    case large
    then show ?thesis using y(1) by (rule slot_large_deficit)
  next
    case three
    then have "n = 3" "of_nat T / (2 * (n - 1)) \<le> 1 / 2" using T(1) by (simp_all add: n_def)
    moreover have "squares ds / n - x * x \<le> 2 * (x * x)" using squares_le [OF nonneg, of ds] n(2) calculation(1) by simp
    ultimately show ?thesis using three low by (intro slot_one_of_three mono) simp_all
  next
    case five
    then have n5: "n = 5" "of_nat T / (2 * (n - 1)) \<le> 1 / 2" using T(1) by (simp_all add: n_def)
    have "squares ds \<le> sum_list ds * sum_list ds - 2 * (199 / 100) * (sum_list ds - 199 / 100)"
      using five nonneg by (intro two_low_squares) (simp_all add: k_def)
    then have "squares ds / n - x * x \<le> 4 * (x * x) - 398 / 100 * x + 2 / 5 * (199 / 100) * (199 / 100)"
      using n(2) n5(1) by (simp add: field_simps)
    then show ?thesis using five low n5 by (intro slot_two_of_five mono) simp_all
  next
    case other
    define K where "K = of_nat k / n"
    have "squares ds / n \<le> (8001 / 1000 + 199 / 100) * x - 199 / 100 * (8001 / 1000) * K"
      using deficit_chord [OF d, of ds "199 / 100"] n by (simp add: K_def k_def pos_divide_le_eq field_simps)
    then have chord: "squares ds / n - x * x \<le> (8001 / 1000 + 199 / 100) * x - 199 / 100 * (8001 / 1000) * K - x * x"
      by (rule diff_right_mono)
    obtain e where "of_nat T / (2 * (n - 1)) \<le> K + e" "e \<le> 0 \<or> (e \<le> 1 / 12 \<and> K \<le> 1 / 2)"
      using transitions_bound [OF T _ other(2,3)] assms(5) unfolding K_def n_def by (metis add_0_right length_greater_0_conv order_refl)
    then show ?thesis
      using other(1) low n(1) mono [OF _ chord] by (intro slot_chord_bound [of x y K e]) (simp_all add: K_def pos_divide_le_eq)
  qed
qed

subsection \<open>The computed summary\<close>

text \<open>
  The entropy summary of up to \<open>2 ^ 28\<close> blocks (a terabyte of 4-KiB blocks in one window): mean and variance
  are close to the exact ones, and the intermittent score is at most what the transitions and the exact
  variance allow.
\<close>

lemma sum_shifted_squares:
  "(\<Sum>v\<leftarrow>vs. (v - a) * (v - a)) = (\<Sum>v\<leftarrow>vs. v * v) - 2 * a * sum_list vs + of_nat (length vs) * a * a" for a :: rat
  by (induction vs) (simp_all add: algebra_simps)

lemma squares_shift:
  "squares (map (\<lambda>v. a - v) vs) = (\<Sum>v\<leftarrow>vs. v * v) - 2 * a * sum_list vs + of_nat (length vs) * a * a"
  "sum_list (map (\<lambda>v. a - v) vs) = of_nat (length vs) * a - sum_list vs"
  by (induction vs) (simp_all add: algebra_simps)

lemma variance_shift:
  fixes vs :: "rat list"
  defines "n \<equiv> of_nat (length vs)" and "m \<equiv> sum_list vs / of_nat (length vs)"
  assumes "vs \<noteq> []"
  shows "(\<Sum>v\<leftarrow>vs. (v - m) * (v - m)) / n
    = squares (map (\<lambda>v. a - v) vs) / n - (sum_list (map (\<lambda>v. a - v) vs) / n) * (sum_list (map (\<lambda>v. a - v) vs) / n)"
proof -
  have n: "n \<noteq> 0" "sum_list vs = m * n" "of_nat (length vs) = n" using assms(3) by (simp_all add: n_def m_def)
  show ?thesis unfolding sum_shifted_squares squares_shift n(2,3) using n(1) by (simp add: field_simps)
qed

lemma block_count:
  assumes "blocks \<noteq> []" "length blocks \<le> 2 ^ 28"
  shows "0 < (of_nat (length blocks) :: rat)" "(of_nat (length blocks) :: rat) \<le> 268435456"
    "fl_of_nat b64 (length blocks) = Fin (of_nat (length blocks))"
proof -
  have "(of_nat (length blocks) :: rat) \<le> of_nat (2 ^ 28)" using assms(2) by (simp only: of_nat_le_iff)
  then show "(of_nat (length blocks) :: rat) \<le> 268435456" by simp
  show "0 < (of_nat (length blocks) :: rat)" using assms(1) by simp
  show "fl_of_nat b64 (length blocks) = Fin (of_nat (length blocks))" using assms(2) by (intro fl_of_nat_exact) simp
qed

text \<open>The mean of computed terms that are within \<open>e\<close> of \<open>t\<close>.\<close>

lemma mean_of_terms:
  assumes "\<And>a. a \<in> set blocks \<Longrightarrow> near (g a) (t a) e" "\<And>a. a \<in> set blocks \<Longrightarrow> \<bar>t a\<bar> \<le> 81" "0 \<le> e" "e \<le> 1"
    and "blocks \<noteq> []" "length blocks \<le> 2 ^ 28"
  defines "m \<equiv> (\<Sum>a\<leftarrow>blocks. t a) / of_nat (length blocks)"
  shows "near (fdiv b64 (foldl (\<lambda>s a. fadd b64 s (g a)) (Fin 0) blocks) (fl_of_nat b64 (length blocks))) m (e + 1 / 2 ^ 16)"
    "\<bar>m\<bar> \<le> 81"
proof -
  let ?n = "of_nat (length blocks) :: rat" and ?S = "\<Sum>a\<leftarrow>blocks. t a"
  note n = block_count [OF assms(5,6)]
  have "?n * (81 + e + 2 ^ 36 * (1 / 2 ^ 53)) \<le> 268435456 * 83" using n assms(3,4) by (intro mult_mono) simp_all
  then have "?n * (81 + e + 2 ^ 36 * (1 / 2 ^ 53)) + 1 \<le> 2 ^ 36" by simp
  from f64.near_sum [OF assms(1,2) this] assms(3)
  have S: "near (foldl (\<lambda>s a. fadd b64 s (g a)) (Fin 0) blocks) ?S (?n * (e + 2 ^ 36 * (1 / 2 ^ 53)))" "\<bar>?S\<bar> \<le> ?n * 81"
    by simp_all
  show m: "\<bar>m\<bar> \<le> 81" using S(2) n(1) by (simp add: m_def pos_divide_le_eq mult.commute)
  have "(\<bar>?S\<bar> + ?n * (e + 2 ^ 36 * (1 / 2 ^ 53))) / ?n \<le> (?n * 81 + ?n * (e + 2 ^ 36 * (1 / 2 ^ 53))) / ?n"
    using S(2) n(1) by (intro divide_right_mono add_right_mono) simp_all
  also have "\<dots> = 81 + (e + 2 ^ 36 * (1 / 2 ^ 53))" using n(1) by (simp add: add_divide_distrib)
  finally have "(\<bar>?S\<bar> + ?n * (e + 2 ^ 36 * (1 / 2 ^ 53))) / ?n + 1 \<le> 100" using assms(4) by simp
  from f64.near_div [OF S(1) n(1) this]
  show "near (fdiv b64 (foldl (\<lambda>s a. fadd b64 s (g a)) (Fin 0) blocks) (fl_of_nat b64 (length blocks))) m (e + 1 / 2 ^ 16)"
    unfolding n(3) m_def by (rule near_weaken) (use n(1) in simp_all)
qed

lemma mean_bounds:
  fixes lo hi :: rat
  assumes "\<And>v. v \<in> set vs \<Longrightarrow> lo \<le> v \<and> v \<le> hi" "vs \<noteq> []"
  shows "lo \<le> sum_list vs / of_nat (length vs)" "sum_list vs / of_nat (length vs) \<le> hi"
proof -
  have "of_nat (length vs) * lo \<le> sum_list vs \<and> sum_list vs \<le> of_nat (length vs) * hi"
    using assms(1) by (induction vs) (auto simp: algebra_simps add_mono)
  then show "lo \<le> sum_list vs / of_nat (length vs)" "sum_list vs / of_nat (length vs) \<le> hi"
    using assms(2) by (simp_all add: pos_le_divide_eq pos_divide_le_eq mult.commute)
qed

abbreviation summary_sum :: "fl list \<Rightarrow> fl" where
  "summary_sum blocks \<equiv> foldl (\<lambda>s a. fadd b64 s a) (Fin 0) blocks"

abbreviation summary_mean :: "fl list \<Rightarrow> fl" where
  "summary_mean blocks \<equiv> fdiv b64 (summary_sum blocks) (fl_of_nat b64 (length blocks))"

abbreviation summary_variance :: "fl list \<Rightarrow> fl" where
  "summary_variance blocks \<equiv> fdiv b64 (foldl (\<lambda>s a. fadd b64 s
     (fmul b64 (fsub b64 a (summary_mean blocks)) (fsub b64 a (summary_mean blocks)))) (Fin 0) blocks)
     (fl_of_nat b64 (length blocks))"

lemma mean_near:
  assumes "\<And>a. a \<in> set blocks \<Longrightarrow> entropy_range a" "blocks \<noteq> []" "length blocks \<le> 2 ^ 28"
  defines "m \<equiv> sum_list (map fval blocks) / of_nat (length blocks)"
  shows "near (summary_mean blocks) m (1 / 2 ^ 16)" "- (1 / 2 ^ 20) \<le> m" "m \<le> 8 + 1 / 2 ^ 20"
proof -
  have r: "near a (fval a) 0" "\<bar>fval a\<bar> \<le> 81" if "a \<in> set blocks" for a
    using assms(1) [OF that] by (simp_all add: entropy_range_def near_self abs_le_iff)
  show "near (summary_mean blocks) m (1 / 2 ^ 16)"
    using mean_of_terms [OF r _ _ assms(2,3)] by (simp add: m_def)
  have "- (1 / 2 ^ 20) \<le> v \<and> v \<le> 8 + 1 / 2 ^ 20" if "v \<in> set (map fval blocks)" for v
    using that assms(1) by (auto simp: entropy_range_def)
  from mean_bounds [of "map fval blocks", OF this] show "- (1 / 2 ^ 20) \<le> m" "m \<le> 8 + 1 / 2 ^ 20" using assms(2) by (simp_all add: m_def)
qed

lemma near_square:
  assumes "near a x (1 / 2 ^ 15)" "\<bar>x\<bar> \<le> 81 / 10"
  shows "near (fmul b64 a a) (x * x) (9 / 10000)" "\<bar>x * x\<bar> \<le> 81"
proof -
  have x: "\<bar>x\<bar> + 1 / 2 ^ 15 \<le> 9" "\<bar>x\<bar> \<le> 9" using assms(2) by simp_all
  then have "(\<bar>x\<bar> + 1 / 2 ^ 15) * (\<bar>x\<bar> + 1 / 2 ^ 15) \<le> 9 * 9" by (intro mult_mono) simp_all
  then have "(\<bar>x\<bar> + 1 / 2 ^ 15) * (\<bar>x\<bar> + 1 / 2 ^ 15) + 1 \<le> 100" by simp
  from f64.near_mul [OF assms(1,1) this]
  have mul: "near (fmul b64 a a) (x * x) ((\<bar>x\<bar> + 1 / 2 ^ 15) * (1 / 2 ^ 15) + \<bar>x\<bar> * (1 / 2 ^ 15) + 100 * (1 / 2 ^ 53))" by simp
  have "(\<bar>x\<bar> + 1 / 2 ^ 15) * (1 / 2 ^ 15) + \<bar>x\<bar> * (1 / 2 ^ 15) + 100 * (1 / 2 ^ 53)
      \<le> 9 * (1 / 2 ^ 15) + 9 * (1 / 2 ^ 15) + 100 * (1 / 2 ^ 53)"
    by (intro add_mono mult_right_mono x) simp_all
  then have "(\<bar>x\<bar> + 1 / 2 ^ 15) * (1 / 2 ^ 15) + \<bar>x\<bar> * (1 / 2 ^ 15) + 100 * (1 / 2 ^ 53) \<le> 9 / 10000" by (rule order.trans) simp
  with mul show "near (fmul b64 a a) (x * x) (9 / 10000)" by (rule near_weaken)
  have "\<bar>x\<bar> * \<bar>x\<bar> \<le> 9 * 9" using x(2) by (intro mult_mono) simp_all
  then show "\<bar>x * x\<bar> \<le> 81" by (simp add: abs_mult)
qed

lemma variance_near:
  assumes "\<And>a. a \<in> set blocks \<Longrightarrow> entropy_range a" "blocks \<noteq> []" "length blocks \<le> 2 ^ 28"
  defines "m \<equiv> sum_list (map fval blocks) / of_nat (length blocks)"
  defines "v \<equiv> (\<Sum>a\<leftarrow>blocks. (fval a - m) * (fval a - m)) / of_nat (length blocks)"
  shows "near (summary_variance blocks) v (1 / 1000)" "\<bar>v\<bar> \<le> 81"
proof -
  note mean = mean_near [OF assms(1-3), folded m_def]
  have d: "near (fsub b64 a (summary_mean blocks)) (fval a - m) (1 / 2 ^ 15)" "\<bar>fval a - m\<bar> \<le> 81 / 10" if "a \<in> set blocks" for a
  proof -
    have a: "near a (fval a) 0" "- (1 / 2 ^ 20) \<le> fval a" "fval a \<le> 8 + 1 / 2 ^ 20"
      using assms(1) [OF that] by (simp_all add: entropy_range_def near_self)
    have coarse: "- (1 / 100) \<le> w \<and> w \<le> 801 / 100" if "- (1 / 2 ^ 20) \<le> w" "w \<le> 8 + 1 / 2 ^ 20" for w :: rat
      using order.trans [OF _ that(1), of "- (1 / 100)"] order.trans [OF that(2), of "801 / 100"] by simp
    note am = coarse [OF a(2,3)] coarse [OF mean(2,3)]
    show "\<bar>fval a - m\<bar> \<le> 81 / 10" using am by linarith
    have "\<bar>fval a\<bar> \<le> 9" "\<bar>m\<bar> \<le> 9" using am by linarith+
    then have "\<bar>fval a\<bar> + \<bar>m\<bar> + 0 + 1 / 2 ^ 16 + 1 \<le> 32" by simp
    from near_weaken [OF f64.near_sub [OF a(1) mean(1) this]]
    show "near (fsub b64 a (summary_mean blocks)) (fval a - m) (1 / 2 ^ 15)" by simp
  qed
  have sq: "near (fmul b64 (fsub b64 a (summary_mean blocks)) (fsub b64 a (summary_mean blocks))) ((fval a - m) * (fval a - m)) (9 / 10000)"
    "\<bar>(fval a - m) * (fval a - m)\<bar> \<le> 81" if "a \<in> set blocks" for a
    using near_square [OF d [OF that]] by simp_all
  note v = mean_of_terms [of blocks "\<lambda>a. fmul b64 (fsub b64 a (summary_mean blocks)) (fsub b64 a (summary_mean blocks))"
      "\<lambda>a. (fval a - m) * (fval a - m)", OF sq _ _ assms(2,3), folded v_def]
  show "\<bar>v\<bar> \<le> 81" using v(2) by simp
  show "near (summary_variance blocks) v (1 / 1000)" using v(1) by (rule near_weaken) simp_all
qed

lemma fclamp_unit:
  "is_finite a \<Longrightarrow> is_finite (fclamp a (Fin 0) (Fin 1)) \<and> fval (fclamp a (Fin 0) (Fin 1)) = max 0 (min 1 (fval a))"
  by (cases a) (auto simp: fclamp_def flt_def fle_def is_finite_def fval_def Let_def max_def min_def)

lemma near_clamp: "near a x e \<Longrightarrow> near (fclamp a (Fin 0) (Fin 1)) (max 0 (min 1 x)) e"
proof -
  assume a: "near a x e"
  have "\<bar>max 0 (min 1 b) - max 0 (min 1 c)\<bar> \<le> \<bar>b - c\<bar>" for b c :: rat by linarith
  from order.trans [OF this nearD(2) [OF a]] show ?thesis using fclamp_unit [OF nearD(1) [OF a]] by (simp add: near_def)
qed

lemma intermittent_near:
  assumes "near tr \<tau> (2 / 2 ^ 53)" "0 \<le> \<tau>" "\<tau> \<le> 1" "near var v (1 / 1000)" "0 \<le> v" "v \<le> 81"
  shows "near (fadd b64 (fmul b64 tr (Fin (1 / 2))) (fmul b64 (fdiv b64 var (Fin 8)) (Fin (1 / 2)))) (\<tau> / 2 + v / 16) (1 / 10000)"
proof -
  have half: "near (Fin (1 / 2)) (1 / 2) 0" by (rule near_exact)
  have t: "near (fmul b64 tr (Fin (1 / 2))) (\<tau> * (1 / 2)) (1 / 2 ^ 40)"
    by (rule near_weaken [OF f64.near_mul [OF assms(1) half, of 4]]) (use assms(2,3) in simp_all)
  have "near (fdiv b64 var (Fin 8)) (v / 8) (1 / 8000 + 20 * (1 / 2 ^ 53))"
    using f64.near_div [OF assms(4), of 8 20] assms(5,6) by simp
  then have w: "near (fmul b64 (fdiv b64 var (Fin 8)) (Fin (1 / 2))) (v / 8 * (1 / 2)) (1 / 16000 + 40 * (1 / 2 ^ 53))"
    by (rule near_weaken [OF f64.near_mul [OF _ half, of _ _ _ 20]]) (use assms(5,6) in simp_all)
  have "near (fadd b64 (fmul b64 tr (Fin (1 / 2))) (fmul b64 (fdiv b64 var (Fin 8)) (Fin (1 / 2))))
      (\<tau> * (1 / 2) + v / 8 * (1 / 2)) (1 / 10000)"
    by (rule near_weaken [OF f64.near_add [OF t w, of 20]]) (use assms(2,3,5,6) in simp_all)
  then show ?thesis by simp
qed

lemma intermittent_upper:
  assumes "near tr \<tau> (2 / 2 ^ 53)" "0 \<le> \<tau>" "\<tau> \<le> 1" "near var v (1 / 1000)" "0 \<le> v" "v \<le> 81"
  shows "is_finite (intermittent_score mx var tr) \<and> 0 \<le> fval (intermittent_score mx var tr)
    \<and> fval (intermittent_score mx var tr) \<le> 1 \<and> fval (intermittent_score mx var tr) \<le> \<tau> / 2 + v / 16 + 1 / 10000"
proof -
  define a where "a = fadd b64 (fmul b64 tr (Fin (1 / 2))) (fmul b64 (fdiv b64 var (Fin 8)) (Fin (1 / 2)))"
  from nearD(1,2) [OF intermittent_near [OF assms, folded a_def]]
  have a: "is_finite a" "fval a \<le> \<tau> / 2 + v / 16 + 1 / 10000" by linarith+
  have pos: "0 \<le> \<tau> / 2 + v / 16 + 1 / 10000" using assms(2,5) by simp
  show ?thesis
    using fclamp_unit [OF a(1)] a(2) pos
    by (auto simp: intermittent_score_def a_def [symmetric] is_finite_def [of "Fin 0"] fval_def [of "Fin 0"])
qed

text \<open>A transition between neighbouring blocks needs one of them at least 1.99 below the top.\<close>

abbreviation deficits :: "fl list \<Rightarrow> rat list" where
  "deficits blocks \<equiv> map (\<lambda>v. 8 + 1 / 2 ^ 20 - v) (map fval blocks)"

lemma deficit_range: "entropy_range a \<Longrightarrow> 0 \<le> 8 + 1 / 2 ^ 20 - fval a \<and> 8 + 1 / 2 ^ 20 - fval a \<le> 8001 / 1000"
  by (auto simp: entropy_range_def field_simps)

lemma transition_low:
  assumes "entropy_range a" "entropy_range b" "fle (Fin 2) (fabs (fsub b64 b a))"
  shows "199 / 100 \<le> 8 + 1 / 2 ^ 20 - fval a \<or> 199 / 100 \<le> 8 + 1 / 2 ^ 20 - fval b"
proof -
  have r: "is_finite a" "is_finite b" "\<bar>fval a\<bar> \<le> 9" "\<bar>fval b\<bar> \<le> 9" "fval a \<le> 8 + 1 / 2 ^ 20" "fval b \<le> 8 + 1 / 2 ^ 20"
    using assms(1,2) by (auto simp: entropy_range_def abs_le_iff)
  have n: "near (fsub b64 b a) (fval b - fval a) (1 / 1000)"
    by (rule near_weaken [OF f64.near_sub [OF near_self [OF r(2)] near_self [OF r(1)], of 20]]) (use r(3,4) in simp_all)
  have "2 \<le> \<bar>fval (fsub b64 b a)\<bar>"
    using assms(3) nearD(1) [OF n] by (cases "fsub b64 b a") (auto simp: fabs_def fle_def fneg_def is_neg_def is_finite_def fval_def split: if_splits)
  then have "199 / 100 \<le> \<bar>fval b - fval a\<bar>" using nearD(2) [OF n] by linarith
  then show ?thesis using r(5,6) by linarith
qed

lemma transitions_low_count:
  assumes "\<And>a. a \<in> set blocks \<Longrightarrow> entropy_range a"
  shows "delta_transitions blocks \<le> 2 * low_count (199 / 100) (deficits blocks)"
proof -
  have "low_count (199 / 100) (deficits blocks) = length (filter (\<lambda>a. 199 / 100 \<le> 8 + 1 / 2 ^ 20 - fval a) blocks)"
    by (simp add: low_count_def filter_map o_def)
  moreover have "delta_transitions blocks \<le> 2 * length (filter (\<lambda>a. 199 / 100 \<le> 8 + 1 / 2 ^ 20 - fval a) blocks)"
    unfolding delta_transitions_def by (rule pair_count) (unfold case_prod_conv, elim conjE, rule transition_low, simp_all only: assms)
  ultimately show ?thesis by simp
qed

definition transition_ratio :: "fl list \<Rightarrow> fl" where
  "transition_ratio blocks = (if length blocks > 1
     then fdiv b64 (fl_of_nat b64 (delta_transitions blocks)) (fl_of_nat b64 (length blocks - 1)) else Fin 0)"

lemma transition_ratio_near:
  assumes "blocks \<noteq> []" "length blocks \<le> 2 ^ 28"
  defines "r \<equiv> of_nat (delta_transitions blocks) / (of_nat (length blocks) - 1) :: rat"
  shows "near (transition_ratio blocks) r (2 / 2 ^ 53)" "0 \<le> r" "r \<le> 1"
proof -
  let ?T = "delta_transitions blocks" and ?n = "length blocks - 1"
  have le: "?T \<le> ?n" using assms(1) by (rule delta_transitions_le)
  have r: "r = of_nat ?T / of_nat ?n" using assms(1) by (simp add: r_def of_nat_diff Suc_leI)
  show unit: "0 \<le> r" "r \<le> 1" unfolding r using le by (auto simp: divide_le_eq_1)
  show "near (transition_ratio blocks) r (2 / 2 ^ 53)"
  proof (cases "1 < length blocks")
    case True
    have "fdiv b64 (fl_of_nat b64 ?T) (fl_of_nat b64 ?n) = fround b64 r"
      unfolding r using le True assms(2) by (intro b64_ratio) simp_all
    then show ?thesis using True f64.near_round [of r r 0 2] unit by (simp add: transition_ratio_def)
  next
    case False
    then have "r = 0" using le by (simp add: r)
    then show ?thesis using False by (simp add: transition_ratio_def near_def is_finite_def fval_def)
  qed
qed

lemma summary_parts:
  assumes "blocks \<noteq> []"
  shows "mean_entropy (differential_entropy blocks) = summary_mean blocks"
    "\<exists>mx. intermittent_encryption_score (differential_entropy blocks)
       = intermittent_score mx (summary_variance blocks) (transition_ratio blocks)"
  using assms by (auto simp: differential_entropy_def transition_ratio_def Let_def)

lemma slot_features:
  assumes "\<And>a. a \<in> set blocks \<Longrightarrow> entropy_range a" "blocks \<noteq> []" "length blocks \<le> 2 ^ 28"
  defines "y \<equiv> intermittent_encryption_score (differential_entropy blocks)"
    and "m \<equiv> sum_list (map fval blocks) / of_nat (length blocks)"
  shows "near (mean_entropy (differential_entropy blocks)) m (1 / 2 ^ 16)" "- 1 \<le> m" "m \<le> 9"
    "is_finite y" "0 \<le> fval y" "fval y \<le> 1" "7 / 80 * m + 3 / 10 * fval y \<le> 8445 / 10000"
proof -
  let ?ds = "deficits blocks" and ?n = "of_nat (length blocks) :: rat"
  define v where "v = (\<Sum>a\<leftarrow>blocks. (fval a - m) * (fval a - m)) / ?n"
  note mean = mean_near [OF assms(1-3), folded m_def] and var = variance_near [OF assms(1-3), folded m_def, folded v_def]
  note ratio = transition_ratio_near [OF assms(2,3)]
  show "near (mean_entropy (differential_entropy blocks)) m (1 / 2 ^ 16)" "- 1 \<le> m" "m \<le> 9"
    using mean by (simp_all add: summary_parts(1) [OF assms(2)])
  have "0 \<le> v" unfolding v_def by (intro divide_nonneg_nonneg sum_list_nonneg) auto
  moreover have "v \<le> 81" using var(2) by simp
  moreover obtain mx where "y = intermittent_score mx (summary_variance blocks) (transition_ratio blocks)"
    using summary_parts(2) [OF assms(2)] unfolding y_def by blast
  ultimately have score: "is_finite y" "0 \<le> fval y" "fval y \<le> 1"
      "fval y \<le> of_nat (delta_transitions blocks) / (?n - 1) / 2 + v / 16 + 1 / 10000"
    using intermittent_upper [OF ratio var(1), of mx] by simp_all
  then show "is_finite y" "0 \<le> fval y" "fval y \<le> 1" by simp_all
  have x: "sum_list ?ds / ?n = 8 + 1 / 2 ^ 20 - m"
    using squares_shift(2) [of "8 + 1 / 2 ^ 20" "map fval blocks"] assms(2) by (simp add: m_def diff_divide_distrib)
  have v: "v = squares ?ds / ?n - (sum_list ?ds / ?n) * (sum_list ?ds / ?n)"
    using variance_shift [of "map fval blocks" "8 + 1 / 2 ^ 20"] assms(2) by (simp add: v_def m_def o_def)
  have "d \<in> set ?ds \<Longrightarrow> 0 \<le> d \<and> d \<le> 8001 / 1000" for d using assms(1) deficit_range by auto
  moreover have "of_nat (delta_transitions blocks) / (?n - 1) / 2 = of_nat (delta_transitions blocks) / (2 * (?n - 1))"
    by (simp add: field_simps)
  ultimately have "slot_score (sum_list ?ds / of_nat (length ?ds)) (fval y) \<le> 8445 / 10000"
    using score(3,4) [unfolded v] transitions_low_count [OF assms(1)] delta_transitions_le [OF assms(2)] assms(2)
    by (intro slot_bound [of ?ds "delta_transitions blocks" "fval y"]) (simp_all only: length_map map_is_Nil_conv simp_thms)
  then show "7 / 80 * m + 3 / 10 * fval y \<le> 8445 / 10000" unfolding length_map x by simp
qed

end
