(* ===== verification/Kavach_Alert.thy ===== *)
theory Kavach_Alert
  imports Kavach_Sentinel Kavach_Slot
begin

section \<open>Scores and the alert threshold\<close>

text \<open>
  How far the scores of the built-in scorer (\<open>npu_backend.rs\<close>) can go: its single-precision arithmetic
  against the exact weighted mean, and what the range of the features of a time slot means for the alert
  threshold 0.85 of the live daemon (\<open>src/main.rs\<close>).
\<close>

subsection \<open>The built-in scorer against the exact mean\<close>

definition exact_mean :: "rat \<Rightarrow> (i8 list \<Rightarrow> rat) \<Rightarrow> i8 list list \<Rightarrow> rat" where
  "exact_mean d t rows = max 0 (min 1 ((\<Sum>row\<leftarrow>rows. t row) / d))"

definition io_term :: "i8 list \<Rightarrow> rat" where
  "io_term row = 7 / 10 * (of_int (row ! 0) / 127) + 3 / 10 * (of_int (row ! 3) / 127)"

definition first_term :: "i8 list \<Rightarrow> rat" where
  "first_term row = of_int (row ! 0) / 127"

lemma near_both: "near a x e \<Longrightarrow> near b x d \<Longrightarrow> near a (fval b) (e + d)"
  by (erule near_shift) (simp add: near_def abs_minus_commute)

lemma i8_norm_near:
  assumes "is_i8 q"
  shows "near (i8_norm q) (of_int q / 127) (3 / 2 ^ 24)" "\<bar>of_int q / 127\<bar> \<le> (128 / 127 :: rat)"
proof -
  have q: "\<bar>of_int q\<bar> \<le> (128 :: rat)" using assms unfolding is_i8_def by (simp flip: of_int_abs) linarith
  then show "\<bar>of_int q / 127\<bar> \<le> (128 / 127 :: rat)" by simp
  have "fl_of_int b32 q = Fin (of_int q)" using assms by (auto simp: is_i8_def intro!: fl_of_int_exact)
  then show "near (i8_norm q) (of_int q / 127) (3 / 2 ^ 24)"
    using f32.near_div [OF near_exact [of "of_int q"], of 127 3] q by (simp add: i8_norm_def)
qed

lemma weighted_near:
  assumes "is_i8 q" "0 \<le> w" "w \<le> 1"
  shows "near (fmul b32 (i8_norm q) (fround b32 w)) (of_int q / 127 * w) (10 / 2 ^ 24)" "\<bar>of_int q / 127 * w\<bar> \<le> 128 / 127"
proof -
  note q = i8_norm_near [OF assms(1)]
  have w: "near (fround b32 w) w (2 / 2 ^ 24)" using f32.near_round [of w w 0 2] assms(2,3) by simp
  have "\<bar>of_int q / 127\<bar> * \<bar>w\<bar> \<le> 128 / 127 * 1" using q(2) assms(2,3) by (intro mult_mono) simp_all
  then show "\<bar>of_int q / 127 * w\<bar> \<le> 128 / 127" by (simp add: abs_mult)
  have "(\<bar>of_int q / 127\<bar> + 3 / 2 ^ 24) * (\<bar>w\<bar> + 2 / 2 ^ 24) + 1 \<le> 11 / 10 * (11 / 10) + 1"
    using q(2) assms(2,3) by (intro add_right_mono mult_mono) simp_all
  also have "\<dots> \<le> 3" by simp
  finally have M: "(\<bar>of_int q / 127\<bar> + 3 / 2 ^ 24) * (\<bar>w\<bar> + 2 / 2 ^ 24) + 1 \<le> 3" .
  have "(\<bar>of_int q / 127\<bar> + 3 / 2 ^ 24) * (2 / 2 ^ 24) + \<bar>w\<bar> * (3 / 2 ^ 24) + 3 * (1 / 2 ^ 24)
      \<le> 11 / 10 * (2 / 2 ^ 24) + 1 * (3 / 2 ^ 24) + 3 * (1 / 2 ^ 24)"
    using q(2) assms(2,3) by (intro add_mono mult_right_mono) simp_all
  also have "\<dots> \<le> (10 / 2 ^ 24 :: rat)" by simp
  finally show "near (fmul b32 (i8_norm q) (fround b32 w)) (of_int q / 127 * w) (10 / 2 ^ 24)"
    by (rule near_weaken [OF f32.near_mul [OF q(1) w M], rotated]) simp
qed

lemma mean_score_near:
  assumes "\<And>row. row \<in> set rows \<Longrightarrow> near (g row) (t row) (1 / 2 ^ 19) \<and> \<bar>t row\<bar> \<le> 3"
    and "length rows \<le> 32" "d = of_nat (length rows)" "0 < d"
  shows "near (fclamp (fdiv b32 (foldl (\<lambda>s row. fadd b32 s (g row)) (Fin 0) rows) (Fin d)) (Fin 0) (Fin 1))
    (exact_mean d t rows) (1 / 2 ^ 16)"
proof -
  let ?S = "\<Sum>row\<leftarrow>rows. t row"
  have d: "1 \<le> d" "d \<le> 32" using assms(2-4) by (simp_all add: Suc_leI)
  have "of_nat (length rows) * (3 + 1 / 2 ^ 19 + 128 * (1 / 2 ^ 24)) + 1 \<le> (128 :: rat)"
    using d(2) by (simp add: assms(3))
  from f32.near_sum [of rows g t, OF _ _ this] assms(1)
  have S: "near (foldl (\<lambda>s row. fadd b32 s (g row)) (Fin 0) rows) ?S (d * (1 / 2 ^ 19 + 128 * (1 / 2 ^ 24)))" "\<bar>?S\<bar> \<le> d * 3"
    by (simp_all add: assms(3))
  have "(\<bar>?S\<bar> + d * (1 / 2 ^ 19 + 128 * (1 / 2 ^ 24))) / d \<le> (d * 3 + d * (1 / 2 ^ 19 + 128 * (1 / 2 ^ 24))) / d"
    using S(2) d(1) by (intro divide_right_mono add_right_mono) simp_all
  also have "\<dots> = 3 + (1 / 2 ^ 19 + 128 * (1 / 2 ^ 24))" using d(1) by (simp add: add_divide_distrib)
  finally have "(\<bar>?S\<bar> + d * (1 / 2 ^ 19 + 128 * (1 / 2 ^ 24))) / d + 1 \<le> 3 + (1 / 2 ^ 19 + 128 * (1 / 2 ^ 24)) + 1"
    by (rule add_right_mono)
  also have "\<dots> \<le> 5" by simp
  finally have "(\<bar>?S\<bar> + d * (1 / 2 ^ 19 + 128 * (1 / 2 ^ 24))) / d + 1 \<le> 5" .
  from f32.near_div [OF S(1) assms(4) this]
  have "near (fdiv b32 (foldl (\<lambda>s row. fadd b32 s (g row)) (Fin 0) rows) (Fin d)) (?S / d) (1 / 2 ^ 16)"
    by (rule near_weaken) (use d(1) in simp_all)
  then show ?thesis unfolding exact_mean_def by (rule near_clamp)
qed

definition i8_matrix :: "nat \<Rightarrow> i8 list list \<Rightarrow> bool" where
  \<comment> \<open>\<open>[[i8; 4]; n]\<close>\<close>
  "i8_matrix n rows \<longleftrightarrow> length rows = n \<and> list_all (\<lambda>row. length row = 4 \<and> list_all is_i8 row) rows"

lemma i8_matrix_entry: "i8_matrix n rows \<Longrightarrow> row \<in> set rows \<Longrightarrow> k < 4 \<Longrightarrow> is_i8 (row ! k)"
  by (simp add: i8_matrix_def list_all_iff)

lemma io_term_near:
  assumes "is_i8 (row ! 0)" "is_i8 (row ! 3)"
  shows "near (fadd b32 (fmul b32 (i8_norm (row ! 0)) (fround b32 (7 / 10))) (fmul b32 (i8_norm (row ! 3)) (fround b32 (3 / 10))))
    (io_term row) (1 / 2 ^ 19)" "\<bar>io_term row\<bar> \<le> 3"
proof -
  note a = weighted_near [OF assms(1), of "7 / 10"] and b = weighted_near [OF assms(2), of "3 / 10"]
  have e: "io_term row = of_int (row ! 0) / 127 * (7 / 10) + of_int (row ! 3) / 127 * (3 / 10)" by (simp add: io_term_def)
  have M: "\<bar>of_int (row ! 0) / 127 * (7 / 10)\<bar> + \<bar>of_int (row ! 3) / 127 * (3 / 10)\<bar> + 10 / 2 ^ 24 + 10 / 2 ^ 24 + 1 \<le> (4 :: rat)"
    using add_mono [OF a(2) b(2)] by simp
  show "near (fadd b32 (fmul b32 (i8_norm (row ! 0)) (fround b32 (7 / 10))) (fmul b32 (i8_norm (row ! 3)) (fround b32 (3 / 10))))
    (io_term row) (1 / 2 ^ 19)"
    unfolding e by (rule near_weaken [OF f32.near_add [OF a(1) b(1) M]]) simp_all
  show "\<bar>io_term row\<bar> \<le> 3" unfolding e using add_mono [OF a(2) b(2)] by simp
qed

lemma first_term_near:
  "is_i8 (row ! 0) \<Longrightarrow> near (i8_norm (row ! 0)) (first_term row) (1 / 2 ^ 19) \<and> \<bar>first_term row\<bar> \<le> 3"
  using near_weaken [OF i8_norm_near(1), of "row ! 0"] i8_norm_near(2) [of "row ! 0"] by (simp add: first_term_def)

lemma baseline_near:
  "i8_matrix 10 rows \<Longrightarrow> near (baseline_io rows) (exact_mean 10 io_term rows) (1 / 2 ^ 16)"
  "i8_matrix 32 rows \<Longrightarrow> near (baseline_net rows) (exact_mean 32 first_term rows) (1 / 2 ^ 16)"
  "i8_matrix 16 rows \<Longrightarrow> near (baseline_audit rows) (exact_mean 16 first_term rows) (1 / 2 ^ 16)"
proof -
  have len: "length rows = n" if "i8_matrix n rows" for n using that by (simp add: i8_matrix_def)
  have entry: "is_i8 (row ! 0)" "is_i8 (row ! 3)" if "i8_matrix n rows" "row \<in> set rows" for n row
    using i8_matrix_entry [OF that] by simp_all
  show "near (baseline_io rows) (exact_mean 10 io_term rows) (1 / 2 ^ 16)" if m: "i8_matrix 10 rows"
    unfolding baseline_io_def by (rule mean_score_near) (use io_term_near entry [OF m] len [OF m] in simp_all)
  show "near (baseline_net rows) (exact_mean 32 first_term rows) (1 / 2 ^ 16)" if m: "i8_matrix 32 rows"
    unfolding baseline_net_def by (rule mean_score_near) (use first_term_near entry [OF m] len [OF m] in simp_all)
  show "near (baseline_audit rows) (exact_mean 16 first_term rows) (1 / 2 ^ 16)" if m: "i8_matrix 16 rows"
    unfolding baseline_audit_def by (rule mean_score_near) (use first_term_near entry [OF m] len [OF m] in simp_all)
qed

subsection \<open>The reference model against the built-in scorer\<close>

text \<open>
  What the reference graph (\<open>Cast\<close>, \<open>MatMul\<close> with the weights of the head, \<open>Flatten\<close>, \<open>ReduceMean\<close>) means, and
  what is relied on of ONNX Runtime when it runs that graph: the raw output of a head is within 1/100 of the
  mean of the weighted rows, far coarser than single precision.
\<close>

definition graph_mean :: "rat list \<Rightarrow> i8 list list \<Rightarrow> rat" where
  "graph_mean ws rows = (\<Sum>row\<leftarrow>rows. \<Sum>(w, q)\<leftarrow>zip ws row. w * of_int q) / of_nat (length rows)"

definition IO_WEIGHTS :: "rat list" where
  "IO_WEIGHTS = [7 / 10, 0, 0, 3 / 10]"

definition FIRST_WEIGHTS :: "rat list" where
  "FIRST_WEIGHTS = [1, 0, 0, 0]"

definition runs_reference_graph :: "('s, 't, 'x) ort_scheme \<Rightarrow> 's \<Rightarrow> bool" where
  "runs_reference_graph lib s \<longleftrightarrow> (\<forall>io net audit ti tn ta outs raw.
     i8_matrix 10 io \<and> i8_matrix 32 net \<and> i8_matrix 16 audit
     \<and> tensor_from_array lib [1, 10, 4] (concat io) = Ok ti \<and> tensor_from_array lib [1, 32, 4] (concat net) = Ok tn
     \<and> tensor_from_array lib [1, 16, 4] (concat audit) = Ok ta
     \<and> session_run lib s [(''io_input'', ti), (''net_input'', tn), (''audit_input'', ta)] = Ok outs \<longrightarrow>
       (outs ''io_score'' = Ok raw \<longrightarrow> near raw (graph_mean IO_WEIGHTS io) (1 / 100))
       \<and> (outs ''net_score'' = Ok raw \<longrightarrow> near raw (graph_mean FIRST_WEIGHTS net) (1 / 100))
       \<and> (outs ''audit_score'' = Ok raw \<longrightarrow> near raw (graph_mean FIRST_WEIGHTS audit) (1 / 100)))"

lemma i8_matrix_row:
  assumes "i8_matrix n rows" "row \<in> set rows"
  obtains a b c d where "row = [a, b, c, d]" "is_i8 a" "is_i8 b" "is_i8 c" "is_i8 d"
proof -
  have "length row = 4" "list_all is_i8 row" using assms by (simp_all add: i8_matrix_def list_all_iff)
  then show thesis using that by (auto simp: length_Suc_conv eval_nat_numeral)
qed

lemma graph_mean_terms:
  assumes "i8_matrix n rows"
  shows "graph_mean IO_WEIGHTS rows / 127 = (\<Sum>row\<leftarrow>rows. io_term row) / of_nat n"
    "graph_mean FIRST_WEIGHTS rows / 127 = (\<Sum>row\<leftarrow>rows. first_term row) / of_nat n"
proof -
  have row: "(\<Sum>(w, q)\<leftarrow>zip IO_WEIGHTS row. w * of_int q) = io_term row * 127"
    "(\<Sum>(w, q)\<leftarrow>zip FIRST_WEIGHTS row. w * of_int q) = first_term row * 127" if r: "row \<in> set rows" for row
    by (rule i8_matrix_row [OF assms r], simp add: IO_WEIGHTS_def FIRST_WEIGHTS_def io_term_def first_term_def)+
  have scale: "(\<Sum>row\<leftarrow>rows. h row) / of_nat n / 127 = (\<Sum>row\<leftarrow>rows. t row) / of_nat n"
    if "\<And>row. row \<in> set rows \<Longrightarrow> h row = t row * 127" for h t :: "i8 list \<Rightarrow> rat"
  proof -
    have "(\<Sum>row\<leftarrow>rows. h row) = (\<Sum>row\<leftarrow>rows. t row * 127)" using that by (intro arg_cong [of _ _ sum_list] map_cong) simp_all
    then show ?thesis by (simp add: sum_list_mult_const)
  qed
  have n: "length rows = n" using assms by (simp add: i8_matrix_def)
  show "graph_mean IO_WEIGHTS rows / 127 = (\<Sum>row\<leftarrow>rows. io_term row) / of_nat n"
    "graph_mean FIRST_WEIGHTS rows / 127 = (\<Sum>row\<leftarrow>rows. first_term row) / of_nat n"
    unfolding graph_mean_def n using row by (intro scale; simp)+
qed

lemma graph_mean_bound:
  assumes "i8_matrix n rows" "0 < n"
  shows "\<bar>graph_mean IO_WEIGHTS rows / 127\<bar> \<le> 3" "\<bar>graph_mean FIRST_WEIGHTS rows / 127\<bar> \<le> 3"
proof -
  have n: "length rows = n" "rows \<noteq> []" using assms by (auto simp: i8_matrix_def)
  have "\<bar>io_term row\<bar> \<le> 3" "\<bar>first_term row\<bar> \<le> 3" if "row \<in> set rows" for row
    using i8_matrix_entry [OF assms(1) that] io_term_near(2) [of row] first_term_near [of row] by simp_all
  then have "- 3 \<le> v \<and> v \<le> 3" if "v \<in> set (map io_term rows) \<or> v \<in> set (map first_term rows)" for v
    using that by (auto simp: abs_le_iff minus_le_iff)
  then show "\<bar>graph_mean IO_WEIGHTS rows / 127\<bar> \<le> 3" "\<bar>graph_mean FIRST_WEIGHTS rows / 127\<bar> \<le> 3"
    using mean_bounds [of "map io_term rows" "- 3" 3] mean_bounds [of "map first_term rows" "- 3" 3] n
    by (simp_all add: graph_mean_terms [OF assms(1)] abs_le_iff minus_le_iff)
qed

lemma normalize_near:
  assumes "near raw x (1 / 100)" "\<bar>x / 127\<bar> \<le> 3"
  shows "near (normalize_raw raw) (max 0 (min 1 (x / 127))) (1 / 10000)"
proof -
  have "\<bar>x\<bar> \<le> 381" using assms(2) by (simp add: abs_divide)
  then have "(\<bar>x\<bar> + 1 / 100) / 127 + 1 \<le> 10" by simp
  from f32.near_div [OF assms(1) _ this] have "near (fdiv b32 raw (Fin 127)) (x / 127) (1 / 10000)"
    by (auto intro: near_weaken)
  then show ?thesis unfolding normalize_raw_def by (rule near_clamp)
qed

lemma zero_rows_matrix: "i8_matrix n (zero_rows n)"
  by (simp add: i8_matrix_def zero_rows_def list_all_iff is_i8_def)

lemma run_multi_head_near:
  assumes "runs_reference_graph lib (ort_handle sess)" "i8_matrix 10 io" "i8_matrix 32 net" "i8_matrix 16 audit"
    and "run_multi_head lib sess io net audit = Ok (a, b, c)"
  shows "near a (exact_mean 10 io_term io) (1 / 10000)" "near b (exact_mean 32 first_term net) (1 / 10000)"
    "near c (exact_mean 16 first_term audit) (1 / 10000)"
proof -
  obtain ti tn ta outs x y z where run: "tensor_from_array lib [1, 10, 4] (concat io) = Ok ti"
    "tensor_from_array lib [1, 32, 4] (concat net) = Ok tn" "tensor_from_array lib [1, 16, 4] (concat audit) = Ok ta"
    "session_run lib (ort_handle sess) [(''io_input'', ti), (''net_input'', tn), (''audit_input'', ta)] = Ok outs"
    "outs ''io_score'' = Ok x" "outs ''net_score'' = Ok y" "outs ''audit_score'' = Ok z"
    and out: "a = normalize_raw x" "b = normalize_raw y" "c = normalize_raw z"
    using assms(5) by (auto simp: run_multi_head_def map_err_def split: sum.splits)
  have raw: "near x (graph_mean IO_WEIGHTS io) (1 / 100)" "near y (graph_mean FIRST_WEIGHTS net) (1 / 100)"
    "near z (graph_mean FIRST_WEIGHTS audit) (1 / 100)"
    using assms(1-4) run unfolding runs_reference_graph_def by blast+
  have "near a (max 0 (min 1 (graph_mean IO_WEIGHTS io / 127))) (1 / 10000)"
    "near b (max 0 (min 1 (graph_mean FIRST_WEIGHTS net / 127))) (1 / 10000)"
    "near c (max 0 (min 1 (graph_mean FIRST_WEIGHTS audit / 127))) (1 / 10000)"
    unfolding out by (intro normalize_near raw graph_mean_bound [OF assms(2)] graph_mean_bound [OF assms(3)]
        graph_mean_bound [OF assms(4)] zero_less_numeral)+
  then show "near a (exact_mean 10 io_term io) (1 / 10000)" "near b (exact_mean 32 first_term net) (1 / 10000)"
    "near c (exact_mean 16 first_term audit) (1 / 10000)"
    unfolding exact_mean_def graph_mean_terms [OF assms(2)] graph_mean_terms [OF assms(3)] graph_mean_terms [OF assms(4)]
    by simp_all
qed

lemma ort_near:
  assumes "runs_reference_graph lib (ort_handle sess)"
  shows "i8_matrix 10 rows \<Longrightarrow> ort_run_io lib sess rows = Ok score \<Longrightarrow> near score (exact_mean 10 io_term rows) (1 / 10000)"
    "i8_matrix 32 rows \<Longrightarrow> ort_run_net lib sess rows = Ok score \<Longrightarrow> near score (exact_mean 32 first_term rows) (1 / 10000)"
    "i8_matrix 16 rows \<Longrightarrow> ort_run_audit lib sess rows = Ok score \<Longrightarrow> near score (exact_mean 16 first_term rows) (1 / 10000)"
proof -
  note heads = run_multi_head_near [OF assms] and zero = zero_rows_matrix
  show "near score (exact_mean 10 io_term rows) (1 / 10000)" if "i8_matrix 10 rows" "ort_run_io lib sess rows = Ok score"
    using heads(1) [OF that(1) zero zero] that(2) by (auto simp: ort_run_io_def split: sum.splits)
  show "near score (exact_mean 32 first_term rows) (1 / 10000)" if "i8_matrix 32 rows" "ort_run_net lib sess rows = Ok score"
    using heads(2) [OF zero that(1) zero] that(2) by (auto simp: ort_run_net_def split: sum.splits)
  show "near score (exact_mean 16 first_term rows) (1 / 10000)" if "i8_matrix 16 rows" "ort_run_audit lib sess rows = Ok score"
    using heads(3) [OF zero zero that(1)] that(2) by (auto simp: ort_run_audit_def split: sum.splits)
qed

text \<open>An engine scores exactly when its ONNX session, if it has one, runs the reference graph.\<close>

definition exact_scorer :: "('s, 't, 'x) ort_scheme \<Rightarrow> 's NpuEngine \<Rightarrow> bool" where
  "exact_scorer lib eng \<longleftrightarrow> (case ort_session eng of None \<Rightarrow> True | Some o' \<Rightarrow> runs_reference_graph lib (ort_handle o'))"

lemma inference_near:
  assumes "exact_scorer lib eng"
  shows "i8_matrix 10 rows \<Longrightarrow> near (fst (run_io_inference lib eng rows)) (exact_mean 10 io_term rows) (1 / 10000)"
    "i8_matrix 32 rows \<Longrightarrow> near (fst (run_net_inference lib eng rows)) (exact_mean 32 first_term rows) (1 / 10000)"
    "i8_matrix 16 rows \<Longrightarrow> near (fst (run_audit_inference lib eng rows)) (exact_mean 16 first_term rows) (1 / 10000)"
proof -
  have w: "near s x (1 / 10000)" if "near s x (1 / 2 ^ 16)" for s x
    using that by (rule near_weaken) simp
  show "i8_matrix 10 rows \<Longrightarrow> near (fst (run_io_inference lib eng rows)) (exact_mean 10 io_term rows) (1 / 10000)"
    "i8_matrix 32 rows \<Longrightarrow> near (fst (run_net_inference lib eng rows)) (exact_mean 32 first_term rows) (1 / 10000)"
    "i8_matrix 16 rows \<Longrightarrow> near (fst (run_audit_inference lib eng rows)) (exact_mean 16 first_term rows) (1 / 10000)"
    using assms by (auto simp: exact_scorer_def run_io_inference_def run_net_inference_def run_audit_inference_def dispatch_or_def
        intro: w baseline_near ort_near split: option.splits sum.splits)
qed

subsection \<open>Quantization of a feature\<close>

lemma fround_away_int:
  assumes "is_finite w"
  obtains m where "is_finite (fround_away w)" "fval (fround_away w) = of_int m" "\<bar>of_int m - fval w\<bar> \<le> 1 / 2"
proof -
  define k where "k = \<lfloor>\<bar>fval w\<bar> + 1 / 2\<rfloor>"
  have "of_int k \<le> \<bar>fval w\<bar> + 1 / 2 \<and> \<bar>fval w\<bar> + 1 / 2 < of_int (k + 1)" unfolding k_def by (rule floor_correct)
  then have k: "of_int k \<le> \<bar>fval w\<bar> + 1 / 2" "\<bar>fval w\<bar> + 1 / 2 < of_int k + 1" by simp_all
  have "is_finite (fround_away w) \<and> fval (fround_away w) = of_int (if fval w < 0 then - k else k)"
  proof (cases w)
    case (Fin r)
    then have "fround_away w = (if k = 0 then signed_zero (r < 0) else Fin (if r < 0 then - of_int k else of_int k))"
      by (simp add: fround_away_def k_def fval_def Let_def)
    then show ?thesis using Fin by (simp add: is_finite_def fval_def signed_zero_def)
  next
    case NegZero
    then have "k = 0" by (simp add: k_def fval_def floor_eq_iff)
    then show ?thesis using NegZero by (simp add: fround_away_def is_finite_def fval_def)
  qed (use assms in \<open>simp_all add: is_finite_def\<close>)
  moreover have "\<bar>of_int (if fval w < 0 then - k else k) - fval w\<bar> \<le> 1 / 2"
    using k by (cases "fval w < 0") (simp_all add: abs_if field_simps)
  ultimately show thesis using that by blast
qed

lemma clamp_trunc:
  "is_finite a \<Longrightarrow> fval a = of_int m \<Longrightarrow> fl_trunc (- 128) 127 (fclamp a (Fin (- 128)) (Fin 127)) = max (- 128) (min 127 m)"
  by (cases a) (auto simp: fclamp_def flt_def fle_def is_finite_def fval_def fl_trunc_def Let_def)

lemma scaled_near:
  assumes "near a x e" "\<bar>s - 1 / 127\<bar> \<le> 2 / 2 ^ 24" "e \<le> 1 / 10000" "- 1 / 2 \<le> x" "x \<le> 2"
  shows "is_finite (fdiv b32 a (Fin s)) \<and> fval (fdiv b32 a (Fin s)) \<le> 127 * x + 2 / 100 \<and> \<bar>fval (fdiv b32 a (Fin s))\<bar> \<le> 300"
proof -
  have "1 / 127 - 2 / 2 ^ 24 \<le> s" using assms(2) by linarith
  then have s: "1 / 128 \<le> s" "0 < s" by simp_all
  define i where "i = 1 / s"
  have i: "0 < i" "i \<le> 128" "i * s = 1" using s by (simp_all add: i_def field_simps)
  have "i - 127 = 127 * i * (1 / 127 - s)" using i(3) by (simp add: algebra_simps)
  then have "\<bar>i - 127\<bar> = 127 * i * \<bar>s - 1 / 127\<bar>" using i(1) by (simp add: abs_mult abs_minus_commute)
  also have "\<dots> \<le> 127 * 128 * (2 / 2 ^ 24)" using i assms(2) by (intro mult_mono) simp_all
  finally have "\<bar>i - 127\<bar> \<le> 1 / 400" by (rule order.trans) simp
  have e: "0 \<le> e" using nearD(2) [OF assms(1)] by linarith
  have x: "\<bar>x\<bar> \<le> 2" "\<bar>x\<bar> + e \<le> 3" using assms(3-5) by (simp_all add: abs_if)
  have "\<bar>x * i - 127 * x\<bar> = \<bar>x\<bar> * \<bar>i - 127\<bar>" by (simp add: abs_mult [symmetric] algebra_simps)
  also have "\<dots> \<le> 2 * (1 / 400)" using x(1) \<open>\<bar>i - 127\<bar> \<le> 1 / 400\<close> by (intro mult_mono) simp_all
  finally have xi: "\<bar>x * i - 127 * x\<bar> \<le> 1 / 200" by simp
  have "(\<bar>x\<bar> + e) * i \<le> 3 * 128" "e * i \<le> 1 / 10000 * 128" using x(2) i e assms(3) by (intro mult_mono; simp)+
  then have "(\<bar>x\<bar> + e) / s + 1 \<le> 1000" and ei: "e / s \<le> 128 / 10000" by (simp_all add: i_def)
  from f32.near_div [OF assms(1) s(2) this(1)]
  have q: "near (fdiv b32 a (Fin s)) (x * i) (e / s + 1000 * (1 / 2 ^ 24))" by (simp add: i_def)
  have "near (fdiv b32 a (Fin s)) (127 * x) (2 / 100)"
    by (rule near_weaken [OF near_shift [OF q xi]]) (use ei in simp)
  from nearD(1,2) [OF this] have "is_finite (fdiv b32 a (Fin s))" "fval (fdiv b32 a (Fin s)) \<le> 127 * x + 2 / 100"
    "\<bar>fval (fdiv b32 a (Fin s))\<bar> \<le> 300" using assms(4,5) by linarith+
  then show ?thesis by blast
qed

lemma quantize_upper:
  assumes "near a x e" "e \<le> 1 / 10000" "- 1 / 2 \<le> x" "x \<le> 2"
  shows "of_int (quantize_f32_to_i8 a quantization_default) / 127 \<le> x + 41 / 10000"
proof -
  obtain s where s: "scale quantization_default = Fin s" using default_scale by blast
  have "near (scale quantization_default) (1 / 127) (2 / 2 ^ 24)"
    using f32.near_div [OF near_exact [of 1], of 127 2] by (simp add: quantization_default_def)
  then have s127: "\<bar>s - 1 / 127\<bar> \<le> 2 / 2 ^ 24" by (simp add: s near_def fval_def)
  define w where "w = fdiv b32 a (Fin s)"
  have w: "is_finite w" "fval w \<le> 127 * x + 2 / 100" "\<bar>fval w\<bar> \<le> 300"
    unfolding w_def using scaled_near [OF assms(1) s127 assms(2-4)] by simp_all
  obtain m where m: "is_finite (fround_away w)" "fval (fround_away w) = of_int m" "\<bar>of_int m - fval w\<bar> \<le> 1 / 2"
    using fround_away_int [OF w(1)] .
  have "\<bar>of_int m\<bar> \<le> (301 :: rat)" using m(3) w(3) by linarith
  then have "\<bar>of_int m\<bar> < (of_int (2 ^ 24) :: rat)" by simp
  then have "\<bar>m\<bar> < 2 ^ 24" unfolding of_int_abs [symmetric] by (simp only: of_int_less_iff)
  then have r: "fround b32 (of_int m) = Fin (of_int m)" using fl_of_int_exact [of m] by (simp add: fl_of_int_def)
  have "fl_of_int b32 (zero_point quantization_default) = Fin 0" by (simp add: quantization_default_def fl_of_int_exact)
  moreover have "is_finite (fadd b32 (fround_away w) (Fin 0))" "fval (fadd b32 (fround_away w) (Fin 0)) = of_int m"
    using m(1,2) r by (simp_all add: fadd_finite is_finite_def [of "Fin _"] fval_def [of "Fin _"])
  ultimately have "quantize_f32_to_i8 a quantization_default = max (- 128) (min 127 m)"
    by (simp add: quantize_f32_to_i8_def s w_def [symmetric] clamp_trunc Let_def)
  then have "of_int (quantize_f32_to_i8 a quantization_default) \<le> max (- 128) (of_int m :: rat)" by simp
  moreover have "of_int m \<le> 127 * x + 52 / 100" using m(3) w(2) by linarith
  moreover have "- 128 \<le> 127 * x + 52 / 100" using assms(3) by simp
  ultimately have "of_int (quantize_f32_to_i8 a quantization_default) \<le> 127 * x + 52 / 100" by linarith
  then show ?thesis by simp
qed

subsection \<open>The features the tripwire hands to the scorer\<close>

abbreviation quantized :: "fl list \<Rightarrow> i8 list" where
  "quantized \<equiv> map (\<lambda>v. quantize_f32_to_i8 v quantization_default)"

lemma quantized_io_term:
  assumes "near (row ! 0) x d" "near (row ! 3) y d" "d \<le> 1 / 10000" "- 1 / 2 \<le> x" "x \<le> 2" "- 1 / 2 \<le> y" "y \<le> 2"
    and "7 / 10 * x + 3 / 10 * y \<le> 8445 / 10000" "length row = 4"
  shows "io_term (quantized row) \<le> 8486 / 10000"
proof -
  have "io_term (quantized row) \<le> 7 / 10 * (x + 41 / 10000) + 3 / 10 * (y + 41 / 10000)"
    unfolding io_term_def using assms quantize_upper [OF assms(1,3,4,5)] quantize_upper [OF assms(2,3,6,7)]
    by (intro add_mono mult_left_mono) simp_all
  also have "\<dots> \<le> 8486 / 10000" using assms(8) by (simp add: field_simps)
  finally show ?thesis .
qed

definition window_blocks :: "FileOperationEvent list \<Rightarrow> fl list" where
  "window_blocks es = concat (map block_entropies es)"

lemma window_blocks_filter:
  "length (window_blocks (filter P es)) \<le> length (window_blocks es)" "set (window_blocks (filter P es)) \<subseteq> set (window_blocks es)"
  by (induction es) (auto simp: window_blocks_def)

lemma bucket_row_score:
  assumes "\<And>a. a \<in> set (window_blocks es) \<Longrightarrow> entropy_range a" "length (window_blocks es) \<le> 2 ^ 28"
  shows "io_term (quantized (bucket_row es)) \<le> 8486 / 10000"
proof (cases "window_blocks es = []")
  case True
  have z: "near (Fin 0) 0 (1 / 10000)" by (simp add: near_def is_finite_def fval_def)
  have "near (bucket_row es ! 0) 0 (1 / 10000)" "near (bucket_row es ! 3) 0 (1 / 10000)"
    using True z by (auto simp: bucket_row_def window_blocks_def [symmetric] differential_entropy_def kavach_const
        fdiv_fin fcast_def fround_def Let_def)
  then show ?thesis by (rule quantized_io_term) (simp_all add: bucket_row_def kavach_const Let_def)
next
  case False
  let ?s = "differential_entropy (window_blocks es)"
  define m where "m = sum_list (map fval (window_blocks es)) / of_nat (length (window_blocks es))"
  note f = slot_features [OF assms(1) False assms(2), folded m_def]
  have "es \<noteq> []" using False by (auto simp: window_blocks_def)
  then have row: "bucket_row es ! 0 = fcast b32 (fdiv b64 (mean_entropy ?s) (Fin 8))"
    "bucket_row es ! 3 = fcast b32 (intermittent_encryption_score ?s)" "length (bucket_row es) = 4"
    by (simp_all add: bucket_row_def window_blocks_def Let_def)
  have "near (fdiv b64 (mean_entropy ?s) (Fin 8)) (m / 8) (1 / 2 ^ 18)"
    by (rule near_weaken [OF f64.near_div [OF f(1), of 8 4]]) (use f(2,3) in \<open>simp_all add: abs_if\<close>)
  then have r0: "near (bucket_row es ! 0) (m / 8) (1 / 10000)"
    unfolding row by (rule near_weaken [OF f32.near_cast [where M = 4]]) (use f(2,3) in \<open>simp_all add: abs_if\<close>)
  have r3: "near (bucket_row es ! 3) (fval (intermittent_encryption_score ?s)) (1 / 10000)"
    unfolding row by (rule near_weaken [OF f32.near_cast [OF near_self [OF f(4)], where M = 4]]) (use f(5,6) in simp_all)
  show ?thesis by (rule quantized_io_term [OF r0 r3]) (use f row(3) in simp_all)
qed

lemma zero_row_score: "io_term (quantized (replicate 4 (Fin 0))) \<le> 8486 / 10000"
  by (simp add: io_term_def quantize_zero)

lemma tensor_rows_score:
  assumes "\<And>a. a \<in> set (window_blocks (events t)) \<Longrightarrow> entropy_range a" "length (window_blocks (events t)) \<le> 2 ^ 28"
    and "row \<in> set (tripwire_tensor_matrix sha256 t)"
  shows "io_term (quantized row) \<le> 8486 / 10000" "length row = 4"
proof -
  have bucket: "io_term (quantized (bucket_row (filter P (filter Q (events t))))) \<le> 8486 / 10000" for P Q
    using assms(1,2) window_blocks_filter [of P "filter Q (events t)"] window_blocks_filter [of Q "events t"]
    by (intro bucket_row_score) (auto intro: order.trans)
  have shape: "length (bucket_row es) = 4" for es by (simp add: bucket_row_def kavach_const Let_def)
  show "io_term (quantized row) \<le> 8486 / 10000" "length row = 4"
    using assms(3) bucket shape zero_row_score
    by (auto simp: tripwire_tensor_matrix_def slot_matrix_def kavach_const evaluate_pid_Some(5) Let_def split: if_splits option.splits)
qed

lemma exact_mean_le:
  "(\<And>row. row \<in> set rows \<Longrightarrow> t row \<le> c) \<Longrightarrow> length rows = 10 \<Longrightarrow> 0 \<le> c \<Longrightarrow> exact_mean 10 t rows \<le> c"
proof -
  assume t: "\<And>row. row \<in> set rows \<Longrightarrow> t row \<le> c" and len: "length rows = 10" and c: "0 \<le> c"
  have "(\<Sum>row\<leftarrow>rows. t row) \<le> (\<Sum>row\<leftarrow>rows. c)" using t by (rule sum_list_mono)
  then have "(\<Sum>row\<leftarrow>rows. t row) / 10 \<le> c" using len by (simp add: sum_list_triv)
  then show ?thesis using c by (simp add: exact_mean_def min_def)
qed

lemma ALERT_SCORE_near: "near ALERT_SCORE (85 / 100) (2 / 2 ^ 24)"
  unfolding ALERT_SCORE_def using f32.near_round [of "85 / 100" "85 / 100" 0 2] by simp

lemma tripwire_score_below_alert:
  assumes "\<And>a. a \<in> set (window_blocks (events t)) \<Longrightarrow> entropy_range a" "length (window_blocks (events t)) \<le> 2 ^ 28"
    and "exact_scorer lib eng"
  shows "\<not> fle ALERT_SCORE (fst (run_io_inference lib eng (quantize_matrix (tripwire_tensor_matrix sha256 t) quantization_default)))"
proof -
  let ?m = "tripwire_tensor_matrix sha256 t" and ?q = "quantize_matrix (tripwire_tensor_matrix sha256 t) quantization_default"
  have len: "length ?m = 10"
    by (auto simp: tripwire_tensor_matrix_def slot_matrix_def kavach_const evaluate_pid_Some(5) Let_def split: option.splits)
  have "i8_matrix 10 ?q"
    using len tensor_rows_score(2) [OF assms(1,2)] by (auto simp: i8_matrix_def quantize_matrix_def list_all_iff quantize_range)
  with assms(3) have near: "near (fst (run_io_inference lib eng ?q)) (exact_mean 10 io_term ?q) (1 / 10000)"
    by (rule inference_near)
  have "exact_mean 10 io_term ?q \<le> 8486 / 10000"
    using len tensor_rows_score(1) [OF assms(1,2)] by (intro exact_mean_le) (auto simp: quantize_matrix_def)
  then show ?thesis by (intro near_le_fle [OF near ALERT_SCORE_near]) simp
qed

subsection \<open>Properties\<close>

definition kernel_run :: "(fl \<Rightarrow> fl) \<Rightarrow> (bytes \<Rightarrow> bytes) \<Rightarrow> KernelFileEvent list \<Rightarrow> KernelFileConsumer" where
  \<comment> \<open>the consumer of the live daemon after a history of file events\<close>
  "kernel_run log2 sha256 es = foldl (\<lambda>c e. snd (process_kernel_event log2 sha256 c e)) (kernel_consumer_new entropy_engine_new) es"

lemma kernel_run_range:
  "log2_close log2 \<Longrightarrow> a \<in> set (window_blocks (events (tracker (kf_engine (kernel_run log2 sha256 es))))) \<Longrightarrow> entropy_range a"
proof (induction es rule: rev_induct)
  case Nil
  then show ?case by (simp add: kernel_run_def kernel_consumer_new_def entropy_engine_new_def tracker_new_def window_blocks_def)
next
  case (snoc e es)
  then show ?case
    by (auto simp: kernel_run_def process_kernel_event_def ingest_operation_def window_blocks_def case_prod_beta Let_def
        split: if_splits intro: write_blocks_range)
qed

lemma later_stages:
  "Dispatched v \<notin> set (fst (net_stage env s))" "IoAlert x \<notin> set (fst (net_stage env s))"
  "Dispatched v \<notin> set (fst (audit_stage env s))" "IoAlert x \<notin> set (fst (audit_stage env s))"
  "brokers (snd (net_stage env s)) = brokers s" "brokers (snd (audit_stage env s)) = brokers s"
  by (auto simp: net_stage_def audit_stage_def case_prod_beta Let_def split: sum.splits)

lemma tick_io:
  "Dispatched v \<in> set (fst (sentinel_tick env config start_ts tick s)) \<longleftrightarrow> Dispatched v \<in> set (fst (io_stage env config tick (start_ts + tick * 100) s))"
  "IoAlert x \<in> set (fst (sentinel_tick env config start_ts tick s)) \<longleftrightarrow> IoAlert x \<in> set (fst (io_stage env config tick (start_ts + tick * 100) s))"
  "brokers (snd (sentinel_tick env config start_ts tick s)) = brokers (snd (io_stage env config tick (start_ts + tick * 100) s))"
  by (simp_all add: tick_parts later_stages Let_def)

definition io_score :: "('k, 's, 't) sentinel_env \<Rightarrow> 's Sentinel \<Rightarrow> NpuError + fl" where
  \<comment> \<open>what the I/O head answers in a tick\<close>
  "io_score env s = fst (evaluate_io_head (env_ort env) (npu_session s) (io_from_f32_matrix
     (tripwire_tensor_matrix (sha256_digest (env_crypto env)) (tracker (kf_engine (kernel_consumer s)))) quantization_default))"

lemma io_stage_cases:
  "fst (io_stage env config tick now s) = (case io_score env s of
      Ok score \<Rightarrow> if fle ALERT_SCORE score then [IoAlert score, Dispatched (live_verdict config tick now)] else []
    | Err _ \<Rightarrow> [])"
  "brokers (snd (io_stage env config tick now s)) = (case io_score env s of
      Ok score \<Rightarrow> if fle ALERT_SCORE score
        then snd (pipe_dispatch (env_pipe env) (verdict_dispatcher s) (brokers s) (live_verdict config tick now) (env_wall_clock env tick))
        else brokers s
    | Err _ \<Rightarrow> brokers s)"
  by (auto simp: io_stage_def io_score_def case_prod_beta Let_def split: sum.splits)


text \<open>The built-in scorer computes the weighted means its weights describe: for every well-typed tensor
  each head's single-precision score is within \<open>2 ^ -16\<close> of the exact mean of the quantized features, cut to
  the interval from 0 to 1.\<close>

theorem baseline_scores_exact:
  assumes "i8_matrix 10 io" "i8_matrix 32 net" "i8_matrix 16 audit"
  shows "near (baseline_io io) (exact_mean 10 io_term io) (1 / 2 ^ 16)
    \<and> near (baseline_net net) (exact_mean 32 first_term net) (1 / 2 ^ 16)
    \<and> near (baseline_audit audit) (exact_mean 16 first_term audit) (1 / 2 ^ 16)"
  using assms by (intro conjI baseline_near)

theorem baseline_scores_exact_witness:
  "near (baseline_io (replicate 10 [115, 80, 0, 0])) (161 / 254) (1 / 2 ^ 16)
    \<and> near (baseline_net (replicate 32 [100, 50, 0, 0])) (100 / 127) (1 / 2 ^ 16)
    \<and> near (baseline_audit (replicate 16 [- 128, 0, 0, 0])) 0 (1 / 2 ^ 16)"
proof -
  have "i8_matrix 10 (replicate 10 [115, 80, 0, 0])" "i8_matrix 32 (replicate 32 [100, 50, 0, 0])"
    "i8_matrix 16 (replicate 16 [- 128, 0, 0, 0])"
    by (simp_all add: i8_matrix_def list_all_iff is_i8_def)
  from baseline_scores_exact [OF this] show ?thesis
    by (simp add: exact_mean_def io_term_def first_term_def map_replicate sum_list_replicate)
qed


text \<open>A runtime that computes the graph without rounding, on tensors kept as rows of four.\<close>

definition exact_ort :: "(unit, i8 list list) ort" where
  "exact_ort = \<lparr>init_from = \<lambda>_. Ok (), commit_from_memory = \<lambda>_ _. Ok (), tensor_from_array = \<lambda>_ data. Ok (chunks 4 data),
     session_run = \<lambda>_ inputs. Ok (\<lambda>name. Ok (Fin (
       if name = ''io_score'' then graph_mean IO_WEIGHTS (snd (inputs ! 0))
       else if name = ''net_score'' then graph_mean FIRST_WEIGHTS (snd (inputs ! 1))
       else graph_mean FIRST_WEIGHTS (snd (inputs ! 2)))))\<rparr>"

definition reference_engine :: "unit NpuEngine" where
  "reference_engine = (engine sample_session)\<lparr>ort_session := Some \<lparr>ort_handle = (), ort_backend = NativeCpuBaseline\<rparr>\<rparr>"

lemma chunks_rows: "list_all (\<lambda>row. length row = 4) rows \<Longrightarrow> chunks 4 (concat rows) = rows"
proof (induction rows)
  case (Cons row rows)
  then show ?case by (subst chunks.simps) auto
qed (simp add: chunks.simps)

lemma exact_ort_runs: "runs_reference_graph exact_ort s"
proof -
  have "chunks 4 (concat rows) = rows" if "i8_matrix n rows" for n rows
    using that by (intro chunks_rows) (auto simp: i8_matrix_def list_all_iff)
  moreover have "near (Fin x) x (1 / 100)" for x by (rule near_weaken [OF near_exact]) simp
  ultimately show ?thesis by (auto simp: runs_reference_graph_def exact_ort_def)
qed


text \<open>C11: the alert threshold is out of reach of the scorers the repository ships: whatever file operations a
  daemon has been fed (a window of at most \<open>2 ^ 28\<close> blocks), scored by the built-in scorer or by an ONNX session
  of the reference model, its I/O score stays below 0.85: no tick raises an I/O alert, no verdict is
  dispatched and no broker changes. The entropy weight of 0.7 alone cannot reach the threshold, and the
  intermittent feature only grows as the mean entropy falls.\<close>

theorem fed_daemon_never_enforces:
  assumes "log2_close log2" "exact_scorer (env_ort env) (engine (npu_session s))"
    and "kernel_consumer s = kernel_run log2 (sha256_digest (env_crypto env)) es"
    and "length (window_blocks (events (tracker (kf_engine (kernel_consumer s))))) \<le> 2 ^ 28"
  shows "Dispatched v \<notin> set (fst (sentinel_tick env config start_ts tick s))
    \<and> IoAlert x \<notin> set (fst (sentinel_tick env config start_ts tick s))
    \<and> brokers (snd (sentinel_tick env config start_ts tick s)) = brokers s"
proof -
  have "\<not> fle ALERT_SCORE score" if "io_score env s = Ok score" for score
    using that tripwire_score_below_alert [of "tracker (kf_engine (kernel_consumer s))", OF _ assms(4,2)]
      kernel_run_range [OF assms(1), of _ "sha256_digest (env_crypto env)" es] assms(3)
    by (auto simp: io_score_def evaluate_heads io_from_f32_matrix_def split: NpuState.splits)
  then show ?thesis unfolding tick_io io_stage_cases by (auto split: sum.splits)
qed

definition sample_write :: KernelFileEvent where
  "sample_write = \<lparr>kf_process_id = 1337, kf_file_path = ''a.locked'', kf_is_rename = True, kf_payload = replicate 8 7,
     kf_timestamp_unix_ms = 1000\<rparr>"

definition sample_sentinel :: "unit Sentinel" where
  "sample_sentinel = (fst (live_sentinel sample_env safe_defaults \<lparr>INITIALIZED = False\<rparr>))
     \<lparr>kernel_consumer := kernel_run exact_log2 (sha256_digest (env_crypto sample_env)) [sample_write]\<rparr>"

theorem fed_daemon_never_enforces_witness:
  "Dispatched (live_verdict safe_defaults 1 100) \<notin> set (fst (sentinel_tick sample_env safe_defaults 0 1 sample_sentinel))
    \<and> IoAlert (Fin 1) \<notin> set (fst (sentinel_tick sample_env safe_defaults 0 1 sample_sentinel))
    \<and> brokers (snd (sentinel_tick sample_env safe_defaults 0 1 sample_sentinel)) = brokers sample_sentinel"
proof (rule fed_daemon_never_enforces [OF exact_log2_close])
  show "kernel_consumer sample_sentinel = kernel_run exact_log2 (sha256_digest (env_crypto sample_env)) [sample_write]"
    by (simp add: sample_sentinel_def)
  show "length (window_blocks (events (tracker (kf_engine (kernel_consumer sample_sentinel))))) \<le> 2 ^ 28"
    by (simp add: sample_sentinel_def kernel_run_def process_kernel_event_def ingest_operation_def window_blocks_def sample_write_def
        make_write_event_def block_entropy_scan_def kernel_consumer_new_def entropy_engine_new_def tracker_new_def chunks.simps
        kavach_const Let_def)
  show "exact_scorer (env_ort sample_env) (engine (npu_session sample_sentinel))"
    using live_sentinel_idle [of sample_env safe_defaults "\<lparr>INITIALIZED = False\<rparr>"]
    by (simp add: sample_sentinel_def idle_def sample_env_def exact_scorer_def)
qed

end
