(* ===== verification/Kavach_Rhythm.thy ===== *)
theory Kavach_Rhythm
  imports Kavach_Beacon Kavach_Slot
begin

section \<open>Detection of a steady beacon\<close>

text \<open>
  What the beacon detector (\<open>crates/kavach-beacon/src/detector.rs\<close>) is guaranteed to find: the double-precision
  mean, variance, square root and coefficient of variation of 31 intervals against their exact values, and from
  that the flag of a flow whose intervals stay within a tenth of a nominal one.
\<close>

subsection \<open>The square root\<close>

lemma isqrt_square: "isqrt n * isqrt n \<le> n"
proof (induction n rule: isqrt.induct)
  case (1 n)
  show ?case
  proof (cases "n = 0")
    case False
    then have "isqrt (n div 4) * isqrt (n div 4) \<le> n div 4" using 1 by blast
    then have "(2 * isqrt (n div 4)) * (2 * isqrt (n div 4)) \<le> n" by simp
    then show ?thesis by (subst (1 2) isqrt.simps) (simp add: False Let_def)
  qed (simp add: isqrt.simps)
qed

lemma isqrt_next: "n < (isqrt n + 1) * (isqrt n + 1)"
proof (induction n rule: isqrt.induct)
  case (1 n)
  show ?case
  proof (cases "n = 0")
    case False
    define s where "s = isqrt (n div 4)"
    have "n div 4 + 1 \<le> (s + 1) * (s + 1)" using 1 [OF False] by (simp add: s_def)
    then have "4 * (n div 4 + 1) \<le> 4 * ((s + 1) * (s + 1))" by (rule mult_le_mono2)
    moreover have "n < 4 * (n div 4 + 1)" by simp
    ultimately have "n < (2 * s + 2) * (2 * s + 2)" by (simp add: algebra_simps)
    then show ?thesis unfolding s_def by (subst (1 2) isqrt.simps) (simp add: False Let_def numeral_2_eq_2)
  qed (simp add: isqrt.simps)
qed

text \<open>A positive square root is an integer multiple of the quantum, within half a quantum from above and one from below.\<close>

lemma fsqrt_parts:
  assumes "0 < r" "r \<le> 2 ^ 60"
  obtains k Q where "fsqrt b64 (Fin r) = Fin (of_nat k * Q)" "0 < Q" "Q \<le> 1 / 2 ^ 22"
    "0 < k \<Longrightarrow> ((of_nat k - 1 / 2) * Q) * ((of_nat k - 1 / 2) * Q) \<le> r" "r < ((of_nat k + 1) * Q) * ((of_nat k + 1) * Q)"
proof -
  define q where "q = max (ilog2 r div 2 - int (prec b64) + 1) (qmin b64)"
  define S where "S = r / (rpow2 q * rpow2 q)"
  define m where "m = isqrt (nat (floor S))"
  define m' where "m' = (if S > (of_nat m + 1 / 2) * (of_nat m + 1 / 2) \<or> (S = (of_nat m + 1 / 2) * (of_nat m + 1 / 2) \<and> odd m) then m + 1 else m)"
  have Q: "0 < rpow2 q" by simp
  have S: "S * (rpow2 q * rpow2 q) = r" "0 \<le> S" using Q assms(1) by (simp_all add: S_def)
  have "r \<noteq> 0" "\<not> r < 0" using assms(1) by simp_all
  then have root: "fsqrt b64 (Fin r) = Fin (of_nat m' * rpow2 q)"
    unfolding fsqrt_def fl.case Let_def q_def [symmetric] S_def [symmetric] m_def [symmetric] m'_def [symmetric] by (simp only: if_False)
  have "of_nat (m * m) \<le> (of_nat (nat (floor S)) :: rat)" unfolding m_def of_nat_le_iff by (rule isqrt_square)
  also have "\<dots> \<le> S" using S(2) by simp
  finally have mm: "of_nat m * of_nat m \<le> S" by simp
  have below: "(of_nat m' - 1 / 2) * (of_nat m' - 1 / 2) \<le> S" if "0 < m'"
  proof (cases "m' = m")
    case True
    then have "1 \<le> (of_nat m :: rat)" using that by simp
    then show ?thesis using mm True by (simp add: algebra_simps)
  qed (auto simp: m'_def add.commute [of "1 / 2"] split: if_splits)
  have "nat (floor S) + 1 \<le> (m + 1) * (m + 1)" using isqrt_next [of "nat (floor S)"] by (simp add: m_def)
  then have "of_nat (nat (floor S) + 1) \<le> (of_nat ((m + 1) * (m + 1)) :: rat)" by (simp only: of_nat_le_iff)
  moreover have "S < of_nat (nat (floor S) + 1)" using S(2) floor_correct [of S] by simp
  ultimately have "S < of_nat ((m + 1) * (m + 1))" by linarith
  also have "\<dots> \<le> of_nat ((m' + 1) * (m' + 1))" unfolding of_nat_le_iff by (intro mult_le_mono) (simp_all add: m'_def)
  finally have above: "S < (of_nat m' + 1) * (of_nat m' + 1)" by (simp add: algebra_simps)
  have "rpow2 (ilog2 r) < rpow2 61" using ilog2_bounds(1) [OF assms(1)] assms(2) by (simp add: rpow2_def [of 61])
  then have "ilog2 r < 61" using rpow2_mono [of 61 "ilog2 r"] by linarith
  then have "rpow2 q \<le> rpow2 (- 22)" by (intro rpow2_mono) (simp add: q_def b64_def)
  then have small: "rpow2 q \<le> 1 / 2 ^ 22" by (simp add: rpow2_def)
  have scale: "(x * rpow2 q) * (x * rpow2 q) = x * x * (rpow2 q * rpow2 q)" for x by (simp add: ac_simps)
  have QQ: "0 < rpow2 q * rpow2 q" by simp
  show thesis
  proof (rule that [OF root Q small])
    show "(of_nat m' - 1 / 2) * rpow2 q * ((of_nat m' - 1 / 2) * rpow2 q) \<le> r" if "0 < m'"
      unfolding scale S(1) [symmetric] using below [OF that] QQ by (intro mult_right_mono) simp_all
    show "r < (of_nat m' + 1) * rpow2 q * ((of_nat m' + 1) * rpow2 q)"
      unfolding scale S(1) [symmetric] using above QQ by (rule mult_strict_right_mono)
  qed
qed

lemma fsqrt_upper:
  assumes "is_finite a" "0 \<le> fval a" "fval a \<le> s * s" "0 \<le> s" "fval a \<le> 2 ^ 60"
  shows "is_finite (fsqrt b64 a)" "0 \<le> fval (fsqrt b64 a)" "fval (fsqrt b64 a) \<le> s + 1 / 2 ^ 20"
proof -
  have "is_finite (fsqrt b64 a) \<and> 0 \<le> fval (fsqrt b64 a) \<and> fval (fsqrt b64 a) \<le> s + 1 / 2 ^ 20"
  proof (cases "fval a = 0")
    case True
    then show ?thesis using assms(1,4) by (cases a) (auto simp: fsqrt_def is_finite_def fval_def)
  next
    case False
    then obtain r where r: "a = Fin r" "0 < r" "r \<le> s * s" "r \<le> 2 ^ 60"
      using assms by (cases a) (auto simp: is_finite_def fval_def)
    obtain k Q where k: "fsqrt b64 (Fin r) = Fin (of_nat k * Q)" "0 < Q" "Q \<le> 1 / 2 ^ 22"
      "0 < k \<Longrightarrow> ((of_nat k - 1 / 2) * Q) * ((of_nat k - 1 / 2) * Q) \<le> r" by (rule fsqrt_parts [OF r(2,4)]) blast
    have "(of_nat k - 1 / 2) * Q \<le> s" if "0 < k"
    proof (rule ccontr)
      assume "\<not> ?thesis"
      then have "s * s < ((of_nat k - 1 / 2) * Q) * ((of_nat k - 1 / 2) * Q)" using assms(4) by (intro mult_strict_mono) auto
      then show False using k(4) [OF that] r(3) by simp
    qed
    then have "of_nat k * Q \<le> s + Q / 2 \<or> k = 0" by (auto simp: algebra_simps)
    then have "of_nat k * Q \<le> s + 1 / 2 ^ 20" using k(3) assms(4) by auto
    then show ?thesis using k(1,2) by (simp add: r(1) is_finite_def fval_def less_imp_le)
  qed
  then show "is_finite (fsqrt b64 a)" "0 \<le> fval (fsqrt b64 a)" "fval (fsqrt b64 a) \<le> s + 1 / 2 ^ 20" by simp_all
qed

lemma fsqrt_lower:
  assumes "is_finite a" "s * s \<le> fval a" "0 < s" "fval a \<le> 2 ^ 60"
  shows "s - 1 / 2 ^ 20 \<le> fval (fsqrt b64 a)"
proof -
  have "0 < fval a" using mult_pos_pos [OF assms(3,3)] assms(2) by linarith
  then obtain r where r: "a = Fin r" "0 < r" "s * s \<le> r" "r \<le> 2 ^ 60"
    using assms by (cases a) (auto simp: is_finite_def fval_def)
  obtain k Q where k: "fsqrt b64 (Fin r) = Fin (of_nat k * Q)" "0 < Q" "Q \<le> 1 / 2 ^ 22" "r < ((of_nat k + 1) * Q) * ((of_nat k + 1) * Q)"
    by (rule fsqrt_parts [OF r(2,4)]) blast
  have "s < (of_nat k + 1) * Q"
  proof (rule ccontr)
    assume "\<not> ?thesis"
    then have "((of_nat k + 1) * Q) * ((of_nat k + 1) * Q) \<le> s * s" using k(2) assms(3) by (intro mult_mono) simp_all
    then show False using k(4) r(3) by linarith
  qed
  then show ?thesis using k(1,3) by (simp add: r(1) fval_def algebra_simps)
qed

lemma near_fle: "near a x e \<Longrightarrow> near b y d \<Longrightarrow> x + e \<le> y - d \<Longrightarrow> fle a b"
  by (cases a; cases b) (auto simp: near_def fle_def is_finite_def fval_def)

lemma near_pos_Fin: "near a x e \<Longrightarrow> e < x \<Longrightarrow> \<exists>c. a = Fin c \<and> x - e \<le> c \<and> c \<le> x + e"
  by (cases a) (auto simp: near_def is_finite_def fval_def)

subsection \<open>Mean and variance of the intervals\<close>

text \<open>
  The statistics of \<open>evaluate_beacon_rhythm\<close> over 31 intervals \<open>z\<close> with the computed lengths \<open>g z\<close>, and what
  makes the intervals steady: computed within \<open>2 ^ -28\<close> ms of lengths \<open>t z\<close> within a tenth of \<open>T\<close>.
\<close>

definition float_mean :: "('z \<Rightarrow> fl) \<Rightarrow> 'z list \<Rightarrow> fl" where
  "float_mean g zs = fdiv b64 (fsum b64 (map g zs)) (fl_of_nat b64 (length zs))"

definition float_variance :: "('z \<Rightarrow> fl) \<Rightarrow> 'z list \<Rightarrow> fl" where
  "float_variance g zs = float_mean (\<lambda>z. fmul b64 (fsub b64 (g z) (float_mean g zs)) (fsub b64 (g z) (float_mean g zs))) zs"

definition steady :: "('z \<Rightarrow> fl) \<Rightarrow> ('z \<Rightarrow> rat) \<Rightarrow> rat \<Rightarrow> 'z list \<Rightarrow> bool" where
  "steady g t T zs \<longleftrightarrow> length zs = 31 \<and> 600 \<le> T \<and> T \<le> 10000000
     \<and> (\<forall>z \<in> set zs. near (g z) (t z) (1 / 2 ^ 28) \<and> 9 / 10 * T \<le> t z \<and> t z \<le> 11 / 10 * T)"

definition average :: "('z \<Rightarrow> rat) \<Rightarrow> 'z list \<Rightarrow> rat" where
  "average t zs = (\<Sum>z\<leftarrow>zs. t z) / of_nat (length zs)"

lemma float_mean_near:
  assumes "\<And>z. z \<in> set zs \<Longrightarrow> near (g z) (t z) e" "\<And>z. z \<in> set zs \<Longrightarrow> \<bar>t z\<bar> \<le> B" "length zs = 31"
    and "31 * (B + e + M * (1 / 2 ^ 53)) + 1 \<le> M" "0 \<le> e" "1 \<le> B" "M \<le> 2 ^ 60"
  shows "near (float_mean g zs) (average t zs) (e + M / 2 ^ 52)"
proof -
  let ?u = "1 / 2 ^ 53 :: rat" and ?S = "\<Sum>z\<leftarrow>zs. t z"
  have M: "0 \<le> M" using assms(4-6) by simp
  have S: "near (fsum b64 (map g zs)) ?S (31 * (e + M * ?u))" "\<bar>?S\<bar> \<le> 31 * B"
    using f64.near_fsum [of zs g t e B M, OF assms(1,2)] assms(3-7) M by simp_all
  have "\<bar>?S\<bar> + 31 * (e + M * ?u) \<le> M" using S(2) assms(4) by simp
  then have "(\<bar>?S\<bar> + 31 * (e + M * ?u)) / 31 + 1 \<le> M / 31 + 1" by simp
  moreover have "31 \<le> M" using assms(4-6) M by simp
  ultimately have "(\<bar>?S\<bar> + 31 * (e + M * ?u)) / 31 + 1 \<le> M" by linarith
  from f64.near_div [OF S(1) _ this] assms(7)
  have "near (fdiv b64 (fsum b64 (map g zs)) (Fin 31)) (?S / 31) (31 * (e + M * ?u) / 31 + M * ?u)" by simp
  moreover have "31 * (e + M * ?u) / 31 + M * ?u = e + M / 2 ^ 52" by (simp add: field_simps)
  ultimately show ?thesis by (simp only: float_mean_def average_def assms(3) fl_of_nat_exact) (simp add: fl_of_nat_exact)
qed

lemma steady_mean:
  assumes "steady g t T zs"
  shows "near (float_mean g zs) (average t zs) (1 / 2 ^ 22)" "9 / 10 * T \<le> average t zs" "average t zs \<le> 11 / 10 * T"
proof -
  note s = assms [unfolded steady_def]
  have bound: "\<bar>t z\<bar> \<le> 11000000" if "z \<in> set zs" for z
  proof -
    have "9 / 10 * T \<le> t z" "t z \<le> 11 / 10 * T" "600 \<le> T" "T \<le> 10000000" using s that by blast+
    then show ?thesis by linarith
  qed
  have "near (float_mean g zs) (average t zs) (1 / 2 ^ 28 + 2 ^ 29 / 2 ^ 52)"
    by (rule float_mean_near [OF _ bound]) (use s in simp_all)
  then show "near (float_mean g zs) (average t zs) (1 / 2 ^ 22)" by (rule near_weaken) simp
  have "zs \<noteq> []" using s by auto
  moreover have "9 / 10 * T \<le> v \<and> v \<le> 11 / 10 * T" if "v \<in> set (map t zs)" for v using s that by auto
  ultimately show "9 / 10 * T \<le> average t zs" "average t zs \<le> 11 / 10 * T"
    using mean_bounds [of "map t zs" "9 / 10 * T" "11 / 10 * T"] by (simp_all add: average_def)
qed

lemma near_square_large:
  assumes "near a x (1 / 2 ^ 20)" "\<bar>x\<bar> \<le> 2 ^ 21"
  shows "near (fmul b64 a a) (x * x) 5" "\<bar>x * x\<bar> \<le> 2 ^ 42"
proof -
  have x: "\<bar>x\<bar> + 1 / 2 ^ 20 \<le> 2 ^ 21 + 1" using assms(2) by simp
  then have "(\<bar>x\<bar> + 1 / 2 ^ 20) * (\<bar>x\<bar> + 1 / 2 ^ 20) \<le> (2 ^ 21 + 1) * (2 ^ 21 + 1)" by (intro mult_mono) simp_all
  then have M: "(\<bar>x\<bar> + 1 / 2 ^ 20) * (\<bar>x\<bar> + 1 / 2 ^ 20) + 1 \<le> 2 ^ 43" by simp
  have "(\<bar>x\<bar> + 1 / 2 ^ 20) * (1 / 2 ^ 20) + \<bar>x\<bar> * (1 / 2 ^ 20) + 2 ^ 43 * (1 / 2 ^ 53)
      \<le> (2 ^ 21 + 1) * (1 / 2 ^ 20) + 2 ^ 21 * (1 / 2 ^ 20) + 2 ^ 43 * (1 / 2 ^ 53)"
    by (intro add_mono mult_right_mono x assms(2)) simp_all
  also have "\<dots> \<le> 5" by simp
  finally show "near (fmul b64 a a) (x * x) 5" by (rule near_weaken [OF f64.near_mul [OF assms(1,1) M], rotated]) simp
  have "\<bar>x\<bar> * \<bar>x\<bar> \<le> 2 ^ 21 * 2 ^ 21" using assms(2) by (intro mult_mono) simp_all
  then show "\<bar>x * x\<bar> \<le> 2 ^ 42" by (simp add: abs_mult)
qed

text \<open>The variance is at most the mean square distance from any point, here from the nominal interval.\<close>

lemma variance_le:
  fixes vs :: "rat list"
  assumes "\<And>v. v \<in> set vs \<Longrightarrow> \<bar>a - v\<bar> \<le> d" "vs \<noteq> []"
  defines "m \<equiv> sum_list vs / of_nat (length vs)"
  shows "(\<Sum>v\<leftarrow>vs. (v - m) * (v - m)) / of_nat (length vs) \<le> d * d"
proof -
  let ?n = "of_nat (length vs) :: rat"
  have "(a - v) * (a - v) \<le> d * d" if "v \<in> set vs" for v
    using mult_mono [OF assms(1) [OF that] assms(1) [OF that]] order.trans [OF abs_ge_zero assms(1) [OF that]] by (simp add: abs_mult_self_eq)
  then have "squares (map (\<lambda>v. a - v) vs) \<le> (\<Sum>v\<leftarrow>vs. d * d)" unfolding squares_def map_map by (intro sum_list_mono) simp
  then have "squares (map (\<lambda>v. a - v) vs) / ?n \<le> d * d" using assms(2) by (simp add: sum_list_triv pos_divide_le_eq mult.commute)
  moreover have "0 \<le> sum_list (map (\<lambda>v. a - v) vs) / ?n * (sum_list (map (\<lambda>v. a - v) vs) / ?n)" by (rule zero_le_square)
  ultimately show ?thesis unfolding m_def variance_shift [OF assms(2), of a] by linarith
qed

lemma nonneg_fsum: "(\<And>a. a \<in> set as \<Longrightarrow> nonneg a) \<Longrightarrow> nonneg (fsum f as)"
proof (induction as rule: rev_induct)
  case (snoc a as)
  then show ?case by (simp add: fsum_def nonneg_fadd)
qed (simp add: fsum_def)

lemma interval_variance_near:
  assumes "\<And>z. z \<in> set zs \<Longrightarrow> near (g z) (t z) (1 / 2 ^ 28) \<and> \<bar>t z\<bar> \<le> 11000000 \<and> \<bar>t z - average t zs\<bar> \<le> 2 ^ 21"
    and "near (float_mean g zs) (average t zs) (1 / 2 ^ 22)" "\<bar>average t zs\<bar> \<le> 11000000" "length zs = 31"
  shows "near (float_variance g zs) (average (\<lambda>z. (t z - average t zs) * (t z - average t zs)) zs) 6" "0 \<le> fval (float_variance g zs)"
proof -
  let ?d = "\<lambda>z. fsub b64 (g z) (float_mean g zs)" and ?x = "\<lambda>z. t z - average t zs"
  have diff: "near (?d z) (?x z) (1 / 2 ^ 20)" "\<bar>?x z\<bar> \<le> 2 ^ 21" if "z \<in> set zs" for z
  proof -
    note z = assms(1) [OF that]
    then show "\<bar>?x z\<bar> \<le> 2 ^ 21" by simp
    have "\<bar>t z\<bar> + \<bar>average t zs\<bar> + 1 / 2 ^ 28 + 1 / 2 ^ 22 + 1 \<le> 2 ^ 25" using z assms(3) by simp
    from near_weaken [OF f64.near_sub [OF conjunct1 [OF z] assms(2) this]] show "near (?d z) (?x z) (1 / 2 ^ 20)" by simp
  qed
  note sq = near_square_large [OF diff]
  have "near (float_variance g zs) (average (\<lambda>z. ?x z * ?x z) zs) (5 + 2 ^ 48 / 2 ^ 52)"
    unfolding float_variance_def by (rule float_mean_near [OF sq]) (use assms(4) in simp_all)
  then show var: "near (float_variance g zs) (average (\<lambda>z. ?x z * ?x z) zs) 6" by (rule near_weaken) simp
  have "nonneg (fmul b64 (?d z) (?d z))" if "z \<in> set zs" for z
    using nearD(1) [OF diff(1) [OF that]] by (intro nonneg_square) (auto simp: finite_cases)
  then have "nonneg (fsum b64 (map (\<lambda>z. fmul b64 (?d z) (?d z)) zs))" by (intro nonneg_fsum) auto
  then have "nonneg (float_variance g zs)"
    using assms(4) nonneg_fdiv [of _ 31 b64] by (simp add: float_variance_def float_mean_def [of "\<lambda>z. fmul b64 (?d z) (?d z)"] fl_of_nat_exact)
  with nearD(1) [OF var] show "0 \<le> fval (float_variance g zs)" by (cases "float_variance g zs") (auto simp: fval_def is_finite_def)
qed

lemma steady_variance:
  assumes "steady g t T zs"
  shows "is_finite (float_variance g zs)" "0 \<le> fval (float_variance g zs)" "fval (float_variance g zs) \<le> T / 10 * (T / 10) + 6"
proof -
  note s = assms [unfolded steady_def] and mean = steady_mean [OF assms]
  let ?x = "\<lambda>z. t z - average t zs"
  have z: "near (g z) (t z) (1 / 2 ^ 28) \<and> \<bar>t z\<bar> \<le> 11000000 \<and> \<bar>?x z\<bar> \<le> 2 ^ 21" "\<bar>T - t z\<bar> \<le> T / 10" if "z \<in> set zs" for z
  proof -
    have z: "near (g z) (t z) (1 / 2 ^ 28)" "9 / 10 * T \<le> t z" "t z \<le> 11 / 10 * T" "600 \<le> T" "T \<le> 10000000" using s that by blast+
    show "\<bar>T - t z\<bar> \<le> T / 10" using z(2-4) by linarith
    have "\<bar>?x z\<bar> \<le> 2000000" "\<bar>t z\<bar> \<le> 11000000" using z(2-5) mean(2,3) by linarith+
    then show "near (g z) (t z) (1 / 2 ^ 28) \<and> \<bar>t z\<bar> \<le> 11000000 \<and> \<bar>?x z\<bar> \<le> 2 ^ 21" using z(1) by simp
  qed
  have "\<bar>average t zs\<bar> \<le> 11000000" using s mean(2,3) by linarith
  note var = interval_variance_near [OF z(1) mean(1) this conjunct1 [OF s]]
  have "zs \<noteq> []" using s by auto
  then have "average (\<lambda>z. ?x z * ?x z) zs \<le> T / 10 * (T / 10)"
    using variance_le [of "map t zs" T "T / 10"] z(2) by (auto simp: average_def o_def)
  then show "fval (float_variance g zs) \<le> T / 10 * (T / 10) + 6" using nearD(2) [OF var(1)] by linarith
  show "is_finite (float_variance g zs)" "0 \<le> fval (float_variance g zs)" using nearD(1) [OF var(1)] var(2) by blast+
qed

lemma steady_cv:
  assumes "steady g t T zs"
  shows "\<exists>c. float_mean g zs = Fin c \<and> 500 \<le> c" "near (fdiv b64 (fsqrt b64 (float_variance g zs)) (float_mean g zs)) 0 (1 / 8)"
    "nonneg (fdiv b64 (fsqrt b64 (float_variance g zs)) (float_mean g zs))"
proof -
  have T: "600 \<le> T" "T \<le> 10000000" using assms by (simp_all add: steady_def)
  note mean = steady_mean [OF assms] and var = steady_variance [OF assms]
  obtain c where c: "float_mean g zs = Fin c" "average t zs - 1 / 2 ^ 22 \<le> c"
    using near_pos_Fin [OF mean(1)] mean(2) T by force
  have c_ge: "9 / 10 * T - 1 \<le> c" using c(2) mean(2) by simp
  then show "\<exists>c. float_mean g zs = Fin c \<and> 500 \<le> c" using c(1) T(1) by auto
  have sq: "T / 10 * (T / 10) + 6 \<le> (T / 10 + 1) * (T / 10 + 1)" using T by (simp add: algebra_simps)
  have "T / 10 * (T / 10) \<le> 1000000 * 1000000" using T by (intro mult_mono) simp_all
  then have "fval (float_variance g zs) \<le> 2 ^ 60" using var(3) by simp
  from fsqrt_upper [OF var(1,2) order.trans [OF var(3) sq] _ this] T(1)
  have sd: "is_finite (fsqrt b64 (float_variance g zs))" "0 \<le> fval (fsqrt b64 (float_variance g zs))"
    "fval (fsqrt b64 (float_variance g zs)) \<le> T / 10 + 2" by auto
  let ?r = "fval (fsqrt b64 (float_variance g zs)) / c"
  have "0 < c" using c_ge T(1) by linarith
  have "fval (fsqrt b64 (float_variance g zs)) \<le> 12 / 100 * c" using sd(3) c_ge T(1) by linarith
  then have r: "0 \<le> ?r" "?r \<le> 12 / 100" using \<open>0 < c\<close> sd(2) by (simp_all add: pos_divide_le_eq)
  have "(\<bar>fval (fsqrt b64 (float_variance g zs))\<bar> + 0) / c + 1 = ?r + 1" using sd(2) by simp
  also have "\<dots> \<le> 2" using r(2) by linarith
  finally have "near (fdiv b64 (fsqrt b64 (float_variance g zs)) (Fin c)) ?r (0 / c + 2 * (1 / 2 ^ 53))"
    by (rule f64.near_div [OF near_self [OF sd(1)] \<open>0 < c\<close>]) simp
  then have n: "near (fdiv b64 (fsqrt b64 (float_variance g zs)) (Fin c)) ?r (1 / 2 ^ 52)" by (rule near_weaken) simp
  have "\<bar>?r - 0\<bar> \<le> 12 / 100" using r by simp
  from near_weaken [OF near_shift [OF n this]]
  show "near (fdiv b64 (fsqrt b64 (float_variance g zs)) (float_mean g zs)) 0 (1 / 8)" by (simp add: c(1))
  have "nonneg (fsqrt b64 (float_variance g zs))"
    using sd(1,2) by (cases "fsqrt b64 (float_variance g zs)") (auto simp: fval_def is_finite_def)
  then show "nonneg (fdiv b64 (fsqrt b64 (float_variance g zs)) (float_mean g zs))" unfolding c(1) using \<open>0 < c\<close> by (rule nonneg_fdiv)
qed

subsection \<open>The scores of a steady flow\<close>

lemma jitter_near:
  assumes "500 \<le> c" "near cv 0 (1 / 8)"
  shows "near (jitter_of (Fin c) cv) 1 (37 / 100)"
proof -
  have "near (fround b64 (35 / 100)) (35 / 100) (0 + 2 * (1 / 2 ^ 53))" by (rule f64.near_round) simp_all
  then have J: "near JITTER_CV_MAX (35 / 100) (1 / 1000)" unfolding JITTER_CV_MAX_def by (rule near_weaken) simp
  then obtain r where r: "JITTER_CV_MAX = Fin r" "349 / 1000 \<le> r" using near_pos_Fin [OF J] by auto
  have guard: "fle MIN_BEACON_INTERVAL_MS (Fin c)" "fle cv JITTER_CV_MAX"
    using assms(1) near_fle [OF assms(2) J] by (simp_all add: MIN_BEACON_INTERVAL_MS_def fle_def fval_def)
  have q: "1 / 8 / r \<le> 359 / 1000" using r(2) by (simp add: pos_divide_le_eq)
  have "(\<bar>0\<bar> + 1 / 8) / r + 1 \<le> 2" using q by simp
  from f64.near_div [OF assms(2) _ this] r(2) have "near (fdiv b64 cv (Fin r)) (0 / r) (1 / 8 / r + 2 * (1 / 2 ^ 53))" by simp
  moreover have "1 / 8 / r + 2 * (1 / 2 ^ 53) \<le> 36 / 100" using add_right_mono [OF q] by (rule order.trans) simp
  ultimately have d: "near (fdiv b64 cv (Fin r)) 0 (36 / 100)" by (simp add: near_def)
  have "near (fsub b64 (Fin 1) (fdiv b64 cv (Fin r))) (1 - 0) (0 + 36 / 100 + 3 * (1 / 2 ^ 53))"
    by (rule f64.near_sub [OF near_exact d]) simp_all
  then have "near (fsub b64 (Fin 1) (fdiv b64 cv (Fin r))) (1 - 0) (37 / 100)" by (rule near_weaken) simp
  from near_clamp [OF this] guard show ?thesis by (simp add: jitter_of_def r(1))
qed

lemma nat_ratio_near:
  assumes "k \<le> n" "0 < n" "n < 2 ^ 53"
  shows "near (fdiv b64 (fl_of_nat b64 k) (fl_of_nat b64 n)) (of_nat k / of_nat n) (1 / 2 ^ 52)"
proof -
  have "(of_nat k / of_nat n :: rat) \<le> 1" using assms(1,2) by (simp add: pos_divide_le_eq)
  then have "(\<bar>of_nat k\<bar> + 0) / of_nat n + 1 \<le> (2 :: rat)" by simp
  from f64.near_div [OF near_exact _ this] assms show ?thesis by (simp add: fl_of_nat_exact)
qed

definition exact_balance :: "nat \<Rightarrow> nat \<Rightarrow> rat" where
  "exact_balance outb inb = (if 0 < outb \<and> 0 < inb then of_nat (min outb inb) / of_nat (max outb inb) else 0)"

lemma balance_near:
  assumes "outb \<le> 31" "inb \<le> 31"
  shows "near (balance_ratio outb inb) (exact_balance outb inb) (1 / 2 ^ 52)" "0 \<le> exact_balance outb inb" "exact_balance outb inb \<le> 1"
proof -
  have m: "min outb inb \<le> max outb inb" "0 < max outb inb" "max outb inb < 2 ^ 53" if "0 < outb \<and> 0 < inb"
    using that assms by (auto simp: max_def)
  show "near (balance_ratio outb inb) (exact_balance outb inb) (1 / 2 ^ 52)"
    unfolding balance_ratio_def exact_balance_def using nat_ratio_near [OF m] near_weaken [OF near_exact [of 0]] by simp
  have "(of_nat (min outb inb) :: rat) \<le> of_nat (max outb inb)" by simp
  then show "0 \<le> exact_balance outb inb" "exact_balance outb inb \<le> 1" by (auto simp: exact_balance_def pos_divide_le_eq)
qed

lemma symmetry_near:
  assumes "outb \<le> 31" "inb \<le> 31" "small \<le> 31"
  shows "near (fclamp (fadd b64 (fmul b64 (balance_ratio outb inb) (Fin (1 / 2)))
    (fmul b64 (fdiv b64 (fl_of_nat b64 small) (fl_of_nat b64 31)) (Fin (1 / 2)))) (Fin 0) (Fin 1))
    (exact_balance outb inb / 2 + of_nat small / 62) (1 / 1000)"
proof -
  define x where "x = exact_balance outb inb"
  define y where "y = (of_nat small / 31 :: rat)"
  note x = balance_near [OF assms(1,2), folded x_def]
  have "of_nat small \<le> (31 :: rat)" using assms(3) by (metis of_nat_le_iff of_nat_numeral)
  then have y: "0 \<le> y" "y \<le> 1" by (simp_all add: y_def)
  have yn: "near (fdiv b64 (fl_of_nat b64 small) (fl_of_nat b64 31)) y (1 / 2 ^ 52)" using nat_ratio_near [of small 31] assms(3) by (simp add: y_def)
  have half: "near (fmul b64 a (Fin (1 / 2))) (z * (1 / 2)) (1 / 2 ^ 50)" if "near a z (1 / 2 ^ 52)" "0 \<le> z" "z \<le> 1" for a z
    by (rule near_weaken [OF f64.near_mul [OF that(1) near_exact, of _ 2]]) (use that(2,3) in simp_all)
  have "near (fadd b64 (fmul b64 (balance_ratio outb inb) (Fin (1 / 2))) (fmul b64 (fdiv b64 (fl_of_nat b64 small) (fl_of_nat b64 31)) (Fin (1 / 2))))
      (x * (1 / 2) + y * (1 / 2)) (1 / 2 ^ 50 + 1 / 2 ^ 50 + 3 * (1 / 2 ^ 53))"
    by (rule f64.near_add [OF half [OF x] half [OF yn y]]) (use x y in simp_all)
  then have "near (fadd b64 (fmul b64 (balance_ratio outb inb) (Fin (1 / 2))) (fmul b64 (fdiv b64 (fl_of_nat b64 small) (fl_of_nat b64 31)) (Fin (1 / 2))))
      (x * (1 / 2) + y * (1 / 2)) (1 / 1000)" by (rule near_weaken) simp
  moreover have "max 0 (min 1 (x * (1 / 2) + y * (1 / 2))) = exact_balance outb inb / 2 + of_nat small / 62"
    using x(2,3) y by (simp add: y_def x_def)
  ultimately show ?thesis by (metis near_clamp)
qed

subsection \<open>Properties\<close>

definition interval_ms :: "PacketMeta \<times> PacketMeta \<Rightarrow> rat" where
  \<comment> \<open>the exact time between two packets\<close>
  "interval_ms z = of_nat (unat (saturating_sub (timestamp_ns (snd z)) (timestamp_ns (fst z)))) / 1000000"

definition steady_window :: "rat \<Rightarrow> PacketMeta list \<Rightarrow> bool" where
  \<comment> \<open>32 packets at intervals within a tenth of \<open>T\<close> ms, all but at most six after the first of at most 512 bytes\<close>
  "steady_window T ps \<longleftrightarrow> length ps = 32
     \<and> list_all (\<lambda>z. 9 / 10 * T \<le> interval_ms z \<and> interval_ms z \<le> 11 / 10 * T) (zip ps (tl ps))
     \<and> 25 \<le> length (filter (\<lambda>p. payload_bytes p \<le> 512) (tl ps))"

lemma delta_ms_near:
  assumes "interval_ms (p, p') \<le> 11000000"
  shows "near (delta_ms p p') (interval_ms (p, p')) (1 / 2 ^ 28)"
proof -
  define n where "n = unat (saturating_sub (timestamp_ns p') (timestamp_ns p))"
  have n: "(of_nat n :: rat) \<le> 11000000000000" using assms by (simp add: interval_ms_def n_def [symmetric] pos_divide_le_eq)
  then have "n \<le> 11000000000000" by (metis of_nat_le_iff of_nat_numeral)
  then have exact: "fl_of_nat b64 n = Fin (of_nat n)" by (intro fl_of_nat_exact) simp
  have "(\<bar>of_nat n\<bar> + 0) / 1000000 + 1 \<le> (2 ^ 24 :: rat)" using n by simp
  from f64.near_div [OF near_exact _ this] have "near (delta_ms p p') (interval_ms (p, p')) (0 / 1000000 + 2 ^ 24 * (1 / 2 ^ 53))"
    by (simp add: exact delta_ms_def interval_ms_def n_def [symmetric])
  then show ?thesis by (rule near_weaken) simp
qed

lemma steady_window_steady:
  assumes "steady_window T ps" "600 \<le> T" "T \<le> 10000000"
  shows "steady (\<lambda>(p, p'). delta_ms p p') interval_ms T (zip ps (tl ps))"
proof -
  have "near (delta_ms p p') (interval_ms (p, p')) (1 / 2 ^ 28) \<and> 9 / 10 * T \<le> interval_ms (p, p') \<and> interval_ms (p, p') \<le> 11 / 10 * T"
    if "(p, p') \<in> set (zip ps (tl ps))" for p p'
  proof -
    have z: "9 / 10 * T \<le> interval_ms (p, p')" "interval_ms (p, p') \<le> 11 / 10 * T"
      using assms(1) that by (auto simp: steady_window_def list_all_iff)
    then have "interval_ms (p, p') \<le> 11000000" using assms(3) by linarith
    from delta_ms_near [OF this] z show ?thesis by blast
  qed
  then show ?thesis using assms by (auto simp: steady_def steady_window_def)
qed

lemma rhythm_statistics:
  assumes "evaluate_beacon_rhythm log10 sha256 fw = Some r" "0 < c" "float_mean (\<lambda>(p, p'). delta_ms p p') (zip (packets fw) (tl (packets fw))) = Fin c"
  shows "mean_delta_ms r = Fin c"
    "coefficient_of_variation r = fdiv b64 (fsqrt b64 (float_variance (\<lambda>(p, p'). delta_ms p p') (zip (packets fw) (tl (packets fw))))) (Fin c)"
    "symmetry_score r = fclamp (fadd b64 (fmul b64 (balance_ratio (length (filter (\<lambda>p. packet_direction p = Outbound) (tl (packets fw))))
        (length (filter (\<lambda>p. packet_direction p = Inbound) (tl (packets fw))))) (Fin (1 / 2)))
      (fmul b64 (fdiv b64 (fl_of_nat b64 (length (filter (\<lambda>p. payload_bytes p \<le> 512) (tl (packets fw))))) (fl_of_nat b64 31)) (Fin (1 / 2)))) (Fin 0) (Fin 1)"
proof -
  let ?zs = "zip (packets fw) (tl (packets fw))"
  have full: "is_full fw" using assms(1) by (auto simp: evaluate_beacon_rhythm_def split: if_splits)
  note n = full_deltas [OF full]
  have n': "length (packets fw) = 32" using full by (simp add: is_full_def kavach_const)
  have mean: "fdiv b64 (fsum b64 (map (\<lambda>(p, p'). delta_ms p p') ?zs)) (fl_of_nat b64 31) = Fin c"
    using assms(3) n by (simp add: float_mean_def)
  have var: "fdiv b64 (fsum b64 (map ((\<lambda>d. fmul b64 (fsub b64 d (Fin c)) (fsub b64 d (Fin c))) \<circ> (\<lambda>(p, p'). delta_ms p p')) ?zs)) (fl_of_nat b64 31)
      = float_variance (\<lambda>(p, p'). delta_ms p p') ?zs"
    unfolding float_variance_def assms(3) using n by (simp add: float_mean_def comp_def case_prod_beta)
  have pos: "flt (Fin 0) (Fin c)" using assms(2) by (simp add: flt_def fle_def fval_def)
  show "mean_delta_ms r = Fin c"
    "coefficient_of_variation r = fdiv b64 (fsqrt b64 (float_variance (\<lambda>(p, p'). delta_ms p p') ?zs)) (Fin c)"
    "symmetry_score r = fclamp (fadd b64 (fmul b64 (balance_ratio (length (filter (\<lambda>p. packet_direction p = Outbound) (tl (packets fw))))
        (length (filter (\<lambda>p. packet_direction p = Inbound) (tl (packets fw))))) (Fin (1 / 2)))
      (fmul b64 (fdiv b64 (fl_of_nat b64 (length (filter (\<lambda>p. payload_bytes p \<le> 512) (tl (packets fw))))) (fl_of_nat b64 31)) (Fin (1 / 2)))) (Fin 0) (Fin 1)"
    using assms(1) full n n'
    by (auto simp: evaluate_beacon_rhythm_def Let_def mean var pos length_map split: if_splits option.splits)
qed

definition exact_symmetry :: "PacketMeta list \<Rightarrow> rat" where
  "exact_symmetry ps = exact_balance (length (filter (\<lambda>p. packet_direction p = Outbound) ps))
       (length (filter (\<lambda>p. packet_direction p = Inbound) ps)) / 2
     + of_nat (length (filter (\<lambda>p. payload_bytes p \<le> 512) ps)) / 62"

lemma steady_flow_scores:
  assumes "steady_window T (packets fw)" "600 \<le> T" "T \<le> 10000000"
  shows "\<exists>r. evaluate_beacon_rhythm log10 sha256 fw = Some r
    \<and> near (mean_delta_ms r) (average interval_ms (zip (packets fw) (tl (packets fw)))) (1 / 2 ^ 22)
    \<and> near (coefficient_of_variation r) 0 (1 / 8) \<and> near (jitter_score r) 1 (37 / 100)
    \<and> near (symmetry_score r) (exact_symmetry (tl (packets fw))) (1 / 1000)"
proof -
  let ?ps = "packets fw" and ?zs = "zip (packets fw) (tl (packets fw))"
  have len: "length ?ps = 32" using assms(1) by (simp add: steady_window_def)
  then obtain r where r: "evaluate_beacon_rhythm log10 sha256 fw = Some r"
    using full_evaluates [of fw] by (auto simp: is_full_def kavach_const)
  note st = steady_window_steady [OF assms]
  obtain c where c: "float_mean (\<lambda>(p, p'). delta_ms p p') ?zs = Fin c" "500 \<le> c" using steady_cv(1) [OF st] by blast
  then have stats: "mean_delta_ms r = float_mean (\<lambda>(p, p'). delta_ms p p') ?zs" "mean_delta_ms r = Fin c"
      "near (coefficient_of_variation r) 0 (1 / 8)"
    using rhythm_statistics(1,2) [OF r _ c(1)] steady_cv(2) [OF st] by simp_all
  have "near (jitter_score r) 1 (37 / 100)" using jitter_near [OF c(2)] stats rhythm_scores(4) [OF r] by simp
  moreover have "length (filter P (tl ?ps)) \<le> 31" for P using length_filter_le [of P "tl ?ps"] len by simp
  then have "near (symmetry_score r) (exact_symmetry (tl ?ps)) (1 / 1000)"
    using rhythm_statistics(3) [OF r _ c(1)] c(2) unfolding exact_symmetry_def by (simp only: symmetry_near)
  ultimately show ?thesis using r stats steady_mean(1) [OF st] by simp
qed

lemma steady_flow_flagged:
  assumes "steady_window T (packets fw)" "600 \<le> T" "T \<le> 10000000"
  shows "\<exists>r. evaluate_beacon_rhythm log10 sha256 fw = Some r \<and> is_c2_beacon r"
proof -
  let ?ps = "packets fw"
  obtain r where r: "evaluate_beacon_rhythm log10 sha256 fw = Some r" "near (jitter_score r) 1 (37 / 100)"
    "near (symmetry_score r) (exact_symmetry (tl ?ps)) (1 / 1000)" using steady_flow_scores [OF assms, of log10 sha256] by blast
  have "length (filter P (tl ?ps)) \<le> 31" for P
    using length_filter_le [of P "tl ?ps"] assms(1) by (simp add: steady_window_def)
  then have "0 \<le> exact_balance (length (filter (\<lambda>p. packet_direction p = Outbound) (tl ?ps))) (length (filter (\<lambda>p. packet_direction p = Inbound) (tl ?ps)))"
    by (intro balance_near(2))
  moreover have "(25 :: rat) \<le> of_nat (length (filter (\<lambda>p. payload_bytes p \<le> 512) (tl ?ps)))"
    using assms(1) unfolding steady_window_def by (metis of_nat_le_iff of_nat_numeral)
  ultimately have "401 / 1000 \<le> exact_symmetry (tl ?ps) - 1 / 1000" unfolding exact_symmetry_def by linarith
  moreover have "near (fround b64 (4 / 10)) (4 / 10) (1 / 1000)"
    by (rule near_weaken [OF f64.near_round [of "4 / 10" "4 / 10" 0 2]]) simp_all
  ultimately have "fle (fround b64 (4 / 10)) (symmetry_score r)" using near_fle [OF _ r(3)] by simp
  moreover have "fle (Fin (1 / 2)) (jitter_score r)" using near_fle [OF near_exact r(2)] by simp
  ultimately show ?thesis using r(1) rhythm_scores(5) [OF r(1)] by blast
qed

lemma fle_between: "fle a (Fin y) \<Longrightarrow> \<not> fle a (Fin x) \<Longrightarrow> is_finite a \<and> x < fval a \<and> fval a \<le> y"
  by (cases a) (auto simp: fle_def is_finite_def fval_def)

text \<open>C38: the effective limit of the coefficient of variation is half of the documented one: no flow is called
  a beacon with a coefficient above 0.176, although \<open>JITTER_CV_MAX\<close> is 0.35, because the jitter score has
  fallen below one half by then.\<close>

theorem flagged_cv_below_half_limit:
  assumes "evaluate_beacon_rhythm log10 sha256 fw = Some r" "is_c2_beacon r"
  shows "fle (coefficient_of_variation r) (Fin (176 / 1000))"
proof (rule ccontr)
  let ?cv = "coefficient_of_variation r"
  assume far: "\<not> ?thesis"
  have half: "fle (Fin (1 / 2)) (jitter_of (mean_delta_ms r) ?cv)"
    using rhythm_scores(4,5) [OF assms(1)] assms(2) by simp
  have "near (fround b64 (35 / 100)) (35 / 100) (0 + 2 * (1 / 2 ^ 53))" by (rule f64.near_round) simp_all
  then have J: "near JITTER_CV_MAX (35 / 100) (1 / 10000)" unfolding JITTER_CV_MAX_def by (rule near_weaken) simp
  obtain j where j: "JITTER_CV_MAX = Fin j" "35 / 100 - 1 / 10000 \<le> j" "j \<le> 35 / 100 + 1 / 10000" using near_pos_Fin [OF J] by auto
  have guard: "fle MIN_BEACON_INTERVAL_MS (mean_delta_ms r)" "fle ?cv JITTER_CV_MAX" using jitter_half [OF half] by simp_all
  from fle_between [OF guard(2) [unfolded j(1)] far] have cv: "is_finite ?cv" "176 / 1000 < fval ?cv" "fval ?cv \<le> j" by blast+
  have q: "(\<bar>fval ?cv\<bar> + 0) / j + 1 \<le> 2" using cv j by (simp add: pos_divide_le_eq)
  have "near (fdiv b64 ?cv (Fin j)) (fval ?cv / j) (0 / j + 2 * (1 / 2 ^ 53))"
    using near_self [OF cv(1)] _ q by (rule f64.near_div) (use j in simp_all)
  then have d: "near (fdiv b64 ?cv (Fin j)) (fval ?cv / j) (1 / 2 ^ 50)" by (rule near_weaken) simp
  have ge: "5026 / 10000 \<le> fval ?cv / j" "fval ?cv / j \<le> 1" using cv j by (simp_all add: pos_le_divide_eq pos_divide_le_eq)
  have "near (fsub b64 (Fin 1) (fdiv b64 ?cv (Fin j))) (1 - fval ?cv / j) (0 + 1 / 2 ^ 50 + 4 * (1 / 2 ^ 53))"
    by (rule f64.near_sub [OF near_exact d]) (use ge in simp_all)
  then have "near (fsub b64 (Fin 1) (fdiv b64 ?cv (Fin j))) (1 - fval ?cv / j) (1 / 1000)" by (rule near_weaken) simp
  from near_le_fle [OF near_clamp [OF this] near_exact [of "1 / 2"]] ge
  have "\<not> fle (Fin (1 / 2)) (fclamp (fsub b64 (Fin 1) (fdiv b64 ?cv (Fin j))) (Fin 0) (Fin 1))" by simp
  with half guard show False by (simp add: jitter_of_def j(1))
qed

text \<open>C10: steady beacons are found: whatever else the engine has seen, when the last 32 packets of a flow are
  sent at intervals within ten percent of a nominal interval between 0.6 seconds and 2.7 hours, and at most six
  of the last 31 exceed 512 bytes, the packet that completes the window is answered with a beacon alert,
  rounding errors of the statistics included.\<close>

theorem steady_beacon_flagged:
  assumes "steady_window T (last_n 32 (packets_of k (xs @ [(k, m)])))" "600 \<le> T" "T \<le> 10000000"
  shows "\<exists>r. fst (ingest_packet log10 sha256 (tcn_run log10 sha256 xs) k m) = Some r \<and> is_c2_beacon r"
proof -
  let ?ps = "packets_of k (xs @ [(k, m)])"
  have "32 \<le> length ?ps" using assms(1) by (auto simp: steady_window_def last_n_def)
  then have "fst (ingest_packet log10 sha256 (tcn_run log10 sha256 xs) k m) = evaluate_beacon_rhythm log10 sha256 (flow_of ?ps)"
    using tcn_run_flow [of log10 sha256 xs k] record_packet_flow_of [of "packets_of k xs" m]
    by (simp add: ingest_packet_def packets_of_def Let_def)
  then show ?thesis using steady_flow_flagged [of T "flow_of ?ps"] assms by (simp add: flow_of_def)
qed

text \<open>The flow of the repository's own pipeline test: one packet of 128 bytes a second.\<close>

definition periodic_key :: FlowKey where
  "periodic_key = \<lparr>local_addr = V4 0xC0A80164, local_port = 49152, remote_addr = V4 0xCB007105, remote_port = 443, protocol = 6\<rparr>"

definition periodic_packet :: "u64 \<Rightarrow> PacketMeta" where
  "periodic_packet i = \<lparr>timestamp_ns = i * 1000000000, payload_bytes = 128, packet_direction = Outbound\<rparr>"

lemma periodic_list: "steady_window 1000 (map (\<lambda>i. periodic_packet (word_of_nat i)) [0..<32])"
proof -
  have ts: "[0..<32] = [0, 1, 2, 3, 4, 5, 6, 7, 8, 9, 10, 11, 12, 13, 14, 15, 16, 17, 18, 19, 20, 21, 22, 23, 24, 25, 26, 27, 28, 29, 30, 31 :: nat]" by (simp add: upt_rec)
  show ?thesis unfolding ts by (simp add: steady_window_def interval_ms_def periodic_packet_def saturating_sub_def)
qed

lemma periodic_window:
  "steady_window 1000 (last_n 32 (packets_of periodic_key
     (map (\<lambda>i. (periodic_key, periodic_packet (word_of_nat i))) [0..<31] @ [(periodic_key, periodic_packet 31)])))"
proof -
  have "[0..<32] = [0..<31] @ [31 :: nat]" using upt_Suc_append [of 0 31] by simp
  then have "packets_of periodic_key (map (\<lambda>i. (periodic_key, periodic_packet (word_of_nat i))) [0..<31] @ [(periodic_key, periodic_packet 31)])
      = map (\<lambda>i. periodic_packet (word_of_nat i)) [0..<32]" by (simp add: packets_of_def filter_map comp_def)
  then show ?thesis using periodic_list by (simp add: last_n_def)
qed

theorem flagged_cv_below_half_limit_witness:
  "\<exists>r. evaluate_beacon_rhythm (\<lambda>_. Fin 0) (\<lambda>b. b) (flow_of (map (\<lambda>i. periodic_packet (word_of_nat i)) [0..<32])) = Some r
     \<and> fle (coefficient_of_variation r) (Fin (176 / 1000))"
proof -
  have "steady_window 1000 (packets (flow_of (map (\<lambda>i. periodic_packet (word_of_nat i)) [0..<32])))"
    using periodic_list by (simp add: flow_of_def last_n_def)
  from steady_flow_flagged [OF this] obtain r where
    "evaluate_beacon_rhythm (\<lambda>_. Fin 0) (\<lambda>b. b) (flow_of (map (\<lambda>i. periodic_packet (word_of_nat i)) [0..<32])) = Some r" "is_c2_beacon r"
    by auto
  with flagged_cv_below_half_limit [OF this] show ?thesis by blast
qed

theorem steady_beacon_flagged_witness:
  "\<exists>r. fst (ingest_packet (\<lambda>_. Fin 0) (\<lambda>b. b) (tcn_run (\<lambda>_. Fin 0) (\<lambda>b. b)
       (map (\<lambda>i. (periodic_key, periodic_packet (word_of_nat i))) [0..<31])) periodic_key (periodic_packet 31)) = Some r
     \<and> is_c2_beacon r"
  by (rule steady_beacon_flagged [OF periodic_window]) simp_all

end
