(* ===== verification/Kavach_Intermittent.thy ===== *)
theory Kavach_Intermittent
  imports Kavach_Slot
begin

section \<open>Intermittent encryption\<close>

text \<open>
  The completeness of the differential analysis in \<open>entropy.rs\<close> against encryption that skips blocks: a
  window of plain and encrypted blocks that switch often enough is anomalous, rounding included, and the
  process that wrote it to enough files is suspended by the engine of \<open>sliding_window.rs\<close>.
\<close>

subsection \<open>Plain and encrypted blocks\<close>

definition encrypted_block :: "fl \<Rightarrow> bool" where
  "encrypted_block e \<longleftrightarrow> fle ENTROPY_RANSOMWARE_THRESHOLD e"

definition plain_block :: "fl \<Rightarrow> bool" where
  \<comment> \<open>text, tables, executables: at most 5.5 bits per byte\<close>
  "plain_block e \<longleftrightarrow> fle e (Fin (11 / 2))"

fun switches :: "('a \<Rightarrow> bool) \<Rightarrow> 'a list \<Rightarrow> nat" where
  \<comment> \<open>neighbours of which exactly one is encrypted\<close>
  "switches P (x # y # xs) = (if P x \<noteq> P y then 1 else 0) + switches P (y # xs)"
| "switches P xs = 0"

lemma switches_le: "switches P (x # xs) \<le> 2 * length (filter P (x # xs)) - (if P x then 1 else 0)"
  "switches P (x # xs) \<le> 2 * length (filter (\<lambda>x. \<not> P x) (x # xs)) - (if P x then 0 else 1)"
  by (induction xs arbitrary: x) (force split: if_splits)+

lemma switches_both:
  "switches P xs \<le> 2 * length (filter P xs)" "switches P xs \<le> 2 * (length xs - length (filter P xs))"
proof -
  have "length (filter (\<lambda>x. \<not> P x) xs) = length xs - length (filter P xs)" using sum_length_filter_compl [of P xs] by simp
  then show "switches P xs \<le> 2 * length (filter P xs)" "switches P xs \<le> 2 * (length xs - length (filter P xs))"
    using switches_le [of P "hd xs" "tl xs"] by (cases xs; simp split: if_splits)+
qed

text \<open>With three switches in five neighbours each kind has at least a quarter of the blocks.\<close>

lemma quarter_share:
  assumes "2 \<le> length (filter P xs)" "3 * (length xs - 1) \<le> 5 * switches P xs"
  shows "length xs \<le> 4 * length (filter P xs)" "4 * length (filter P xs) \<le> 3 * length xs"
proof -
  have "length (filter P xs) \<le> length xs" by simp
  then show "length xs \<le> 4 * length (filter P xs)" "4 * length (filter P xs) \<le> 3 * length xs"
    using switches_both [of P xs] assms by linarith+
qed

subsection \<open>The variance of a mixture\<close>

text \<open>Values above \<open>H\<close> and below \<open>L\<close> vary at least as much as the two-point distribution on \<open>H\<close> and \<open>L\<close>.\<close>

lemma mixture_squares:
  fixes m H L D p :: rat
  assumes "\<And>x. x \<in> set xs \<Longrightarrow> if P x then H \<le> f x else f x \<le> L" "0 \<le> D" "0 \<le> p" "p \<le> 1"
  defines "h \<equiv> of_nat (length (filter P xs))" and "l \<equiv> of_nat (length (filter (\<lambda>x. \<not> P x) xs))"
  shows "h * (2 * (D * (1 - p)) * (H - m) - D * (1 - p) * (D * (1 - p))) + l * (2 * (D * p) * (m - L) - D * p * (D * p))
    \<le> (\<Sum>x\<leftarrow>xs. (f x - m) * (f x - m))"
  unfolding h_def l_def using assms(1)
proof (induction xs)
  case (Cons x xs)
  have "2 * (D * (1 - p)) * (H - m) - D * (1 - p) * (D * (1 - p)) \<le> (f x - m) * (f x - m)" if "P x"
  proof -
    have "2 * (D * (1 - p)) * (H - m) \<le> 2 * (D * (1 - p)) * (f x - m)"
      using Cons.prems [of x] that assms(2-4) by (intro mult_left_mono) simp_all
    then show ?thesis using square_tangent [of "D * (1 - p)" "f x - m"] by simp
  qed
  moreover have "2 * (D * p) * (m - L) - D * p * (D * p) \<le> (f x - m) * (f x - m)" if "\<not> P x"
  proof -
    have "2 * (D * p) * (m - L) \<le> 2 * (D * p) * (m - f x)"
      using Cons.prems [of x] that assms(2-4) by (intro mult_left_mono) simp_all
    moreover have "(m - f x) * (m - f x) = (f x - m) * (f x - m)" by (simp add: algebra_simps)
    ultimately show ?thesis using square_tangent [of "D * p" "m - f x"] by simp
  qed
  moreover note IH = Cons.IH [OF Cons.prems [OF list.set_intros(2)]]
  ultimately show ?case by (cases "P x") (simp_all add: distrib_right add.assoc add.left_commute add_mono)
qed simp

lemma mixture_variance:
  fixes m H L :: rat
  assumes "\<And>x. x \<in> set xs \<Longrightarrow> if P x then H \<le> f x else f x \<le> L" "L \<le> H" "xs \<noteq> []"
  defines "p \<equiv> of_nat (length (filter P xs)) / of_nat (length xs)"
  shows "p * (1 - p) * ((H - L) * (H - L)) \<le> (\<Sum>x\<leftarrow>xs. (f x - m) * (f x - m)) / of_nat (length xs)"
proof -
  let ?n = "of_nat (length xs) :: rat" and ?D = "H - L"
  have n: "0 < ?n" using assms(3) by simp
  have h: "of_nat (length (filter P xs)) = p * ?n" using n by (simp add: p_def)
  have "?n = of_nat (length (filter P xs)) + of_nat (length (filter (\<lambda>x. \<not> P x) xs))"
    unfolding of_nat_add [symmetric] sum_length_filter_compl ..
  then have l: "of_nat (length (filter (\<lambda>x. \<not> P x) xs)) = (1 - p) * ?n" using h by (simp add: algebra_simps)
  have p: "0 \<le> p" "p \<le> 1" unfolding p_def using n by (simp_all add: divide_le_eq_1)
  have "p * ?n * (2 * (?D * (1 - p)) * (H - m) - ?D * (1 - p) * (?D * (1 - p)))
      + (1 - p) * ?n * (2 * (?D * p) * (m - L) - ?D * p * (?D * p)) \<le> (\<Sum>x\<leftarrow>xs. (f x - m) * (f x - m))"
    using mixture_squares [of xs P H f L ?D p m] assms(1,2) p unfolding h l by simp
  moreover have "p * ?n * (2 * (?D * (1 - p)) * (H - m) - ?D * (1 - p) * (?D * (1 - p)))
      + (1 - p) * ?n * (2 * (?D * p) * (m - L) - ?D * p * (?D * p)) = p * (1 - p) * (?D * ?D) * ?n"
    by (simp add: algebra_simps)
  ultimately show ?thesis using n by (simp add: pos_le_divide_eq)
qed

subsection \<open>The computed score\<close>

text \<open>What the two classes are on finite entropies.\<close>

lemma threshold_value: "near ENTROPY_RANSOMWARE_THRESHOLD (795 / 100) (1 / 1000)"
  unfolding ENTROPY_RANSOMWARE_THRESHOLD_def
  by (rule near_weaken [OF f64.near_round [of "795 / 100" "795 / 100" 0 9]]) simp_all

lemma fle_finite: "is_finite a \<Longrightarrow> is_finite b \<Longrightarrow> fle a b \<longleftrightarrow> fval a \<le> fval b"
  by (cases a; cases b) (auto simp: fle_def is_finite_def fval_def)

lemma encrypted_value: "encrypted_block e \<Longrightarrow> is_finite e \<Longrightarrow> 7949 / 1000 \<le> fval e"
proof -
  assume "encrypted_block e" "is_finite e"
  then have "fval ENTROPY_RANSOMWARE_THRESHOLD \<le> fval e"
    using nearD(1) [OF threshold_value] by (simp add: encrypted_block_def fle_finite)
  then show ?thesis using nearD(2) [OF threshold_value] by linarith
qed

lemma plain_value: "plain_block e \<Longrightarrow> is_finite e \<Longrightarrow> fval e \<le> 11 / 2"
  using fle_finite [of e "Fin (11 / 2)"] by (simp add: plain_block_def is_finite_def [of "Fin r" for r] fval_def [of "Fin r" for r])

lemma plain_not_encrypted: "plain_block e \<Longrightarrow> is_finite e \<Longrightarrow> \<not> encrypted_block e"
  using plain_value [of e] encrypted_value [of e] by fastforce

lemma encrypted_suspicious: "encrypted_block e \<Longrightarrow> fle ENTROPY_SUSPICIOUS_THRESHOLD e"
proof -
  have "fle ENTROPY_SUSPICIOUS_THRESHOLD ENTROPY_RANSOMWARE_THRESHOLD"
    unfolding ENTROPY_SUSPICIOUS_THRESHOLD_def ENTROPY_RANSOMWARE_THRESHOLD_def by (rule fround_mono_nonneg) simp_all
  then show "encrypted_block e \<Longrightarrow> ?thesis" unfolding encrypted_block_def by (rule fle_trans)
qed

lemma switch_is_transition:
  assumes "entropy_range a" "entropy_range b" "encrypted_block a \<and> plain_block b \<or> plain_block a \<and> encrypted_block b"
  shows "fle (Fin 2) (fabs (fsub b64 b a))" "fle ENTROPY_SUSPICIOUS_THRESHOLD a \<or> fle ENTROPY_SUSPICIOUS_THRESHOLD b"
proof -
  have r: "is_finite a" "is_finite b" "\<bar>fval a\<bar> \<le> 9" "\<bar>fval b\<bar> \<le> 9"
    using assms(1,2) by (auto simp: entropy_range_def abs_le_iff)
  have "near (fsub b64 b a) (fval b - fval a) (1 / 1000)"
    by (rule near_weaken [OF f64.near_sub [OF near_self [OF r(2)] near_self [OF r(1)], of 20]]) (use r(3,4) in simp_all)
  moreover have "24 / 10 \<le> \<bar>fval b - fval a\<bar>"
    using assms(3) r(1,2) encrypted_value [of a] encrypted_value [of b] plain_value [of a] plain_value [of b] by auto
  ultimately have "is_finite (fsub b64 b a)" "2 \<le> \<bar>fval (fsub b64 b a)\<bar>" unfolding near_def by linarith+
  then show "fle (Fin 2) (fabs (fsub b64 b a))"
    by (cases "fsub b64 b a") (auto simp: fabs_def fle_def fneg_def is_neg_def is_finite_def fval_def)
  show "fle ENTROPY_SUSPICIOUS_THRESHOLD a \<or> fle ENTROPY_SUSPICIOUS_THRESHOLD b" using assms(3) encrypted_suspicious by blast
qed

lemma switches_transitions:
  assumes "\<And>a. a \<in> set blocks \<Longrightarrow> entropy_range a \<and> (plain_block a \<or> encrypted_block a)"
  shows "switches encrypted_block blocks \<le> delta_transitions blocks"
  using assms
proof (induction encrypted_block blocks rule: switches.induct)
  case (1 x y xs)
  have step: "delta_transitions (x # y # xs) = delta_transitions (y # xs)
      + (if fle (Fin 2) (fabs (fsub b64 y x)) \<and> (fle ENTROPY_SUSPICIOUS_THRESHOLD x \<or> fle ENTROPY_SUSPICIOUS_THRESHOLD y) then 1 else 0)"
    by (simp add: delta_transitions_def)
  have "switches encrypted_block (y # xs) \<le> delta_transitions (y # xs)" using 1 by simp
  moreover have "encrypted_block x \<noteq> encrypted_block y \<Longrightarrow>
      fle (Fin 2) (fabs (fsub b64 y x)) \<and> (fle ENTROPY_SUSPICIOUS_THRESHOLD x \<or> fle ENTROPY_SUSPICIOUS_THRESHOLD y)"
    using switch_is_transition [of x y] 1(2) [of x] 1(2) [of y] by auto
  ultimately show ?case unfolding step by auto
qed simp_all

lemma running_max:
  assumes "encrypted_block e" "e \<in> set blocks" "\<And>a. a \<in> set blocks \<Longrightarrow> is_finite a" "is_finite m"
  shows "encrypted_block (foldl (\<lambda>m e. if flt m e then e else m) m blocks)"
proof -
  have keep: "encrypted_block (foldl (\<lambda>m e. if flt m e then e else m) m blocks)"
    if "encrypted_block m" "is_finite m" "\<And>a. a \<in> set blocks \<Longrightarrow> is_finite a" for m blocks
    using that
  proof (induction blocks arbitrary: m)
    case (Cons a blocks)
    have "encrypted_block (if flt m a then a else m)"
      using Cons.prems unfolding encrypted_block_def by (cases "flt m a") (auto intro: fle_trans simp: flt_def fle_def)
    then show ?case using Cons by simp
  qed simp
  show ?thesis
    using assms
  proof (induction blocks arbitrary: m)
    case (Cons a blocks)
    let ?m = "if flt m a then a else m"
    have fin: "is_finite a" "is_finite ?m" using Cons.prems by simp_all
    show ?case
    proof (cases "e = a")
      case True
      have "fle a ?m" using fin Cons.prems(4) by (cases a; cases m) (auto simp: flt_def fle_def is_finite_def)
      then have "encrypted_block ?m" using True Cons.prems(1) unfolding encrypted_block_def by (blast intro: fle_trans)
      then show ?thesis using keep [of ?m blocks] fin Cons.prems(3) by simp
    next
      case False
      then show ?thesis using Cons fin by simp
    qed
  qed simp
qed

lemma summary_max:
  assumes "blocks \<noteq> []"
  shows "max_entropy (differential_entropy blocks) = foldl (\<lambda>m e. if flt m e then e else m) (Fin 0) blocks"
    "intermittent_encryption_score (differential_entropy blocks)
       = intermittent_score (max_entropy (differential_entropy blocks)) (summary_variance blocks) (transition_ratio blocks)"
    "is_anomalous (differential_entropy blocks) \<longleftrightarrow>
       fle (fround b64 (7 / 10)) (high_entropy_ratio (differential_entropy blocks))
       \<or> (2 \<le> high_blocks blocks \<and> fle (fround b64 (35 / 100)) (intermittent_encryption_score (differential_entropy blocks)))"
  using assms by (simp_all add: differential_entropy_def transition_ratio_def Let_def)

lemma mixed_blocks_variance:
  assumes "\<And>a. a \<in> set blocks \<Longrightarrow> is_finite a \<and> (plain_block a \<or> encrypted_block a)" "blocks \<noteq> []"
    and "2 \<le> length (filter encrypted_block blocks)" "3 * (length blocks - 1) \<le> 5 * switches encrypted_block blocks"
  shows "11 / 10 \<le> (\<Sum>a\<leftarrow>blocks. (fval a - m) * (fval a - m)) / of_nat (length blocks)"
proof -
  define p :: rat where "p = of_nat (length (filter encrypted_block blocks)) / of_nat (length blocks)"
  have "of_nat (length blocks) \<le> (of_nat (4 * length (filter encrypted_block blocks)) :: rat)"
    "of_nat (4 * length (filter encrypted_block blocks)) \<le> (of_nat (3 * length blocks) :: rat)"
    using quarter_share [OF assms(3,4)] unfolding of_nat_le_iff by simp_all
  then have "1 / 4 \<le> p" "p \<le> 3 / 4" using assms(2) by (simp_all add: p_def field_simps)
  then have "3 / 16 \<le> p * (1 - p)" using square_chord [of "1 / 4" p "3 / 4"] by (simp add: algebra_simps)
  then have "3 / 16 * ((7949 / 1000 - 11 / 2) * (7949 / 1000 - 11 / 2)) \<le> p * (1 - p) * ((7949 / 1000 - 11 / 2) * (7949 / 1000 - 11 / 2))"
    by (rule mult_right_mono) simp
  also have "\<dots> \<le> (\<Sum>a\<leftarrow>blocks. (fval a - m) * (fval a - m)) / of_nat (length blocks)"
    unfolding p_def using assms(1,2) encrypted_value plain_value by (intro mixture_variance) auto
  finally show ?thesis by (rule order.trans [rotated]) simp
qed

lemma mixed_blocks_score:
  assumes blocks: "\<And>a. a \<in> set blocks \<Longrightarrow> entropy_range a \<and> (plain_block a \<or> encrypted_block a)"
    and "length blocks \<le> 2 ^ 28" "2 \<le> high_blocks blocks" "3 * (length blocks - 1) \<le> 5 * switches encrypted_block blocks"
  shows "encrypted_block (max_entropy (differential_entropy blocks))"
    "is_finite (intermittent_encryption_score (differential_entropy blocks))"
    "359 / 1000 \<le> fval (intermittent_encryption_score (differential_entropy blocks))"
proof -
  have high: "high_blocks blocks = length (filter encrypted_block blocks)" by (simp add: high_blocks_def encrypted_block_def [abs_def])
  have ne: "blocks \<noteq> []" "1 < length blocks" using assms(3) high_blocks_le [of blocks] by auto
  have range: "a \<in> set blocks \<Longrightarrow> entropy_range a" "a \<in> set blocks \<Longrightarrow> is_finite a" for a using blocks by (auto simp: entropy_range_def)
  let ?m = "sum_list (map fval blocks) / of_nat (length blocks)"
  let ?v = "(\<Sum>a\<leftarrow>blocks. (fval a - ?m) * (fval a - ?m)) / of_nat (length blocks)"
    and ?t = "of_nat (delta_transitions blocks) / (of_nat (length blocks) - 1) :: rat"
  note var = variance_near [OF range(1) ne(1) assms(2)] and ratio = transition_ratio_near [OF ne(1) assms(2)]
  have v: "11 / 10 \<le> ?v" using blocks range(2) ne(1) assms(3,4) unfolding high by (intro mixed_blocks_variance) auto
  have "of_nat (3 * (length blocks - 1)) \<le> (of_nat (5 * delta_transitions blocks) :: rat)"
    using order.trans [OF assms(4) mult_le_mono2 [OF switches_transitions [OF blocks]]] by (simp only: of_nat_le_iff)
  then have t: "3 / 5 \<le> ?t" using ne(2) by (simp add: field_simps of_nat_diff)
  have "0 \<le> ?v" using v by linarith
  from near_clamp [OF intermittent_near [OF ratio var(1) this]] var(2)
  have score: "near (fclamp (fadd b64 (fmul b64 (transition_ratio blocks) (Fin (1 / 2)))
      (fmul b64 (fdiv b64 (summary_variance blocks) (Fin 8)) (Fin (1 / 2)))) (Fin 0) (Fin 1)) (max 0 (min 1 (?t / 2 + ?v / 16))) (1 / 10000)"
    by (simp only: abs_le_iff)
  obtain e where "e \<in> set blocks" "encrypted_block e"
    using assms(3) hd_in_set [of "filter encrypted_block blocks"] unfolding high by fastforce
  then show mx: "encrypted_block (max_entropy (differential_entropy blocks))"
    unfolding summary_max(1) [OF ne(1)] using running_max [of e blocks "Fin 0"] range(2) by (simp add: is_finite_def)
  have "1 \<le> fval (summary_variance blocks)" using v nearD(2) [OF var(1)] by linarith
  then have one: "fle (Fin 1) (summary_variance blocks)"
    using nearD(1) [OF var(1)] by (simp add: fle_finite is_finite_def [of "Fin 1"] fval_def [of "Fin 1"])
  have "36 / 100 \<le> max 0 (min 1 (y / 2 + z / 16))" if "3 / 5 \<le> y" "11 / 10 \<le> z" for y z :: rat using that by linarith
  from this [OF t v] have bound: "36 / 100 \<le> max 0 (min 1 (?t / 2 + ?v / 16))" .
  have active: "fle ENTROPY_RANSOMWARE_THRESHOLD (max_entropy (differential_entropy blocks)) \<and> fle (Fin 1) (summary_variance blocks)"
    using mx one by (simp add: encrypted_block_def)
  then show "is_finite (intermittent_encryption_score (differential_entropy blocks))"
    unfolding summary_max(2) [OF ne(1)] intermittent_score_def using nearD(1) [OF score] by (simp only: simp_thms if_True)
  show "359 / 1000 \<le> fval (intermittent_encryption_score (differential_entropy blocks))"
    unfolding summary_max(2) [OF ne(1)] intermittent_score_def using active nearD(2) [OF score] bound by (simp only: simp_thms if_True)
qed

lemma intermittent_anomalous:
  assumes "\<And>a. a \<in> set blocks \<Longrightarrow> entropy_range a \<and> (plain_block a \<or> encrypted_block a)"
    and "length blocks \<le> 2 ^ 28" "2 \<le> high_blocks blocks" "3 * (length blocks - 1) \<le> 5 * switches encrypted_block blocks"
  shows "is_anomalous (differential_entropy blocks)"
proof -
  note score = mixed_blocks_score [OF assms]
  have limit: "near (fround b64 (35 / 100)) (35 / 100) (1 / 10000)"
    by (rule near_weaken [OF f64.near_round [of "35 / 100" "35 / 100" 0 2]]) simp_all
  have "fval (fround b64 (35 / 100)) \<le> fval (intermittent_encryption_score (differential_entropy blocks))"
    using score(3) nearD(2) [OF limit] by linarith
  then have "fle (fround b64 (35 / 100)) (intermittent_encryption_score (differential_entropy blocks))"
    using score(2) nearD(1) [OF limit] by (simp add: fle_finite)
  moreover have "blocks \<noteq> []" using assms(3) by (auto simp: high_blocks_def)
  ultimately show ?thesis using summary_max(3) assms(3) by simp
qed

subsection \<open>Blocks of known entropy\<close>

lemma shannon_value:
  assumes "log2_close log2" "length bs \<le> 2 ^ 32"
  shows "of_rat r + 1 / 2 ^ 30 \<le> exact_entropy bs \<Longrightarrow> r \<le> fval (shannon_entropy log2 bs)"
    "exact_entropy bs + 1 / 2 ^ 30 \<le> of_rat r \<Longrightarrow> fval (shannon_entropy log2 bs) \<le> r"
proof -
  have near: "\<bar>of_rat (fval (shannon_entropy log2 bs)) - exact_entropy bs\<bar> \<le> 1 / 2 ^ 30" using shannon_near [OF assms] by simp
  show "r \<le> fval (shannon_entropy log2 bs)" if "of_rat r + 1 / 2 ^ 30 \<le> exact_entropy bs"
  proof -
    have "(of_rat r :: real) \<le> of_rat (fval (shannon_entropy log2 bs))" using near that by linarith
    then show ?thesis by (simp only: of_rat_less_eq)
  qed
  show "fval (shannon_entropy log2 bs) \<le> r" if "exact_entropy bs + 1 / 2 ^ 30 \<le> of_rat r"
  proof -
    have "of_rat (fval (shannon_entropy log2 bs)) \<le> (of_rat r :: real)" using near that by linarith
    then show ?thesis by (simp only: of_rat_less_eq)
  qed
qed

lemma encrypted_by_entropy:
  assumes "log2_close log2" "length bs \<le> 2 ^ 32" "795 / 100 + 1 / 2 ^ 20 \<le> exact_entropy bs"
  shows "encrypted_block (shannon_entropy log2 bs)"
proof -
  have "(of_rat (795 / 100 + 1 / 2 ^ 21) :: real) + 1 / 2 ^ 30 \<le> exact_entropy bs"
    using assms(3) by (simp add: of_rat_add of_rat_divide)
  then have "795 / 100 + 1 / 2 ^ 21 \<le> fval (shannon_entropy log2 bs)" by (rule shannon_value(1) [OF assms(1,2)])
  moreover have thr: "near ENTROPY_RANSOMWARE_THRESHOLD (795 / 100) (0 + 9 * (1 / 2 ^ 53))"
    unfolding ENTROPY_RANSOMWARE_THRESHOLD_def by (rule f64.near_round) simp_all
  moreover have "9 * (1 / 2 ^ 53) \<le> (1 / 2 ^ 21 :: rat)" by simp
  ultimately have "fval ENTROPY_RANSOMWARE_THRESHOLD \<le> fval (shannon_entropy log2 bs)" unfolding near_def by linarith
  then show ?thesis using nearD(1) [OF thr] shannon_near [OF assms(1,2)] by (simp add: encrypted_block_def fle_finite)
qed

lemma plain_by_entropy:
  assumes "log2_close log2" "length bs \<le> 2 ^ 32" "exact_entropy bs \<le> 54 / 10"
  shows "plain_block (shannon_entropy log2 bs)"
proof -
  have "fval (shannon_entropy log2 bs) \<le> 11 / 2"
    using assms(3) by (intro shannon_value(2) [OF assms(1,2)]) (simp add: of_rat_divide)
  then show ?thesis
    using shannon_near [OF assms(1,2)] by (simp add: plain_block_def fle_finite is_finite_def [of "Fin r" for r] fval_def [of "Fin r" for r])
qed

subsection \<open>Properties\<close>

definition intermittent_pattern :: "fl list \<Rightarrow> bool" where
  \<comment> \<open>plain and encrypted blocks only, two of them encrypted, and three of five neighbours of different kinds\<close>
  "intermittent_pattern blocks \<longleftrightarrow> list_all (\<lambda>e. plain_block e \<or> encrypted_block e) blocks
     \<and> 2 \<le> length (filter encrypted_block blocks) \<and> 3 * (length blocks - 1) \<le> 5 * switches encrypted_block blocks"

text \<open>C15: intermittent encryption is not missed: over any history of file operations in time order, when the
  blocks a process wrote within the window are each plain (at most 5.5 bits per byte) or encrypted (at least
  the threshold of 7.95), at least two are encrypted, three of five neighbouring blocks are of different kinds
  and the threshold of distinct files is reached, the engine recommends to suspend the process. Skipping
  every other block, or one in three, does not evade it; rounding of mean, variance and score is included.\<close>

theorem intermittent_encryption_suspended:
  fixes log2 sha256 w th xs x
  defines "es \<equiv> filter (\<lambda>e. file_pid e = op_pid x) (recent w log2 (xs @ [x]) (op_now x))"
  assumes "sorted (map op_now (xs @ [x]))" "log2_close log2"
    and "intermittent_pattern (concat (map block_entropies es))" "length (concat (map block_entropies es)) \<le> 2 ^ 28"
    and "th \<le> card (file_path ` set es)"
  shows "\<exists>ev. fst (ingest log2 sha256 (tripwire_run log2 sha256 (entropy_engine_with_params w th) xs) x) = Some ev
    \<and> recommended_action ev = SuspendAndAlert"
proof -
  have "is_anomalous (differential_entropy (concat (map block_entropies es)))"
  proof (rule intermittent_anomalous)
    show "entropy_range a \<and> (plain_block a \<or> encrypted_block a)" if "a \<in> set (concat (map block_entropies es))" for a
      using that assms(3,4) write_blocks_range [of log2 a]
      by (auto simp: intermittent_pattern_def list_all_iff es_def recent_def op_event_def)
  qed (use assms(4,5) in \<open>simp_all add: intermittent_pattern_def high_blocks_def encrypted_block_def [abs_def]\<close>)
  then show ?thesis using engine_evaluates [OF assms(2), of log2 sha256 w th, folded es_def] assms(6) by auto
qed

definition all_bytes :: bytes where
  "all_bytes = map word_of_nat [0..<256]"

lemma all_bytes_entropy: "exact_entropy all_bytes = 8"
proof -
  have "length (filter (\<lambda>b. unat b = k) all_bytes) = 1" if "k < 256" for k
  proof -
    have "filter (\<lambda>b. unat b = k) all_bytes = map word_of_nat (filter (\<lambda>j. j = k) [0..<256])"
      unfolding all_bytes_def filter_map o_def by (intro arg_cong [of _ _ "map word_of_nat"] filter_cong) (simp_all add: unat_of_nat)
    then show ?thesis using that by (simp add: distinct_length_filter)
  qed
  then have "byte_counts all_bytes = replicate 256 1"
    by (simp add: byte_counts_def list_eq_iff_nth_eq)
  moreover have "log 2 (1 / 256) = (- 8 :: real)" using log_nat_power [of 2 2 8] by (simp add: log_divide)
  ultimately show ?thesis by (simp add: exact_entropy_def all_bytes_def sum_list_replicate)
qed

definition skipping_ops :: "file_op list" where
  "skipping_ops = map (\<lambda>(p, data). \<lparr>op_pid = 7, op_path = p, op_data = data, op_rename = False, op_now = 1000\<rparr>)
     [(''a'', all_bytes), (''b'', [0]), (''c'', all_bytes)]"

theorem intermittent_encryption_suspended_witness:
  "\<exists>ev. fst (ingest exact_log2 (\<lambda>b. b) (tripwire_run exact_log2 (\<lambda>b. b) (entropy_engine_with_params 50 3) (butlast skipping_ops))
      (last skipping_ops)) = Some ev \<and> recommended_action ev = SuspendAndAlert"
proof (rule intermittent_encryption_suspended [OF _ exact_log2_close])
  let ?es = "filter (\<lambda>e. file_pid e = op_pid (last skipping_ops))
      (recent 50 exact_log2 (butlast skipping_ops @ [last skipping_ops]) (op_now (last skipping_ops)))"
  have one: "block_entropy_scan exact_log2 bs DEFAULT_BLOCK_SIZE = [shannon_entropy exact_log2 bs]" if "0 < length bs" "length bs \<le> 4096" for bs
    using that by (simp add: block_entropy_scan_def kavach_const chunks.simps)
  have "concat (map block_entropies ?es) = [shannon_entropy exact_log2 all_bytes, shannon_entropy exact_log2 [0], shannon_entropy exact_log2 all_bytes]"
    using one [of all_bytes] one [of "[0]"]
    by (simp add: skipping_ops_def recent_def op_event_def make_write_event_def saturating_sub_def all_bytes_def)
  moreover have "encrypted_block (shannon_entropy exact_log2 all_bytes)"
    by (rule encrypted_by_entropy [OF exact_log2_close]) (simp_all add: all_bytes_entropy, simp add: all_bytes_def)
  moreover have "exact_entropy [0] \<le> 0" using entropy_support [of "[0]" 0] by (simp add: positive_counts_def byte_counts_def upt_rec)
  then have "plain_block (shannon_entropy exact_log2 [0])" by (intro plain_by_entropy [OF exact_log2_close]) simp_all
  moreover from this have "\<not> encrypted_block (shannon_entropy exact_log2 [0])"
    by (rule plain_not_encrypted) (simp add: shannon_near [OF exact_log2_close])
  ultimately show "intermittent_pattern (concat (map block_entropies ?es))" "length (concat (map block_entropies ?es)) \<le> 2 ^ 28"
    by (simp_all add: intermittent_pattern_def)
  show "3 \<le> card (file_path ` set ?es)" by (simp add: skipping_ops_def recent_def saturating_sub_def)
qed (simp add: skipping_ops_def)

end
