(* ===== verification/Kavach_Synthetic.thy ===== *)
theory Kavach_Synthetic
  imports Kavach_Intermittent
begin

section \<open>The entropy of generated blocks\<close>

text \<open>
  The program and its tests make cipher text with linear congruential generators. This theory evaluates
  such a block inside the kernel: the generator runs on bit lists (the bytes depend on the low bits of the
  state only), the bytes are sorted into a histogram by radix, and a table of bounds of \<open>c * log2 c\<close> turns the
  histogram into a lower bound of the entropy.
\<close>

primrec lcg :: "nat \<Rightarrow> 'a::len word \<Rightarrow> 'a word \<Rightarrow> nat \<Rightarrow> 'a word \<Rightarrow> bytes" where
  \<comment> \<open>\<open>state = state.wrapping_mul(m).wrapping_add(i); push((state >> k) as u8)\<close>, \<open>n\<close> times\<close>
  "lcg 0 m i k state = []"
| "lcg (Suc n) m i k state = ucast (drop_bit k (state * m + i)) # lcg n m i k (state * m + i)"

lemma length_lcg [simp]: "length (lcg n m i k s) = n"
  by (induction n arbitrary: s) simp_all

subsection \<open>Arithmetic on bit lists\<close>

primrec bval :: "bool list \<Rightarrow> nat" where
  "bval [] = 0"
| "bval (b # bs) = of_bool b + 2 * bval bs"

fun addb :: "bool \<Rightarrow> 'a list \<Rightarrow> bool list \<Rightarrow> bool list \<Rightarrow> bool list" where
  \<comment> \<open>sum with carry, as many bits as the second argument is long\<close>
  "addb False (u # l) (False # xs) (False # ys) = False # addb False l xs ys"
| "addb False (u # l) (False # xs) (True # ys) = True # addb False l xs ys"
| "addb False (u # l) (True # xs) (False # ys) = True # addb False l xs ys"
| "addb False (u # l) (True # xs) (True # ys) = False # addb True l xs ys"
| "addb True (u # l) (False # xs) (False # ys) = True # addb False l xs ys"
| "addb True (u # l) (False # xs) (True # ys) = False # addb True l xs ys"
| "addb True (u # l) (True # xs) (False # ys) = False # addb True l xs ys"
| "addb True (u # l) (True # xs) (True # ys) = True # addb True l xs ys"
| "addb c l xs ys = []"

fun mulb :: "bool list \<Rightarrow> 'a list \<Rightarrow> bool list \<Rightarrow> bool list" where
  "mulb (False # cs) (u # l) x = False # mulb cs l x"
| "mulb (True # cs) (u # l) x = addb False (u # l) x (False # mulb cs l x)"
| "mulb [] (u # l) x = False # mulb [] l x"
| "mulb cs [] x = []"

lemma bit_mod: "(of_bool b + 2 * x) mod (2 * m) = of_bool b + 2 * (x mod m)" for x m :: nat
  by (cases b) (simp_all add: mod_mult_mult1 mod_mult2_eq [of "Suc (2 * x)" 2 m])

lemma addb_step:
  "addb c (u # l) (x # xs) (y # ys) = (x \<noteq> (y \<noteq> c)) # addb (x \<and> y \<or> c \<and> (x \<or> y)) l xs ys"
  by (cases c; cases x; cases y) simp_all

lemma addb_value:
  "length l \<le> length xs \<Longrightarrow> length l \<le> length ys \<Longrightarrow>
   bval (addb c l xs ys) = (bval xs + bval ys + of_bool c) mod 2 ^ length l \<and> length (addb c l xs ys) = length l"
proof (induction l arbitrary: c xs ys)
  case (Cons u l)
  then obtain x xs' y ys' where l: "xs = x # xs'" "ys = y # ys'" by (cases xs; cases ys) auto
  define p where "p = (x \<noteq> (y \<noteq> c))"
  define q where "q = (x \<and> y \<or> c \<and> (x \<or> y))"
  have "bval xs + bval ys + of_bool c = of_bool p + 2 * (bval xs' + bval ys' + of_bool q)"
    unfolding l p_def q_def by (cases x; cases y; cases c) simp_all
  then have "(bval xs + bval ys + of_bool c) mod 2 ^ length (u # l) = of_bool p + 2 * ((bval xs' + bval ys' + of_bool q) mod 2 ^ length l)"
    by (simp only: bit_mod length_Cons power_Suc)
  moreover have "addb c (u # l) xs ys = p # addb q l xs' ys'" unfolding l p_def q_def by (rule addb_step)
  ultimately show ?case using Cons.IH [of xs' ys' q] Cons.prems by (simp add: l)
qed simp

lemma mulb_value:
  "length l \<le> length x \<Longrightarrow> bval (mulb cs l x) = (bval cs * bval x) mod 2 ^ length l \<and> length (mulb cs l x) = length l"
proof (induction cs l x rule: mulb.induct)
  case (1 cs u l x)
  then show ?case using bit_mod [of False "bval cs * bval x" "2 ^ length l"] by (simp add: algebra_simps)
next
  case (2 cs u l x)
  let ?m = "2 ^ length l :: nat"
  have IH: "bval (mulb cs l x) = (bval cs * bval x) mod ?m" "length (mulb cs l x) = length l" using 2 by simp_all
  have "2 * ((bval cs * bval x) mod ?m) = (2 * (bval cs * bval x)) mod (2 * ?m)" by (simp add: mod_mult_mult1)
  then have "bval (False # mulb cs l x) = (2 * (bval cs * bval x)) mod (2 * ?m)" by (simp add: IH)
  moreover have "bval (addb False (u # l) x (False # mulb cs l x)) = (bval x + bval (False # mulb cs l x)) mod (2 * ?m)"
    "length (addb False (u # l) x (False # mulb cs l x)) = Suc (length l)"
    using addb_value [of "u # l" x "False # mulb cs l x" False] 2(2) IH by simp_all
  ultimately have "bval (addb False (u # l) x (False # mulb cs l x)) = (bval x + 2 * (bval cs * bval x)) mod (2 * ?m)"
    by (simp only: mod_add_right_eq)
  then show ?case using \<open>length (addb False (u # l) x (False # mulb cs l x)) = Suc (length l)\<close> by (simp add: algebra_simps)
qed simp_all

subsection \<open>The generator on bit lists\<close>

fun skip :: "'a list \<Rightarrow> 'b list \<Rightarrow> 'b list" where
  "skip (u # l) (x # xs) = skip l xs"
| "skip l xs = xs"

fun lcgb :: "'a list \<Rightarrow> bool list \<Rightarrow> bool list \<Rightarrow> 'b list \<Rightarrow> 'c list \<Rightarrow> bool list \<Rightarrow> bool list list"
  and emitb :: "'a list \<Rightarrow> bool list \<Rightarrow> bool list \<Rightarrow> 'b list \<Rightarrow> 'c list \<Rightarrow> bool list \<Rightarrow> bool list list" where
  "lcgb [] m i l k s = []"
| "lcgb (u # us) m i l k s = emitb us m i l k (addb False l i (mulb m l s))"
| "emitb us m i l k s = skip k s # lcgb us m i l k s"

lemma skip_value: "length k \<le> length s \<Longrightarrow> bval (skip k s) = bval s div 2 ^ length k \<and> length (skip k s) = length s - length k"
proof (induction k s rule: skip.induct)
  case (1 u l x xs)
  have "(of_bool x + 2 * bval xs) div (2 * 2 ^ length l) = bval xs div 2 ^ length l"
    by (simp only: div_mult2_eq) (cases x; simp)
  then show ?case using 1 by simp
qed simp_all

lemma bval_less: "bval bs < 2 ^ length bs"
  by (induction bs) (auto simp: of_bool_def)

text \<open>Bits \<open>k\<close> to \<open>k + 7\<close> of the state depend on its lowest \<open>k + 8\<close> bits.\<close>

lemma byte_of_low_bits:
  fixes s :: "'a::len word"
  assumes "k + 8 \<le> LENGTH('a)"
  shows "unat (ucast (drop_bit k s) :: u8) = unat s mod 2 ^ (k + 8) div 2 ^ k"
proof -
  have "unat (drop_bit k s) = unat s div 2 ^ k" using unat_drop_bit_eq [of k s] by (simp add: drop_bit_eq_div)
  then have "unat (ucast (drop_bit k s) :: u8) = unat s div 2 ^ k mod 2 ^ 8"
    by (simp add: unsigned_ucast_eq take_bit_eq_mod)
  also have "\<dots> = unat s mod 2 ^ (k + 8) div 2 ^ k" by (simp add: power_add mod_mult2_eq)
  finally show ?thesis .
qed

lemma lcgb_bytes:
  fixes s m i :: "'a::len word"
  assumes "length l = length k + 8" "length l \<le> LENGTH('a)" "length l \<le> length ib" "length l \<le> length sb"
    and "bval mb mod 2 ^ length l = unat m mod 2 ^ length l" "bval ib mod 2 ^ length l = unat i mod 2 ^ length l" "bval sb mod 2 ^ length l = unat s mod 2 ^ length l"
  shows "map bval (lcgb us mb ib l k sb) = map unat (lcg (length us) m i (length k) s)
    \<and> list_all (\<lambda>bs. length bs = 8) (lcgb us mb ib l k sb)"
  using assms(4,7)
proof (induction us arbitrary: s sb)
  case (Cons u us)
  let ?s = "s * m + i" and ?b = "addb False l ib (mulb mb l sb)" and ?M = "2 ^ length l :: nat"
  have dvd: "?M dvd 2 ^ LENGTH('a)" using assms(2) by (rule le_imp_power_dvd)
  note mul = mulb_value [OF Cons.prems(1), of mb]
  have add: "bval ?b = (bval ib + bval (mulb mb l sb)) mod ?M" "length ?b = length l"
    using addb_value [of l ib "mulb mb l sb" False] mul assms(3) by simp_all
  have "bval ?b = (bval ib + bval mb * bval sb) mod ?M" unfolding add(1) using mul by (simp add: mod_add_right_eq)
  also have "\<dots> = (unat i + unat m * unat s) mod ?M"
    by (intro mod_add_cong assms(6) mod_mult_cong assms(5) Cons.prems(2))
  also have "\<dots> = unat ?s mod ?M"
    using dvd by (simp add: unat_word_ariths mod_simps mod_mod_cancel algebra_simps)
  finally have low: "bval ?b = unat ?s mod ?M" .
  then have IH: "map bval (lcgb us mb ib l k ?b) = map unat (lcg (length us) m i (length k) ?s)
      \<and> list_all (\<lambda>bs. length bs = 8) (lcgb us mb ib l k ?b)"
    using add(2) by (intro Cons.IH) simp_all
  have "bval (skip k ?b) = unat (ucast (drop_bit (length k) ?s) :: u8)" "length (skip k ?b) = 8"
    using skip_value [of k ?b] add(2) assms(1,2) low byte_of_low_bits [of "length k" ?s] by simp_all
  then show ?case using IH by simp
qed simp

subsection \<open>The histogram by radix\<close>

fun zero_side :: "bool list list \<Rightarrow> bool list list" where
  "zero_side ((False # b) # xs) = b # zero_side xs"
| "zero_side ((True # b) # xs) = zero_side xs"
| "zero_side ([] # xs) = zero_side xs"
| "zero_side [] = []"

fun one_side :: "bool list list \<Rightarrow> bool list list" where
  "one_side ((True # b) # xs) = b # one_side xs"
| "one_side ((False # b) # xs) = one_side xs"
| "one_side ([] # xs) = one_side xs"
| "one_side [] = []"

fun weigh :: "nat list \<Rightarrow> 'a list \<Rightarrow> nat" where
  \<comment> \<open>a count that the table does not have spoils the result\<close>
  "weigh (t # ts) [] = t"
| "weigh (t # ts) (x # xs) = weigh ts xs"
| "weigh [] xs = 33554432"

fun radix_weight :: "nat list \<Rightarrow> 'a list \<Rightarrow> bool list list \<Rightarrow> nat" where
  "radix_weight ts (u # d) xs = radix_weight ts d (zero_side xs) + radix_weight ts d (one_side xs)"
| "radix_weight ts [] xs = weigh ts xs"

lemma weigh_nth: "weigh ts xs < 33554432 \<Longrightarrow> length xs < length ts \<and> weigh ts xs = ts ! length xs"
  by (induction ts xs rule: weigh.induct) auto

definition tally :: "bool list list \<Rightarrow> nat \<Rightarrow> nat" where
  "tally xs k = length (filter (\<lambda>b. bval b = k) xs)"

lemma sum_even_odd: "(\<Sum>k<2 * n. g k) = (\<Sum>k<n. g (2 * k)) + (\<Sum>k<n. g (2 * k + 1))" for g :: "nat \<Rightarrow> nat"
  by (induction n) simp_all

lemma tally_sides:
  assumes "list_all (\<lambda>b. length b = Suc d) xs"
  shows "tally xs (2 * k) = tally (zero_side xs) k" "tally xs (2 * k + 1) = tally (one_side xs) k"
    "list_all (\<lambda>b. length b = d) (zero_side xs)" "list_all (\<lambda>b. length b = d) (one_side xs)"
proof -
  have odd: "Suc (2 * a) \<noteq> 2 * b" "2 * b \<noteq> Suc (2 * a)" for a b :: nat by presburger+
  show "tally xs (2 * k) = tally (zero_side xs) k" using assms by (induction xs rule: zero_side.induct) (auto simp: tally_def odd)
  show "tally xs (2 * k + 1) = tally (one_side xs) k" using assms by (induction xs rule: one_side.induct) (auto simp: tally_def odd)
  show "list_all (\<lambda>b. length b = d) (zero_side xs)" using assms by (induction xs rule: zero_side.induct) auto
  show "list_all (\<lambda>b. length b = d) (one_side xs)" using assms by (induction xs rule: one_side.induct) auto
qed

lemma radix_weight_tally:
  assumes "list_all (\<lambda>b. length b = length d) xs" "radix_weight ts d xs < 33554432"
  shows "radix_weight ts d xs = (\<Sum>k<2 ^ length d. ts ! tally xs k) \<and> (\<forall>k<2 ^ length d. tally xs k < length ts)"
  using assms
proof (induction d arbitrary: xs)
  case Nil
  then have "filter (\<lambda>b. bval b = 0) xs = xs" by (auto simp: filter_id_conv list_all_iff)
  then have "tally xs 0 = length xs" by (simp add: tally_def)
  then show ?case using Nil weigh_nth [of ts xs] by (simp add: lessThan_Suc)
next
  case (Cons u d)
  note sides = tally_sides [of "length d" xs]
  have t: "list_all (\<lambda>b. length b = Suc (length d)) xs" using Cons.prems(1) by simp
  have IH: "radix_weight ts d (zero_side xs) = (\<Sum>k<2 ^ length d. ts ! tally (zero_side xs) k)"
    "radix_weight ts d (one_side xs) = (\<Sum>k<2 ^ length d. ts ! tally (one_side xs) k)"
    "\<And>k. k < 2 ^ length d \<Longrightarrow> tally (zero_side xs) k < length ts \<and> tally (one_side xs) k < length ts"
    using Cons.IH sides(3,4) [OF t] Cons.prems(2) by auto
  have "tally xs k < length ts" if "k < 2 * 2 ^ length d" for k
  proof (cases "even k")
    case True
    then obtain a where "k = 2 * a" by (elim evenE)
    then show ?thesis using IH(3) [of a] that sides(1) [OF t, of a] by simp
  next
    case False
    then obtain a where "k = 2 * a + 1" by (elim oddE)
    then show ?thesis using IH(3) [of a] that sides(2) [OF t, of a] by simp
  qed
  then show ?case using IH(1,2) sides(1,2) [OF t] by (simp add: sum_even_odd)
qed

lemma radix_counts:
  assumes "map bval xs = map unat bs" "list_all (\<lambda>b. length b = 8) xs" "length d = 8" "radix_weight ts d xs < 33554432"
  shows "radix_weight ts d xs = (\<Sum>c\<leftarrow>byte_counts bs. ts ! c)" "\<And>c. c \<in> set (byte_counts bs) \<Longrightarrow> c < length ts"
proof -
  have "tally xs k = length (filter (\<lambda>b. unat b = k) bs)" for k
  proof -
    have "tally xs k = length (filter (\<lambda>v. v = k) (map bval xs))" by (simp add: tally_def filter_map o_def)
    also have "\<dots> = length (filter (\<lambda>b. unat b = k) bs)" unfolding assms(1) by (simp add: filter_map o_def)
    finally show ?thesis .
  qed
  then have counts: "byte_counts bs = map (tally xs) [0..<256]" by (simp add: byte_counts_def)
  note r = radix_weight_tally [of d xs ts] assms(2-4)
  show "radix_weight ts d xs = (\<Sum>c\<leftarrow>byte_counts bs. ts ! c)"
    using r by (simp add: counts o_def interv_sum_list_conv_sum_set_nat atLeast0LessThan)
  show "c < length ts" if "c \<in> set (byte_counts bs)" for c using r that by (auto simp: counts)
qed

subsection \<open>Logarithms by powers\<close>

lemma log2_upper: "0 < c \<Longrightarrow> 0 < b \<Longrightarrow> c ^ b \<le> 2 ^ a \<Longrightarrow> log 2 (of_nat c) \<le> of_nat a / of_nat b" for a b c :: nat
proof -
  assume c: "0 < c" "0 < b" "c ^ b \<le> 2 ^ a"
  then have "of_nat (c ^ b) \<le> (of_nat (2 ^ a) :: real)" by (simp only: of_nat_le_iff)
  then have "log 2 (of_nat c ^ b) \<le> log 2 (2 ^ a :: real)" using c(1) by (subst log_le_cancel_iff) simp_all
  then show ?thesis using c by (simp add: log_nat_power pos_le_divide_eq mult.commute)
qed

lemma log2_3: "log 2 3 \<le> (317 / 200 :: real)"
  using log2_upper [of 3 200 317] by simp

lemma log2_5: "log 2 5 \<le> (137 / 59 :: real)"
  using log2_upper [of 5 59 137] by simp

lemma log2_7: "log 2 7 \<le> (379 / 135 :: real)"
  using log2_upper [of 7 135 379] by simp

lemma log2_11: "log 2 11 \<le> (128 / 37 :: real)"
  using log2_upper [of 11 37 128] by simp

lemma log2_13: "log 2 13 \<le> (729 / 197 :: real)"
  using log2_upper [of 13 197 729] by simp

lemma log2_17: "log 2 17 \<le> (327 / 80 :: real)"
  using log2_upper [of 17 80 327] by simp

lemma log2_19: "log 2 19 \<le> (514 / 121 :: real)"
  using log2_upper [of 19 121 514] by simp

lemma log2_23: "log 2 23 \<le> (95 / 21 :: real)"
  using log2_upper [of 23 21 95] by simp

lemma log2_29: "log 2 29 \<le> (515 / 106 :: real)"
  using log2_upper [of 29 106 515] by simp

lemma log2_31: "log 2 31 \<le> (109 / 22 :: real)"
  using log2_upper [of 31 22 109] by simp

lemmas log2_primes = log2_3 log2_5 log2_7 log2_11 log2_13 log2_17 log2_19 log2_23 log2_29 log2_31

text \<open>\<open>1024 * c * log2 c\<close>, rounded up, for counts up to 32.\<close>

definition WEIGHTS :: "nat list" where
  "WEIGHTS = [0, 0, 2048, 4870, 8192, 11889, 15883, 20124, 24576, 29215, 34018, 38968, 44053, 49262, 54583, 60013, 65536, 71156, 76862, 82648, 88516, 94455, 100463, 106545, 112681, 118889, 125147, 131467, 137838, 144278, 150745, 157278, 163840]"

lemma log2_product: "0 < a \<Longrightarrow> 0 < b \<Longrightarrow> log 2 (a * b) = log 2 a + log 2 (b :: real)"
  by (simp add: log_mult)

lemma log2_composites:
  "log 2 4 = (2 :: real)"
  "log 2 6 = (1 + log 2 3 :: real)"
  "log 2 8 = (3 :: real)"
  "log 2 9 = (2 * log 2 3 :: real)"
  "log 2 10 = (1 + log 2 5 :: real)"
  "log 2 12 = (2 + log 2 3 :: real)"
  "log 2 14 = (1 + log 2 7 :: real)"
  "log 2 15 = (log 2 3 + log 2 5 :: real)"
  "log 2 16 = (4 :: real)"
  "log 2 18 = (1 + 2 * log 2 3 :: real)"
  "log 2 20 = (2 + log 2 5 :: real)"
  "log 2 21 = (log 2 3 + log 2 7 :: real)"
  "log 2 22 = (1 + log 2 11 :: real)"
  "log 2 24 = (3 + log 2 3 :: real)"
  "log 2 25 = (2 * log 2 5 :: real)"
  "log 2 26 = (1 + log 2 13 :: real)"
  "log 2 27 = (3 * log 2 3 :: real)"
  "log 2 28 = (2 + log 2 7 :: real)"
  "log 2 30 = (1 + log 2 3 + log 2 5 :: real)"
  "log 2 32 = (5 :: real)"
  using log2_product [of 2 2]
    log2_product [of 2 3]
    log2_product [of 4 2]
    log2_product [of 3 3]
    log2_product [of 2 5]
    log2_product [of 4 3]
    log2_product [of 2 7]
    log2_product [of 3 5]
    log2_product [of 8 2]
    log2_product [of 6 3]
    log2_product [of 4 5]
    log2_product [of 3 7]
    log2_product [of 2 11]
    log2_product [of 8 3]
    log2_product [of 5 5]
    log2_product [of 2 13]
    log2_product [of 9 3]
    log2_product [of 4 7]
    log2_product [of 6 5]
    log2_product [of 16 2] by simp_all

lemma WEIGHTS_upper: "0 < c \<Longrightarrow> c < length WEIGHTS \<Longrightarrow> of_nat c * log 2 (of_nat c) \<le> of_nat (WEIGHTS ! c) / (1024 :: real)"
proof -
  have all: "list_all (\<lambda>(c, w). of_nat c * log 2 (of_nat c) \<le> of_nat w / (1024 :: real)) (zip [1..<33] (tl WEIGHTS))"
    using log2_primes by (simp add: WEIGHTS_def upt_rec log2_composites)
  assume c: "0 < c" "c < length WEIGHTS"
  then have "(c, WEIGHTS ! c) \<in> set (zip [1..<33] (tl WEIGHTS))"
    by (auto simp: in_set_zip nth_tl WEIGHTS_def intro!: exI [of _ "c - 1"])
  then show ?thesis using all unfolding list_all_iff by auto
qed

subsection \<open>Entropy from the histogram\<close>

lemma entropy_by_weights:
  assumes "length bs = 4096" "\<And>c. c \<in> set (byte_counts bs) \<Longrightarrow> c < length WEIGHTS"
  shows "12 - of_nat (\<Sum>c\<leftarrow>byte_counts bs. WEIGHTS ! c) / 4194304 \<le> exact_entropy bs"
proof -
  let ?cs = "positive_counts bs"
  have split: "- (of_nat c / 4096) * log 2 (of_nat c / 4096) = of_nat c / 4096 * 12 - of_nat c * log 2 (of_nat c) / (4096 :: real)"
    if "0 < c" for c :: nat
  proof -
    have l: "log 2 (of_nat c / 4096) = log 2 (of_nat c) - (12 :: real)" using that log_nat_power [of 2 2 12] by (simp add: log_divide)
    show ?thesis unfolding l by (simp add: right_diff_distrib diff_divide_distrib)
  qed
  have "(\<Sum>c\<leftarrow>cs. of_nat (WEIGHTS ! c)) = (of_nat (\<Sum>c\<leftarrow>cs. WEIGHTS ! c) :: real)" for cs by (induction cs) simp_all
  moreover have "(\<Sum>c\<leftarrow>filter (\<lambda>c. 0 < c) cs. WEIGHTS ! c) = (\<Sum>c\<leftarrow>cs. WEIGHTS ! c)" for cs
    by (induction cs) (auto simp: WEIGHTS_def)
  ultimately have weights: "(\<Sum>c\<leftarrow>?cs. of_nat (WEIGHTS ! c)) = (of_nat (\<Sum>c\<leftarrow>byte_counts bs. WEIGHTS ! c) :: real)"
    unfolding positive_counts_def by simp
  have "(\<Sum>c\<leftarrow>?cs. of_nat c / 4096 * 12 - of_nat (WEIGHTS ! c) / 4194304) \<le> exact_entropy bs"
    unfolding exact_entropy_positive assms(1)
  proof (rule sum_list_mono)
    fix c assume "c \<in> set ?cs"
    then have "0 < c" "c < length WEIGHTS" using assms(2) by (auto simp: positive_counts_def)
    from WEIGHTS_upper [OF this] split [OF this(1)]
    show "of_nat c / 4096 * 12 - of_nat (WEIGHTS ! c) / 4194304 \<le> - (of_nat c / of_nat 4096) * log 2 (of_nat c / of_nat 4096)" by simp
  qed
  moreover have "(\<Sum>c\<leftarrow>cs. of_nat c / 4096 * 12 - of_nat (WEIGHTS ! c) / (4194304 :: real))
      = of_nat (sum_list cs) / 4096 * 12 - (\<Sum>c\<leftarrow>cs. of_nat (WEIGHTS ! c)) / 4194304" for cs
    by (induction cs) (simp_all add: add_divide_distrib algebra_simps)
  ultimately show ?thesis by (simp add: weights positive_counts_facts(2) assms(1))
qed

text \<open>
  The evaluation of a generator: multiplier, increment and seed are given as bits, the histogram is computed,
  the entropy follows. The rules \<open>block_eval\<close> run it.
\<close>

primrec twice :: "'a list \<Rightarrow> unit list" where
  \<comment> \<open>the number of rounds: \<open>2 ^ n\<close> for a list of length \<open>n\<close>\<close>
  "twice [] = [()]"
| "twice (u # us) = twice us @ twice us"

lemma length_twice [simp]: "length (twice us) = 2 ^ length us"
  by (induction us) simp_all

definition OCTET :: "unit list" where
  "OCTET = [(), (), (), (), (), (), (), ()]"

definition DOZEN :: "unit list" where
  "DOZEN = [(), (), (), (), (), (), (), (), (), (), (), ()]"

lemmas block_eval = lcgb.simps emitb.simps addb.simps mulb.simps skip.simps zero_side.simps one_side.simps weigh.simps
  radix_weight.simps twice.simps append.simps OCTET_def DOZEN_def WEIGHTS_def

primrec bits_of :: "'a list \<Rightarrow> nat \<Rightarrow> bool list" where
  \<comment> \<open>the low bits of a number, as many as the list is long\<close>
  "bits_of [] v = []"
| "bits_of (u # l) v = odd v # bits_of l (v div 2)"

lemma bits_of_value: "bval (bits_of l v) = v mod 2 ^ length l \<and> length (bits_of l v) = length l"
proof (induction l arbitrary: v)
  case (Cons u l)
  have "v mod (2 * 2 ^ length l) = of_bool (odd v) + 2 * (v div 2 mod 2 ^ length l)"
    using bit_mod [of "odd v" "v div 2" "2 ^ length l"] by (simp add: of_bool_odd_eq_mod_2)
  then show ?case using Cons by simp
qed simp

definition block_weight :: "nat \<Rightarrow> nat \<Rightarrow> 'a list \<Rightarrow> 'b list \<Rightarrow> nat \<Rightarrow> nat" where
  "block_weight m i l k s =
     radix_weight WEIGHTS OCTET (lcgb (twice DOZEN) (bits_of l m) (bits_of l i) l k (bits_of l s))"

lemma lcg_entropy:
  fixes s m i :: "'a::len word"
  assumes "block_weight (unat m) (unat i) l k (unat s) = w" "w < 33554432" "length l = length k + 8" "length l \<le> LENGTH('a)"
  shows "12 - of_nat w / 4194304 \<le> exact_entropy (lcg 4096 m i (length k) s)"
proof -
  let ?xs = "lcgb (twice DOZEN) (bits_of l (unat m)) (bits_of l (unat i)) l k (bits_of l (unat s))"
  have n: "2 ^ length DOZEN = (4096 :: nat)" by (simp add: DOZEN_def)
  have bytes: "map bval ?xs = map unat (lcg 4096 m i (length k) s) \<and> list_all (\<lambda>b. length b = 8) ?xs"
    using lcgb_bytes [OF assms(3,4), of "bits_of l (unat i)" "bits_of l (unat s)" "bits_of l (unat m)" m i s "twice DOZEN"]
    by (simp add: bits_of_value n)
  have w: "radix_weight WEIGHTS OCTET ?xs = w" using assms(1) by (simp add: block_weight_def)
  have o: "length OCTET = 8" by (simp add: OCTET_def)
  have "radix_weight WEIGHTS OCTET ?xs < 33554432" unfolding w by (rule assms(2))
  note counts = radix_counts [OF conjunct1 [OF bytes] conjunct2 [OF bytes] o this]
  have "12 - of_nat (\<Sum>c\<leftarrow>byte_counts (lcg 4096 m i (length k) s). WEIGHTS ! c) / 4194304
      \<le> exact_entropy (lcg 4096 m i (length k) s)" by (rule entropy_by_weights [OF length_lcg counts(2)])
  then show ?thesis unfolding counts(1) [symmetric] w .
qed

end
