(* ===== verification/Kavach_Cipher_Blocks.thy ===== *)
theory Kavach_Cipher_Blocks
  imports Kavach_Synthetic Kavach_Injector
begin

section \<open>Cipher blocks of the program and its tests\<close>

text \<open>
  The pseudo-random blocks of the \<open>tripwire --test\<close> command (\<open>src/main.rs\<close>), of the unit tests of the sensors
  (\<open>kavach-sensors/lib.rs\<close>) and of the sliding window (\<open>sliding_window.rs\<close>), evaluated in the kernel: each has an
  entropy above the threshold of 7.95 bits per byte.
\<close>

definition LOW16 :: "unit list" where
  "LOW16 = OCTET @ OCTET"

definition LOW24 :: "unit list" where
  "LOW24 = OCTET @ LOW16"

definition LOW33 :: "unit list" where
  "LOW33 = () # LOW16 @ LOW16"

definition LOW41 :: "unit list" where
  "LOW41 = OCTET @ LOW33"

lemmas low_lists = LOW16_def LOW24_def LOW33_def LOW41_def OCTET_def append.simps

subsection \<open>The 32-bit generator\<close>

lemma bits_32:
"bits_of LOW24 1664525 = [True, False, True, True, False, False, False, False, False, True, True, False, False, True,
     True, False, True, False, False, True, True, False, False, False]"
"bits_of LOW24 1013904223 = [True, True, True, True, True, False, True, False, True, True, False, False, True, True,
     True, True, False, True, True, True, False, True, True, False]"
"bits_of LOW24 3735928559 = [True, True, True, True, False, True, True, True, False, True, True, True, True, True,
     False, True, True, False, True, True, False, True, False, True]"
"bits_of LOW24 305419913 = [True, False, False, True, False, False, False, True, False, True, True, False, True,
     False, True, False, False, False, True, False, True, True, False, False]"
"bits_of LOW24 305419930 = [False, True, False, True, True, False, False, True, False, True, True, False, True, False,
     True, False, False, False, True, False, True, True, False, False]"
"bits_of LOW24 305419947 = [True, True, False, True, False, True, False, True, False, True, True, False, True, False,
     True, False, False, False, True, False, True, True, False, False]"
  by (simp_all add: low_lists)

lemma weight_cli: "block_weight 1664525 1013904223 LOW24 LOW16 3735928559 = 16977869"
  unfolding block_weight_def bits_32 by (simp only: block_eval LOW16_def LOW24_def LOW33_def LOW41_def)

lemma weight_sensor1: "block_weight 1664525 1013904223 LOW24 LOW16 305419913 = 16956743"
  unfolding block_weight_def bits_32 by (simp only: block_eval LOW16_def LOW24_def LOW33_def LOW41_def)

lemma weight_sensor2: "block_weight 1664525 1013904223 LOW24 LOW16 305419930 = 16970478"
  unfolding block_weight_def bits_32 by (simp only: block_eval LOW16_def LOW24_def LOW33_def LOW41_def)

lemma weight_sensor3: "block_weight 1664525 1013904223 LOW24 LOW16 305419947 = 16964962"
  unfolding block_weight_def bits_32 by (simp only: block_eval LOW16_def LOW24_def LOW33_def LOW41_def)

lemma generate_lcg: "generate_ciphertext_block n s = lcg n 1664525 1013904223 16 s"
  by (induction n arbitrary: s) (simp_all add: Let_def)

lemma entropy_32:
  assumes "block_weight 1664525 1013904223 LOW24 LOW16 (unat s) = w" "w < 33554432"
  shows "12 - of_nat w / 4194304 \<le> exact_entropy (generate_ciphertext_block 4096 s)"
proof -
  have "length LOW16 = 16" "length LOW24 = 24" by (simp_all add: low_lists)
  then show ?thesis
    using lcg_entropy [of "1664525 :: u32" 1013904223 LOW24 LOW16 s w] assms by (simp add: generate_lcg)
qed

lemma cipher_entropy:
  "795 / 100 + 1 / 2 ^ 20 \<le> exact_entropy (generate_ciphertext_block 4096 3735928559)"
  "795 / 100 + 1 / 2 ^ 20 \<le> exact_entropy (generate_ciphertext_block 4096 305419913)"
  "795 / 100 + 1 / 2 ^ 20 \<le> exact_entropy (generate_ciphertext_block 4096 305419930)"
  "795 / 100 + 1 / 2 ^ 20 \<le> exact_entropy (generate_ciphertext_block 4096 305419947)"
  using entropy_32 [of 3735928559, simplified, OF weight_cli]
    entropy_32 [of 305419913, simplified, OF weight_sensor1]
    entropy_32 [of 305419930, simplified, OF weight_sensor2]
    entropy_32 [of 305419947, simplified, OF weight_sensor3] by simp_all

subsection \<open>The 64-bit generator\<close>

lemma bits_64:
"bits_of LOW41 6364136223846793005 = [True, False, True, True, False, True, False, False, True, True, True, True,
     True, True, True, False, True, False, True, False, True, False, False, True, False, False, True, True, False,
     False, True, False, True, False, True, True, False, True, False, False, False]"
"bits_of LOW41 1 = [True, False, False, False, False, False, False, False, False, False, False, False, False, False,
     False, False, False, False, False, False, False, False, False, False, False, False, False, False, False, False,
     False, False, False, False, False, False, False, False, False, False, False]"
"bits_of LOW41 16045690981402826360 = [False, False, False, True, True, True, True, False, False, True, True, False,
     True, False, True, False, False, False, True, False, True, True, False, False, False, True, False, False, True,
     False, False, False, True, True, True, True, False, True, True, True, False]"
  by (simp_all add: low_lists)

lemma weight_64: "block_weight 6364136223846793005 1 LOW41 LOW33 16045690981402826360 = 16986246"
  unfolding block_weight_def bits_64 by (simp only: block_eval LOW16_def LOW24_def LOW33_def LOW41_def)

lemma cipher_entropy_64: "795 / 100 + 1 / 2 ^ 20 \<le> exact_entropy (lcg 4096 (6364136223846793005 :: u64) 1 33 16045690981402826360)"
proof -
  have "length LOW33 = 33" "length LOW41 = 41" by (simp_all add: low_lists)
  then show ?thesis using lcg_entropy [of "6364136223846793005 :: u64" 1 LOW41 LOW33 16045690981402826360 16986246] weight_64 by simp
qed

end
