(* ===== verification/Kavach_Selftest.thy ===== *)
theory Kavach_Selftest
  imports Kavach_Cli Kavach_Cipher_Blocks
begin

section \<open>The self-test of the tripwire\<close>

text \<open>
  What the \<open>tripwire --test\<close> command of \<open>src/main.rs\<close> prints on its built-in payload, a block of text and a
  block of cipher text: the generated blocks are evaluated, the entropies computed with rounding, and the four
  simulated writes run through the engine.
\<close>

subsection \<open>Text blocks\<close>

lemma positive_counts_support: "length (positive_counts bs) \<le> card (set bs)"
proof -
  let ?ks = "filter (\<lambda>k. 0 < length (filter (\<lambda>b. unat b = k) bs)) [0..<256]"
  have "length (positive_counts bs) = length ?ks" by (simp add: positive_counts_def byte_counts_def filter_map o_def)
  also have "\<dots> = card (set ?ks)" by (rule distinct_card [symmetric]) (rule distinct_filter, rule distinct_upt)
  also have "\<dots> \<le> card (unat ` set bs)" by (rule card_mono) (auto simp: filter_empty_conv)
  also have "\<dots> \<le> card (set bs)" by (rule card_image_le) simp
  finally show ?thesis .
qed

lemma few_bytes_entropy:
  assumes "set bs \<subseteq> set (as_bytes msg)" "length (remdups msg) \<le> 2 ^ k"
  shows "exact_entropy bs \<le> of_nat k"
proof (rule entropy_support)
  have "card (set bs) \<le> card (set (as_bytes msg))" using assms(1) by (intro card_mono) simp_all
  also have "\<dots> \<le> card (set msg)" unfolding as_bytes_def set_map by (rule card_image_le) simp
  finally show "length (positive_counts bs) \<le> 2 ^ k"
    using positive_counts_support [of bs] assms(2) by (simp add: length_remdups_card_conv)
qed

lemma set_fill_with: "set (fill_with pat n buf) \<subseteq> set pat \<union> set buf"
proof (induction pat n buf rule: fill_with.induct)
  case (1 pat n buf)
  then show ?case by (subst fill_with.simps) auto
qed

lemma filled_entropy:
  "length (remdups msg) \<le> 32 \<Longrightarrow> exact_entropy (take n (fill_with (as_bytes msg) n [])) \<le> 5"
  using few_bytes_entropy [of "take n (fill_with (as_bytes msg) n [])" msg 5] set_fill_with [of "as_bytes msg" n "[]"]
    set_take_subset [of n "fill_with (as_bytes msg) n []"] by force

lemma text_blocks_entropy:
  "exact_entropy (take 4096 (fill_with SYNTHETIC_TEXT 4096 [])) \<le> 5" "exact_entropy (generate_plaintext_block 4096) \<le> 5"
  unfolding SYNTHETIC_TEXT_def PLAINTEXT_def generate_plaintext_block_def by (rule filled_entropy, code_simp)+

subsection \<open>The built-in payload\<close>

lemma payload_blocks:
  assumes "log2_close log2"
  obtains p e where "block_entropy_scan log2 synthetic_payload DEFAULT_BLOCK_SIZE = [p, e]" "plain_block p" "encrypted_block e"
    "entropy_range p" "entropy_range e"
proof -
  let ?p = "take 4096 (fill_with SYNTHETIC_TEXT 4096 [])" and ?e = "generate_ciphertext_block 4096 0xDEADBEEF"
  have len: "length ?p = 4096" using length_fill [of SYNTHETIC_TEXT 4096 "[]"] by (simp add: SYNTHETIC_TEXT_def as_bytes_def)
  have "chunks 4096 synthetic_payload = [?p, ?e]"
    using chunks_concat [of 4096 "[?p, ?e]"] len by (simp add: synthetic_payload_def)
  moreover have "synthetic_payload \<noteq> []" using len by (auto simp: synthetic_payload_def)
  ultimately have "block_entropy_scan log2 synthetic_payload DEFAULT_BLOCK_SIZE = [shannon_entropy log2 ?p, shannon_entropy log2 ?e]"
    by (simp add: block_entropy_scan_def kavach_const)
  moreover have "plain_block (shannon_entropy log2 ?p)"
    by (rule plain_by_entropy [OF assms]) (use len text_blocks_entropy(1) in simp_all)
  moreover have "encrypted_block (shannon_entropy log2 ?e)"
    by (rule encrypted_by_entropy [OF assms]) (use cipher_entropy(1) in simp_all)
  moreover have "entropy_range (shannon_entropy log2 ?p)" "entropy_range (shannon_entropy log2 ?e)"
    using len by (simp_all add: shannon_range [OF assms])
  ultimately show thesis by (rule that)
qed

lemma alternating_blocks:
  assumes "P e" "\<not> P p"
  shows "switches P (concat (replicate (Suc n) [p, e])) = 2 * n + 1" "length (filter P (concat (replicate n [p, e]))) = n"
    "length (concat (replicate n [p, e])) = 2 * n"
  using assms by (induction n) simp_all

lemma mixed_pair_anomalous:
  assumes "plain_block p" "encrypted_block e" "entropy_range p" "entropy_range e" "2 \<le> n" "n \<le> 4"
  shows "is_anomalous (differential_entropy (concat (replicate n [p, e])))"
proof (rule intermittent_anomalous)
  have "\<not> encrypted_block p" using assms(1,3) by (simp add: plain_not_encrypted entropy_range_def)
  note alt = alternating_blocks [of encrypted_block e p, OF assms(2) this]
  obtain m where m: "n = Suc m" using assms(5) by (cases n) simp_all
  show "entropy_range a \<and> (plain_block a \<or> encrypted_block a)" if "a \<in> set (concat (replicate n [p, e]))" for a
    using that assms(1-4) by (auto split: if_splits)
  have "4 * 2 \<le> (2 ^ 28 :: nat)" by simp
  then show "length (concat (replicate n [p, e])) \<le> 2 ^ 28" unfolding alt(3) using assms(6) by linarith
  show "2 \<le> high_blocks (concat (replicate n [p, e]))"
    using alt(2) [of n] assms(5) by (simp add: high_blocks_def encrypted_block_def [abs_def])
  show "3 * (length (concat (replicate n [p, e])) - 1) \<le> 5 * switches encrypted_block (concat (replicate n [p, e]))"
    unfolding m alt(1) alt(3) by simp
qed

lemma test_action:
  assumes "0 < n" "block_entropy_scan log2 data DEFAULT_BLOCK_SIZE = bl"
  shows "map_option recommended_action (evaluate_pid sha256 (tracker (tracker_of (test_events log2 data n))) 4096 now)
    = Some (if is_anomalous (differential_entropy (concat (replicate n bl))) \<and> 3 \<le> n then SuspendAndAlert else Alert)"
proof -
  have es: "filter (\<lambda>e. file_pid e = 4096) (test_events log2 data n) = test_events log2 data n"
    "map block_entropies (test_events log2 data n) = replicate n bl"
    by (auto simp: test_events_def test_event_def make_write_event_def filter_id_conv assms(2) map_replicate_const o_def simp del: upt_Suc)
  obtain ev where ev: "evaluate_pid sha256 (tracker (tracker_of (test_events log2 data n))) 4096 now = Some ev" "length (distinct_files ev) = n"
    using test_distinct_files [OF assms(1), of sha256 log2 data now] by auto
  show ?thesis using evaluate_pid_Some(2,4) [OF ev(1)] ev es by (simp add: tracker_of_def tracker_new_def kavach_const)
qed

subsection \<open>Properties\<close>

text \<open>C37: the self-test of the tripwire command detects its payload, rounding and all: it reads two blocks of the 8192
  bytes, raises the high-entropy alert, and of the four simulated writes the first two, below the file
  threshold, are alerts while the third and the fourth make the engine recommend to suspend the process.\<close>

theorem tripwire_self_test:
  assumes "log2_close (cli_log2 os)"
  shows "\<exists>r. run_tripwire_test os sha256 None = Ok r \<and> report_size r = 8192 \<and> length (report_blocks r) = 2 \<and> report_alert r
    \<and> map (map_option recommended_action) (report_writes r) = [Some Alert, Some Alert, Some SuspendAndAlert, Some SuspendAndAlert]"
proof -
  obtain p e where b: "block_entropy_scan (cli_log2 os) synthetic_payload DEFAULT_BLOCK_SIZE = [p, e]" "plain_block p" "encrypted_block e"
    "entropy_range p" "entropy_range e" using payload_blocks [OF assms] .
  have size: "length synthetic_payload = 8192"
    using length_fill [of SYNTHETIC_TEXT 4096 "[]"] by (simp add: synthetic_payload_def SYNTHETIC_TEXT_def as_bytes_def)
  have "encrypted_block (foldl (\<lambda>m e. if flt m e then e else m) (Fin 0) [p, e])"
    by (rule running_max [OF b(3)]) (use b(4,5) in \<open>auto simp: entropy_range_def is_finite_def [of "Fin 0"]\<close>)
  then have alert: "fle ENTROPY_RANSOMWARE_THRESHOLD (max_entropy (differential_entropy [p, e]))"
    by (simp add: encrypted_block_def differential_entropy_def Let_def)
  have "test_writes (cli_log2 os) sha256 synthetic_payload [1 ..< 5] entropy_engine_new
      = map (\<lambda>n. evaluate_pid sha256 (tracker (tracker_of (test_events (cli_log2 os) synthetic_payload n))) 4096 (1000 + word_of_nat n * 10)) [1 ..< 5]"
    using test_writes_eq [of 0 4 "cli_log2 os" sha256 synthetic_payload]
    by (simp add: tracker_of_def entropy_engine_new_def tracker_new_def numeral_eq_Suc del: upt_Suc)
  then have "map (map_option recommended_action) (test_writes (cli_log2 os) sha256 synthetic_payload [1 ..< 5] entropy_engine_new)
      = map (\<lambda>n. Some (if is_anomalous (differential_entropy (concat (replicate n [p, e]))) \<and> 3 \<le> n then SuspendAndAlert else Alert)) [1 ..< 5]"
    by (simp add: test_action [OF _ b(1)] del: upt_Suc)
  also have "\<dots> = [Some Alert, Some Alert, Some SuspendAndAlert, Some SuspendAndAlert]"
    using mixed_pair_anomalous [OF b(2-5), of 3] mixed_pair_anomalous [OF b(2-5), of 4] by (simp add: upt_rec eval_nat_numeral)
  finally show ?thesis using b(1) alert size by (simp add: run_tripwire_test_def tripwire_input_def Let_def del: upt_Suc)
qed

definition sample_cli :: cli_os where
  "sample_cli = \<lparr>path_exists = \<lambda>_. False, cli_read = \<lambda>_. Err [], cli_log2 = exact_log2, current_exe = Err [],
     sc_exe = \<lambda>_ _. Err [], start_dispatcher = Err [], epoch_ms = 0\<rparr>"

theorem tripwire_self_test_witness:
  "\<exists>r. run_tripwire_test sample_cli (\<lambda>b. b) None = Ok r \<and> report_size r = 8192 \<and> length (report_blocks r) = 2 \<and> report_alert r
    \<and> map (map_option recommended_action) (report_writes r) = [Some Alert, Some Alert, Some SuspendAndAlert, Some SuspendAndAlert]"
  by (rule tripwire_self_test) (simp add: sample_cli_def exact_log2_close)

end
