(* ===== verification/Kavach_Attribution.thy ===== *)
theory Kavach_Attribution
  imports Kavach_Wsl_Guest
begin

section \<open>From a guest write to its attribution\<close>

text \<open>
  The whole path of a guest write through \<open>kavach-wsl-guest\<close> and \<open>kavach-wsl\<close>: the agent records it, frames it,
  the host decodes the frame and correlates the record with the file events it has seen.
\<close>

subsection \<open>Completeness of the match\<close>

lemma filter_narrow:
  assumes "filter P xs = [x]" "Q x" "\<And>y. y \<in> set xs \<Longrightarrow> Q y \<Longrightarrow> P y"
  shows "filter Q xs = [x]"
proof -
  have "filter Q xs = filter Q (filter P xs)"
    unfolding filter_filter using assms(3) by (intro filter_cong) auto
  then show ?thesis using assms(1,2) by simp
qed

lemma clock_error:
  assumes "\<forall>x \<in> set (exchange_inputs es). accepted x \<longrightarrow> honest theta x" "abs theta < 2 ^ 62"
    and "get_valid_estimate (clock_sync (corr_run d w es)) now = Some est"
    and "50000001 \<le> uint (guest_monotonic_ns r) + theta" "uint (guest_monotonic_ns r) + theta + 50000001 < 2 ^ 64"
  shows "abs (uint (adjusted_host_ts est r) - (uint (guest_monotonic_ns r) + theta)) \<le> 50000001"
proof -
  note bound = valid_estimate_bound [OF assms(3)]
  have "abs (offset_ns est - theta) \<le> uint (uncertainty_ns est) + 1"
    using assms(1,2) bound(1) corr_run_state [of d w es] by (intro run_estimate_sound) auto
  moreover have "uint (uncertainty_ns est) \<le> 50000000" using bound(2) by (simp add: word_le_def)
  ultimately show ?thesis using assms(4,5) by (intro adjusted_error) auto
qed

definition near_event :: "string \<Rightarrow> int \<Rightarrow> int \<Rightarrow> HostFileEvent \<Rightarrow> bool" where
  \<comment> \<open>a host event on the path, up to ASCII case, within \<open>d\<close> nanoseconds of the host time \<open>t\<close>\<close>
  "near_event p t d e \<longleftrightarrow> eq_ignore_ascii_case (canonical_windows_path e) p \<and> \<bar>uint (host_timestamp_ns e) - t\<bar> \<le> d"

lemma match_near_event:
  assumes "correlation_window_ms c \<le> 250"
  shows "matching_events c p ts = filter (near_event p (uint ts) (uint (correlation_window_ms c) * 1000000)) (host_events c)"
proof -
  have u: "uint (correlation_window_ms c * 1000000) = uint (correlation_window_ms c) * 1000000"
    using window_ns [OF assms] unfolding uint_nat by simp
  show ?thesis unfolding matching_events_def near_event_def word_le_def uint_abs_diff u ..
qed

lemma unique_event_matches:
  fixes d w es r theta
  defines "t \<equiv> uint (guest_monotonic_ns r) + theta" and "W \<equiv> uint (min w 250) * 1000000" and "p \<equiv> windows_path_of r"
  assumes "\<forall>x \<in> set (exchange_inputs es). accepted x \<longrightarrow> honest theta x" "abs theta < 2 ^ 62"
    and est: "get_valid_estimate (clock_sync (corr_run d w es)) now = Some est"
    and range: "50000001 \<le> t" "t + 50000001 < 2 ^ 64"
    and unique: "filter (near_event p t (W + 50000001)) (last_n 1000 (host_inputs es)) = [he]" "near_event p t (W - 50000001) he"
  shows "fst (classify (corr_run d w es) r p now) = High"
proof -
  have adj: "\<bar>uint (adjusted_host_ts est r) - t\<bar> \<le> 50000001"
    using clock_error [OF assms(4,5) est] range by (simp add: t_def)
  note st = corr_run_state [of d w es]
  have "filter (near_event p (uint (adjusted_host_ts est r)) W) (last_n 1000 (host_inputs es)) = [he]"
    using adj unique(2) by (intro filter_narrow [OF unique(1)]) (auto simp: near_event_def)
  then have "matching_events (corr_run d w es) p (adjusted_host_ts est r) = [he]"
    using match_near_event [of "corr_run d w es" p "adjusted_host_ts est r"] st by (simp add: W_def)
  then show ?thesis using est unfolding classify_High by blast
qed

subsection \<open>Properties\<close>

text \<open>C22: a guest write is attributed to its process, end to end: the agent accepts the request for a normalized
  path of at most 4096 bytes of UTF-8, its frame is decoded by the host to the same record, and when the
  clock estimate is fresh, the exchanges were honest and exactly one of the last thousand host events on the
  translated path lies within the window plus 50 ms of the true time of the write, and within the window less
  50 ms, the record is attributed with high confidence to the guest process that wrote and enforcement is
  allowed, after any interleaving of exchanges, events and records.\<close>

theorem guest_write_attributed:
  fixes sha256 s q d w es theta he now
  defines "t \<equiv> uint (req_monotonic_ns q) + theta" and "W \<equiv> uint (min w 250) * 1000000"
    and "p \<equiv> (case translate_mnt_to_windows_path (req_normalized_path q) of Some p \<Rightarrow> p | None \<Rightarrow> req_normalized_path q)"
  assumes "\<And>b. length (sha256 b) = 32" "length (source_distribution_id s) = 16" "sequence_counter s \<noteq> 0"
    and "is_normalized_mnt_path (req_normalized_path q)" "valid_utf8 (as_bytes (req_normalized_path q))"
      "length (req_normalized_path q) \<le> 4096"
    and "\<forall>x \<in> set (exchange_inputs es). accepted x \<longrightarrow> honest theta x" "abs theta < 2 ^ 62"
    and "get_valid_estimate (clock_sync (corr_run d w es)) now \<noteq> None" "50000001 \<le> t" "t + 50000001 < 2 ^ 64"
    and "filter (near_event p t (W + 50000001)) (last_n 1000 (host_inputs es)) = [he]" "near_event p t (W - 50000001) he"
  shows "\<exists>r frame. fst (record_operation sha256 s q) = Ok r \<and> prepare_wire_frame r = Ok frame \<and> from_frame frame = Ok r
    \<and> (let res = fst (correlate_guest_record (corr_run d w es) r now)
       in attributed_process_id res = req_pid q \<and> attributed_distribution_id res = source_distribution_id s
          \<and> attributed_windows_path res = p \<and> confidence res = High \<and> allow_pid_enforcement res)"
proof -
  obtain r where r: "record_operation sha256 s q = (Ok r, s\<lparr>sequence_counter := sequence_counter s + 1\<rparr>)"
    "sequence_number r = sequence_counter s" "major (version r) = 1" "record_flags r = 0"
    "normalized_path r = req_normalized_path q" "distribution_id r = source_distribution_id s"
    "executable_sha256 r = sha256 (as_bytes (req_executable_path q))" "\<exists>t. cgroup_sha256 r = sha256 (as_bytes t)"
    using record_accepted [OF assms(7)] .
  have fields: "guest_monotonic_ns r = req_monotonic_ns q" "guest_process_id r = req_pid q"
    using r(1) assms(7) by (auto simp: record_operation_def Let_def)
  have "wf_record r \<and> valid_record r"
    using r assms(4-9) by (auto simp: wf_record_def valid_record_def kavach_const)
  then obtain b where b: "prepare_wire_frame r = Ok b" "from_frame b = Ok r"
    using frame_codec.dec_enc [of r] by (auto simp: prepare_Ok)
  have path: "windows_path_of r = p" unfolding windows_path_of_def r(5) p_def ..
  obtain est where "get_valid_estimate (clock_sync (corr_run d w es)) now = Some est" using assms(12) by blast
  then have "fst (classify (corr_run d w es) r (windows_path_of r) now) = High"
    using assms(10,11,13-16) unfolding path [symmetric] t_def W_def fields(1) [symmetric] by (intro unique_event_matches)
  then show ?thesis
    using r(1,6) b fields(2) by (simp add: correlate_fields) (simp add: correlate_guest_record_def path case_prod_beta Let_def)
qed

definition sample_guest_write :: guest_request where
  "sample_guest_write = \<lparr>req_pid = 77, req_executable_path = ''/bin/sh'', req_normalized_path = ''/mnt/c/x'', req_operation = Write,
     req_range_start = 0, req_range_length = 4096, req_monotonic_ns = 100000000, req_realtime_ns = 6\<rparr>"

theorem guest_write_attributed_witness:
  "\<exists>r frame. fst (record_operation (\<lambda>b. replicate 32 0) (audit_source_new (replicate 16 0x42)) sample_guest_write) = Ok r
    \<and> prepare_wire_frame r = Ok frame \<and> from_frame frame = Ok r
    \<and> (let res = fst (correlate_guest_record (corr_run [] 100 sample_correlator_events) r 20000000)
       in attributed_process_id res = 77 \<and> attributed_distribution_id res = replicate 16 0x42
          \<and> attributed_windows_path res = ''C:'' @ [backslash] @ ''x'' \<and> confidence res = High \<and> allow_pid_enforcement res)"
proof -
  let ?he = "\<lparr>host_timestamp_ns = 106000000, canonical_windows_path = ''C:'' @ [backslash] @ ''X'', is_vmmem_process = True, bytes_written = 4096\<rparr>"
  have path: "translate_mnt_to_windows_path ''/mnt/c/x'' = Some (''C:'' @ [backslash] @ ''x'')"
    using translate_drive [of "CHR ''c''" "''x''"] by (simp add: to_ascii_uppercase_char_def char_of_eval)
  have norm: "is_normalized_mnt_path ''/mnt/c/x''" using normalized_join(1) [of "[''c'', ''x'']"] by (simp add: plain_segment_def)
  have same: "eq_ignore_ascii_case (''C:'' @ [backslash] @ ''X'') (''C:'' @ [backslash] @ ''x'')"
    by (simp add: eq_ignore_ascii_case_def to_ascii_lowercase_def to_ascii_lowercase_char_def char_of_eval)
  have clock: "get_valid_estimate (clock_sync (corr_run [] 100 sample_correlator_events)) 20000000 \<noteq> None"
    by (simp add: corr_run_state exchange_inputs_def sample_correlator_events_def sample_exchange_def get_valid_estimate_def clock_eval)
  have utf: "valid_utf8 (as_bytes ''/mnt/c/x'')" by (simp add: as_bytes_def byte_of_def)
  have w: "uint (min 100 250 :: u64) = 100" by simp
  have events: "last_n 1000 (host_inputs sample_correlator_events) = [?he]"
    by (simp add: host_inputs_def sample_correlator_events_def last_n_def)
  show ?thesis
    using guest_write_attributed [of "\<lambda>b. replicate 32 0" "audit_source_new (replicate 16 0x42)" sample_guest_write sample_correlator_events 5000000 "[]" 100 20000000 ?he]
      norm same clock path utf unfolding events w
    by (simp add: sample_guest_write_def audit_source_new_def near_event_def exchange_inputs_def sample_correlator_events_def
        honest_def sample_exchange_def)
qed

end
