(* ===== verification/Kavach_Regression.thy ===== *)
theory Kavach_Regression
  imports Kavach_Pipe Kavach_Sensors Kavach_Rhythm
begin

section \<open>The unit tests of the host side\<close>

text \<open>
  The unit tests the sources carry for the broker (\<open>broker.rs\<close>), the rule registry (\<open>rule.rs\<close>), the verdict
  wire format (\<open>wire.rs\<close> of the core), the event correlator (\<open>events.rs\<close>) and the sensors (\<open>crates/kavach-sensors/src/lib.rs\<close>), each as a definition
  that computes whether its assertions hold of the model, and the lemma that they do. Where a test reads the
  wall clock the definition takes the time, and the lemma holds for every time at which the test's sums do
  not overflow. They tie the model to the behaviour the authors wrote down, next to the theorems of the
  components, which hold for all inputs.
\<close>

subsection \<open>The broker\<close>

definition sample_valid_verdict :: "EnforcementAction \<Rightarrow> u32 \<Rightarrow> Verdict" where
  "sample_valid_verdict action pid = \<lparr>protocol_version = \<lparr>major = 1, minor = 0\<rparr>, request_id = replicate 16 0x12,
     issued_at_unix_ms = 1000, expires_at_unix_ms = 5000, detector_instance_id = replicate 16 0x34,
     requested_action = action, evidence_digest = replicate 32 0x56, model_bundle_sha256 = replicate 32 0x78,
     policy_generation = 7, target_process_id = pid, target_process_start_filetime = 12345,
     corroborating_evidence_count = 3, flags = 0\<rparr>"

abbreviation broker_7 :: "bool \<Rightarrow> bool \<Rightarrow> EnforcementBroker" where
  "broker_7 hard_kill degraded \<equiv> broker_new 7 hard_kill 3 (replicate 32 0x78) degraded"

definition test_broker_accepts_suspend_and_alert :: bool where
  "test_broker_accepts_suspend_and_alert \<longleftrightarrow>
    (let (action, b) = evaluate_and_enforce (broker_7 False False) (sample_valid_verdict SuspendAndAlert 100) 2000
     in action = Ok (ProcessSuspended 100 (replicate 32 0x56)) \<and> replay_cache_size b = 1)"

definition test_broker_rejects_replay :: bool where
  "test_broker_rejects_replay \<longleftrightarrow>
    (let v = sample_valid_verdict Alert 0;
         (action, b) = evaluate_and_enforce (broker_7 False False) v 2000
     in is_ok action \<and> fst (evaluate_and_enforce b v 2500) = Err ReplayDetected)"

definition test_broker_rejects_expired :: bool where
  "test_broker_rejects_expired \<longleftrightarrow>
     fst (evaluate_and_enforce (broker_7 False False) (sample_valid_verdict Alert 0) 6000) = Err Expired"

definition test_broker_rejects_hard_kill_when_disabled :: bool where
  "test_broker_rejects_hard_kill_when_disabled \<longleftrightarrow>
     fst (evaluate_and_enforce (broker_7 False False) (sample_valid_verdict HardKill 100) 2000) = Err ActionDenied"

definition test_broker_accepts_hard_kill_when_opted_in :: bool where
  "test_broker_accepts_hard_kill_when_opted_in \<longleftrightarrow>
     fst (evaluate_and_enforce (broker_7 True False) (sample_valid_verdict HardKill 100) 2000)
       = Ok (ProcessTerminated 100 (replicate 32 0x56))"

definition test_broker_rejects_when_model_is_degraded :: bool where
  "test_broker_rejects_when_model_is_degraded \<longleftrightarrow>
     fst (evaluate_and_enforce (broker_7 True True) (sample_valid_verdict SuspendAndAlert 100) 2000) = Err ActionDenied"

definition test_broker_rejects_wrong_policy_generation :: bool where
  "test_broker_rejects_wrong_policy_generation \<longleftrightarrow> fst (evaluate_and_enforce (broker_7 False False)
     ((sample_valid_verdict Alert 0)\<lparr>policy_generation := 6\<rparr>) 2000) = Err ActionDenied"

definition test_broker_rejects_wrong_model_sha256 :: bool where
  "test_broker_rejects_wrong_model_sha256 \<longleftrightarrow> fst (evaluate_and_enforce (broker_7 False False)
     ((sample_valid_verdict Alert 0)\<lparr>model_bundle_sha256 := replicate 32 0x99\<rparr>) 2000) = Err ActionDenied"

definition test_broker_rejects_hard_kill_insufficient_evidence :: bool where
  "test_broker_rejects_hard_kill_insufficient_evidence \<longleftrightarrow> fst (evaluate_and_enforce (broker_7 True False)
     ((sample_valid_verdict HardKill 100)\<lparr>corroborating_evidence_count := 1\<rparr>) 2000) = Err ActionDenied"

definition test_broker_replay_cache_expires_after_retention :: bool where
  "test_broker_replay_cache_expires_after_retention \<longleftrightarrow>
    (let v = sample_valid_verdict Alert 0;
         (action, b) = evaluate_and_enforce (broker_7 False False) v 2000;
         purged = purge_expired_replay_cache b 65001
     in is_ok action \<and> replay_cache_size b = 1 \<and> replay_cache_size purged = 0
        \<and> is_ok (fst (evaluate_and_enforce purged
            (v\<lparr>issued_at_unix_ms := 70000, expires_at_unix_ms := 75000\<rparr>) 71000)))"

definition test_broker_rejects_version_mismatch :: bool where
  "test_broker_rejects_version_mismatch \<longleftrightarrow> fst (evaluate_and_enforce (broker_7 False False)
     ((sample_valid_verdict Alert 0)\<lparr>protocol_version := \<lparr>major = 2, minor = 0\<rparr>\<rparr>) 2000) = Err VersionMismatch"

lemmas broker_tests = test_broker_accepts_suspend_and_alert_def test_broker_rejects_replay_def
  test_broker_rejects_expired_def test_broker_rejects_hard_kill_when_disabled_def
  test_broker_accepts_hard_kill_when_opted_in_def test_broker_rejects_when_model_is_degraded_def
  test_broker_rejects_wrong_policy_generation_def test_broker_rejects_wrong_model_sha256_def
  test_broker_rejects_hard_kill_insufficient_evidence_def test_broker_replay_cache_expires_after_retention_def
  test_broker_rejects_version_mismatch_def

lemma broker_tests_pass:
  "test_broker_accepts_suspend_and_alert" "test_broker_rejects_replay" "test_broker_rejects_expired"
  "test_broker_rejects_hard_kill_when_disabled" "test_broker_accepts_hard_kill_when_opted_in"
  "test_broker_rejects_when_model_is_degraded" "test_broker_rejects_wrong_policy_generation"
  "test_broker_rejects_wrong_model_sha256" "test_broker_rejects_hard_kill_insufficient_evidence"
  "test_broker_replay_cache_expires_after_retention" "test_broker_rejects_version_mismatch"
  by (simp_all add: broker_tests broker_defs broker_new_def sample_valid_verdict_def action_gate_def enforced_action_def
      retain_nonces_def replay_cache_size_def)

subsection \<open>The rule registry\<close>

definition ipv4_target :: "32 word \<Rightarrow> u16 \<Rightarrow> QuarantineTarget" where
  "ipv4_target ip port = DestinationIpPort (V4 ip) (Some port) 6"

definition test_add_and_remove_quarantine_rule :: bool where
  "test_add_and_remove_quarantine_rule \<longleftrightarrow>
    (let t = ipv4_target 0xC6336401 4444;
         (id, reg) = add_quarantine_rule registry_new t 1000;
         (removed, reg') = remove_rule reg id
     in is_quarantined reg t \<and> active_rule_count reg = 1 \<and> removed \<and> \<not> is_quarantined reg' t \<and> active_rule_count reg' = 0)"

definition test_shutdown_cleanup :: bool where
  "test_shutdown_cleanup \<longleftrightarrow>
    (let t = WslVirtualSwitch ''vEthernet (WSL)'';
         (_, reg) = add_quarantine_rule registry_new t 1000;
         cleared = clear_all_on_shutdown reg
     in is_quarantined reg t \<and> \<not> is_quarantined cleared t \<and> active_rule_count cleared = 0)"

definition test_remove_nonexistent_rule_returns_false :: bool where
  "test_remove_nonexistent_rule_returns_false \<longleftrightarrow> \<not> fst (remove_rule registry_new 999)"

definition test_duplicate_target_both_quarantined :: bool where
  "test_duplicate_target_both_quarantined \<longleftrightarrow>
    (let t = WslVirtualSwitch ''vEthernet (WSL)'';
         (id1, r1) = add_quarantine_rule registry_new t 1000;
         (id2, r2) = add_quarantine_rule r1 t 2000;
         (removed1, r3) = remove_rule r2 id1;
         (removed2, r4) = remove_rule r3 id2
     in active_rule_count r2 = 2 \<and> is_quarantined r2 t
        \<and> removed1 \<and> active_rule_count r3 = 1 \<and> is_quarantined r3 t
        \<and> removed2 \<and> active_rule_count r4 = 0 \<and> \<not> is_quarantined r4 t)"

definition test_ipv6_quarantine_rule :: bool where
  "test_ipv6_quarantine_rule \<longleftrightarrow>
    (let t = DestinationIpPort (V6 0x20010DB8000000000000000000000001) (Some 8443) 6;
         (id, reg) = add_quarantine_rule registry_new t 1000;
         (removed, reg') = remove_rule reg id
     in is_quarantined reg t \<and> active_rule_count reg = 1 \<and> removed \<and> \<not> is_quarantined reg' t
        \<and> active_rule_count reg' = 0)"

lemma registry_tests_pass:
  "test_add_and_remove_quarantine_rule" "test_shutdown_cleanup" "test_remove_nonexistent_rule_returns_false"
  "test_duplicate_target_both_quarantined" "test_ipv6_quarantine_rule"
  by (simp_all add: test_add_and_remove_quarantine_rule_def test_shutdown_cleanup_def
      test_remove_nonexistent_rule_returns_false_def test_duplicate_target_both_quarantined_def test_ipv6_quarantine_rule_def
      registry_new_def add_quarantine_rule_def remove_rule_def active_rule_count_def is_quarantined_def
      clear_all_on_shutdown_def Let_def)

subsection \<open>The verdict wire format\<close>

definition wire_verdict :: "EnforcementAction \<Rightarrow> u32 \<Rightarrow> Verdict" where
  "wire_verdict action pid = \<lparr>protocol_version = \<lparr>major = 1, minor = 0\<rparr>, request_id = replicate 16 0x42,
     issued_at_unix_ms = 1700000000000, expires_at_unix_ms = 1700000005000, detector_instance_id = replicate 16 0xAA,
     requested_action = action, evidence_digest = replicate 32 0xBB, model_bundle_sha256 = replicate 32 0xCC,
     policy_generation = 7, target_process_id = pid, target_process_start_filetime = 133000000000000000,
     corroborating_evidence_count = 3, flags = 0\<rparr>"

definition test_verdict_wire_roundtrip :: bool where
  "test_verdict_wire_roundtrip \<longleftrightarrow>
    (let v = wire_verdict SuspendAndAlert 1337; wire = to_wire v
     in length wire = VERDICT_WIRE_SIZE \<and> from_wire wire = Ok v \<and> from_slice wire = Ok v)"

definition test_alert_with_zero_pid_allowed :: bool where
  "test_alert_with_zero_pid_allowed \<longleftrightarrow>
     (case from_wire (to_wire (wire_verdict Alert 0)) of Ok v \<Rightarrow> target_process_id v = 0 | Err _ \<Rightarrow> False)"

definition test_suspend_with_zero_pid_rejected :: bool where
  "test_suspend_with_zero_pid_rejected \<longleftrightarrow>
     from_wire (to_wire (wire_verdict SuspendAndAlert 0)) = Err (ZeroTargetProcessId SuspendAndAlert)"

definition test_hard_kill_with_zero_pid_rejected :: bool where
  "test_hard_kill_with_zero_pid_rejected \<longleftrightarrow>
     from_wire (to_wire (wire_verdict HardKill 0)) = Err (ZeroTargetProcessId HardKill)"

definition test_unsupported_major_version_rejected :: bool where
  "test_unsupported_major_version_rejected \<longleftrightarrow>
    (let wire = copy_at 0 (u16_to_be_bytes 2) (to_wire (wire_verdict Alert 100))
     in from_wire wire = Err (UnsupportedMajorVersion 2)
        \<and> dispatch_error_of_wire (UnsupportedMajorVersion 2) = VersionMismatch)"

definition test_invalid_action_rejected :: bool where
  "test_invalid_action_rejected \<longleftrightarrow>
    (let wire = (to_wire (wire_verdict Alert 100))[52 := 3]
     in from_wire wire = Err (InvalidAction 3) \<and> dispatch_error_of_wire (InvalidAction 3) = MalformedMessage)"

definition test_nonzero_flags_rejected :: bool where
  "test_nonzero_flags_rejected \<longleftrightarrow>
     from_wire ((to_wire (wire_verdict Alert 100))[138 := 1]) = Err (NonzeroFlags 1)"

definition test_timestamp_order_violation_rejected :: bool where
  "test_timestamp_order_violation_rejected \<longleftrightarrow>
     from_wire (to_wire ((wire_verdict Alert 100)\<lparr>issued_at_unix_ms := 1000000, expires_at_unix_ms := 999999\<rparr>))
       = Err (TimestampOrderViolation 1000000 999999)"

definition test_excessive_expiry_window_rejected :: bool where
  "test_excessive_expiry_window_rejected \<longleftrightarrow>
     from_wire (to_wire ((wire_verdict Alert 100)\<lparr>issued_at_unix_ms := 1000000, expires_at_unix_ms := 1030001\<rparr>))
       = Err (ExcessiveExpiryWindow 30001)"

definition test_invalid_length_slice_rejected :: bool where
  "test_invalid_length_slice_rejected \<longleftrightarrow> from_slice (replicate 100 0) = Err (InvalidLength 139 100)"

lemma subslice_update: "k < i \<or> j \<le> k \<Longrightarrow> subslice i j (xs[k := x]) = subslice i j xs"
  by (cases "k < i") (auto simp: subslice_def take_drop not_less)

lemma wire_wf: "wf_verdict (wire_verdict a pid)"
  by (simp add: wf_verdict_def wire_verdict_def)

lemma wire_length: "length (verdict_layout (wire_verdict a pid)) = 139"
  by (simp add: verdict_layout_def wire_verdict_def)

lemmas wire_layout = to_wire_layout from_wire_def verdict_layout_slices subslice_update wire_length Let_def kavach_const

lemma wire_tests_pass:
  "test_verdict_wire_roundtrip" "test_alert_with_zero_pid_allowed" "test_suspend_with_zero_pid_rejected"
  "test_hard_kill_with_zero_pid_rejected" "test_unsupported_major_version_rejected" "test_invalid_action_rejected"
  "test_nonzero_flags_rejected" "test_timestamp_order_violation_rejected" "test_excessive_expiry_window_rejected"
  "test_invalid_length_slice_rejected"
proof -
  have valid: "valid_verdict (wire_verdict SuspendAndAlert 1337)" "valid_verdict (wire_verdict Alert 0)"
    by (simp_all add: valid_verdict_def wire_verdict_def kavach_const)
  show test_verdict_wire_roundtrip
    using wire_wf valid by (simp add: test_verdict_wire_roundtrip_def length_to_wire from_wire_to_wire from_slice_def)
  show test_alert_with_zero_pid_allowed
    using wire_wf valid by (simp add: test_alert_with_zero_pid_allowed_def from_wire_to_wire) (simp add: wire_verdict_def)
  show test_suspend_with_zero_pid_rejected test_hard_kill_with_zero_pid_rejected
    by (simp_all add: test_suspend_with_zero_pid_rejected_def test_hard_kill_with_zero_pid_rejected_def wire_wf wire_layout)
      (simp_all add: wire_verdict_def)
  show test_unsupported_major_version_rejected
    by (simp add: test_unsupported_major_version_rejected_def copy_at_def from_wire_def Let_def kavach_const wire_simps
        dispatch_error_of_wire_def)
  show test_invalid_action_rejected
    by (simp add: test_invalid_action_rejected_def wire_wf wire_layout dispatch_error_of_wire_def)
      (simp add: wire_verdict_def action_of_u8_def)
  show test_nonzero_flags_rejected
    by (simp add: test_nonzero_flags_rejected_def wire_wf wire_layout) (simp add: wire_verdict_def)
  have "wf_verdict ((wire_verdict Alert 100)\<lparr>issued_at_unix_ms := 1000000, expires_at_unix_ms := e\<rparr>)" for e
    by (simp add: wf_verdict_def wire_verdict_def)
  then show test_timestamp_order_violation_rejected test_excessive_expiry_window_rejected
    by (simp_all add: test_timestamp_order_violation_rejected_def test_excessive_expiry_window_rejected_def wire_layout)
      (simp_all add: wire_verdict_def)
  show test_invalid_length_slice_rejected by (simp add: test_invalid_length_slice_rejected_def from_slice_def kavach_const)
qed

subsection \<open>The event correlator\<close>

definition test_record :: "CriticalEventId \<Rightarrow> u64 \<Rightarrow> u32 \<Rightarrow> string \<Rightarrow> string \<Rightarrow> SecurityEventRecord" where
  "test_record ev t pid user res = \<lparr>event_id = ev, timestamp_unix_ms = t, event_process_id = pid, subject_user = user,
     target_resource = res\<rparr>"

definition test_audit_log_cleared_detection :: "(bytes \<Rightarrow> bytes) \<Rightarrow> bool" where
  "test_audit_log_cleared_detection sha256 \<longleftrightarrow>
    (case fst (record_security_event sha256 sequence_tracker_new
        (test_record AuditLogCleared 1700000000000 1234 ''SYSTEM'' ''Security'')) of
       Some alert \<Rightarrow> pattern alert = AuditLogTampering | None \<Rightarrow> False)"

definition test_brute_force_followed_by_success :: "(bytes \<Rightarrow> bytes) \<Rightarrow> bool" where
  "test_brute_force_followed_by_success sha256 \<longleftrightarrow>
    (let base_ts = 1700000000000;
         tracker = foldl (\<lambda>t i. snd (record_security_event sha256 t
           (test_record LogonFailure (base_ts + i * 1000) 600 ''Administrator'' ''Workstation''))) sequence_tracker_new [0, 1, 2]
     in case fst (record_security_event sha256 tracker
           (test_record LogonSuccess (base_ts + 4000) 600 ''Administrator'' ''Workstation'')) of
          Some alert \<Rightarrow> (case pattern alert of BruteForceCompromised _ n \<Rightarrow> n = 3 | _ \<Rightarrow> False)
        | None \<Rightarrow> False)"

definition test_tensor_matrix_dimensions :: "(bytes \<Rightarrow> bytes) \<Rightarrow> bool" where
  "test_tensor_matrix_dimensions sha256 \<longleftrightarrow>
    (let tracker = foldl (\<lambda>t i. snd (record_security_event sha256 t
           (test_record LogonSuccess (1000000 + word_of_nat i * 1000) (1000 + word_of_nat i) ''testuser'' ''domain'')))
           sequence_tracker_new [0..<EVENT_SEQUENCE_WINDOW_SIZE];
         matrix = event_tensor_matrix sha256 tracker
     in length matrix = EVENT_SEQUENCE_WINDOW_SIZE \<and> length (matrix ! 0) = EVENT_FEATURES_PER_ROW)"

lemma event_tests_pass: "test_audit_log_cleared_detection sha256" "test_brute_force_followed_by_success sha256"
  by (simp_all add: test_audit_log_cleared_detection_def test_brute_force_followed_by_success_def record_security_event_def
      correlate_recent_def sequence_tracker_new_def test_record_def push_drop_first_def recent_failures_def saturating_sub_def
      kavach_const Let_def)

lemma tracked_fold:
  "n \<le> 16 \<Longrightarrow> length (tracked_events (foldl (\<lambda>t i. snd (record_security_event sha256 t (f i))) sequence_tracker_new [0..<n])) = n"
  by (induction n) (simp_all add: record_security_event_def sequence_tracker_new_def push_drop_first_def kavach_const Let_def)

lemma event_rows_length: "length (event_rows sha256 t es) = length es" "i < length es \<Longrightarrow> length (event_rows sha256 t es ! i) = 4"
proof -
  show "length (event_rows sha256 t es) = length es" by (induction es arbitrary: t) simp_all
  show "i < length es \<Longrightarrow> length (event_rows sha256 t es ! i) = 4"
    by (induction es arbitrary: t i) (auto simp: event_row_def Let_def nth_Cons split: nat.split)
qed

lemma event_tensor_test_passes: "test_tensor_matrix_dimensions sha256"
proof -
  have "16 \<le> (16 :: nat)" by simp
  note len = tracked_fold [OF this, of sha256]
  show ?thesis
    by (simp add: test_tensor_matrix_dimensions_def event_tensor_matrix_def kavach_const len event_rows_length nth_append Let_def)
qed

subsection \<open>The sensors\<close>

definition tcpip_step ::
    "(fl \<Rightarrow> fl) \<Rightarrow> (bytes \<Rightarrow> bytes) \<Rightarrow> TcpipConsumer \<times> bool \<times> bool \<Rightarrow> u64 \<Rightarrow> TcpipConsumer \<times> bool \<times> bool" where
  \<comment> \<open>an iteration of the test's loop: consumer, \<open>beacon_detected\<close>, whether every assertion held so far\<close>
  "tcpip_step log10 sha256 st i = (case st of (c, beacon_detected, held) \<Rightarrow>
     let (res, c) = process_packet log10 sha256 c \<lparr>tp_flow_key = periodic_key, tp_payload_bytes = 128, tp_direction = Outbound,
           tp_timestamp_ns = i * 1000000000\<rparr>
     in case res of
          Some r \<Rightarrow> if is_c2_beacon r then (c, True, held \<and> fle (coefficient_of_variation r) (fround b64 (35 / 100)))
            else (c, beacon_detected, held)
        | None \<Rightarrow> (c, beacon_detected, held))"

definition test_tcpip_consumer_pipeline :: "(fl \<Rightarrow> fl) \<Rightarrow> (bytes \<Rightarrow> bytes) \<Rightarrow> bool" where
  "test_tcpip_consumer_pipeline log10 sha256 \<longleftrightarrow>
    (let (_, beacon_detected, held) =
       foldl (tcpip_step log10 sha256) (tcpip_consumer_new tcn_new, False, True) (map word_of_nat [0..<32])
     in beacon_detected \<and> held)"

definition test_event_log_consumer_pipeline :: "(bytes \<Rightarrow> bytes) \<Rightarrow> bool" where
  "test_event_log_consumer_pipeline sha256 \<longleftrightarrow>
    (case fst (process_log_event sha256 (event_consumer_new subscriber_new)
        \<lparr>event_id = AuditLogCleared, timestamp_unix_ms = 1700000000000, event_process_id = 1234,
         subject_user = ''attacker'', target_resource = ''Security.evtx''\<rparr>) of
       Some alert \<Rightarrow> pattern alert = AuditLogTampering
     | None \<Rightarrow> False)"

definition test_wfp_driver_lifecycle :: bool where
  "test_wfp_driver_lifecycle \<longleftrightarrow>
    (let (opened, d1) = open_engine driver_new;
         (added, d2) = add_quarantine d1 (ipv4_target 0xC6336414 8443) 1700000000000
     in active_filter_count driver_new = 0 \<and> is_ok opened \<and> active_filter_count d2 = 1
        \<and> (case added of
             Ok fid \<Rightarrow> (case remove_quarantine d2 fid of (removed, d3) \<Rightarrow> is_ok removed \<and> active_filter_count d3 = 0)
           | Err _ \<Rightarrow> False))"

definition pipe_verdict :: "u64 \<Rightarrow> Verdict" where
  "pipe_verdict now_ms = \<lparr>protocol_version = \<lparr>major = 1, minor = 0\<rparr>, request_id = replicate 16 0x5A,
     issued_at_unix_ms = now_ms, expires_at_unix_ms = now_ms + 10000, detector_instance_id = replicate 16 1,
     requested_action = SuspendAndAlert, evidence_digest = replicate 32 0x22, model_bundle_sha256 = replicate 32 0x77,
     policy_generation = 1, target_process_id = 1234, target_process_start_filetime = 133500000000000000,
     corroborating_evidence_count = 2, flags = 0\<rparr>"

definition test_pipe_broker_dispatch_and_replay_protection :: "pipe_os \<Rightarrow> nat \<Rightarrow> u64 \<Rightarrow> u64 \<Rightarrow> u64 \<Rightarrow> bool" where
  \<comment> \<open>the shared broker at address \<open>a\<close>, the time of the test and of the two dispatches\<close>
  "test_pipe_broker_dispatch_and_replay_protection os a now_ms t1 t2 \<longleftrightarrow>
    (let st = (\<lambda>_. broker_new 1 True 2 (replicate 32 0x77) False);
         dispatcher = with_in_memory_broker a;
         server = server_new a KAVACH_BROKER_PIPE_NAME;
         verdict = pipe_verdict now_ms;
         (result, st) = pipe_dispatch os dispatcher st verdict t1;
         (replay_result, st) = pipe_dispatch os dispatcher st verdict t2;
         wire = to_wire (verdict\<lparr>request_id := replicate 16 0x5B\<rparr>)
     in is_ok result \<and> replay_result = Err ReplayDetected
        \<and> fst (handle_frame server st wire (now_ms + 20000)) = Err Expired)"

lemma sensor_tests_pass:
  "test_event_log_consumer_pipeline sha256" "test_wfp_driver_lifecycle"
  by (simp_all add: test_event_log_consumer_pipeline_def test_wfp_driver_lifecycle_def process_log_event_def ingest_event_def
      record_security_event_def correlate_recent_def event_consumer_new_def driver_new_def open_engine_def add_quarantine_def
      remove_quarantine_def active_filter_count_def registry_new_def add_quarantine_rule_def remove_rule_def Let_def case_prod_beta)

lemma later: "unat t + k < 2 ^ 64 \<Longrightarrow> unat (t + word_of_nat k) = unat t + k" for t :: u64
proof -
  assume "unat t + k < 2 ^ 64"
  then show ?thesis using unat_add_no_wrap [of t "word_of_nat k"] by (simp add: unat_of_nat)
qed

text \<open>The boundary test holds at every time at which its deadlines do not overflow, whenever before the
  verdict's expiry the two dispatches run.\<close>

lemma pipe_test_passes:
  assumes "unat now_ms + 70000 < 2 ^ 64" "t1 \<le> now_ms + 10000" "t2 \<le> now_ms + 10000"
  shows "test_pipe_broker_dispatch_and_replay_protection os a now_ms t1 t2"
proof -
  note late = later [of now_ms 10000] later [of now_ms 20000] later [of now_ms 70000]
  have t: "unat (now_ms + 10000) = unat now_ms + 10000" "unat (now_ms + 20000) = unat now_ms + 20000"
    "unat (now_ms + 70000) = unat now_ms + 70000" using late assms(1) by simp_all
  have keep: "t2 \<le> now_ms + 70000" using assms(3) t by (simp add: word_le_nat_alt)
  have le: "now_ms \<le> now_ms + 10000" "now_ms + 10000 < now_ms + 20000" using t by (simp_all add: word_le_nat_alt word_less_nat_alt)
  let ?v = "(pipe_verdict now_ms)\<lparr>request_id := replicate 16 0x5B\<rparr>"
  have "wf_verdict ?v" "valid_verdict ?v" using le by (simp_all add: wf_verdict_def valid_verdict_def pipe_verdict_def kavach_const)
  then have wire: "from_slice (to_wire ?v) = Ok ?v" by (simp add: from_slice_Ok)
  let ?b = "broker_new 1 True 2 (replicate 32 0x77) False"
  let ?b' = "?b\<lparr>replay_cache := [(replicate 16 0x5A, now_ms + 70000)]\<rparr>"
  have first: "evaluate_and_enforce ?b (pipe_verdict now_ms) t1 = (Ok (ProcessSuspended 1234 (replicate 32 0x22)), ?b')"
    using assms(2) by (simp add: broker_defs broker_new_def pipe_verdict_def action_gate_def enforced_action_def retain_nonces_def
        not_less add.assoc)
  have second: "evaluate_and_enforce ?b' (pipe_verdict now_ms) t2 = (Err ReplayDetected, ?b')"
    using assms(3) keep by (simp add: broker_defs broker_new_def pipe_verdict_def retain_nonces_def not_less)
  have third: "fst (evaluate_and_enforce ?b' ?v (now_ms + 20000)) = Err Expired"
    using le(2) by (simp add: evaluate_and_enforce_def pipe_verdict_def)
  show ?thesis
    by (simp add: test_pipe_broker_dispatch_and_replay_protection_def pipe_dispatch_def with_in_memory_broker_def handle_frame_def
        server_new_def first second third wire discard_def case_prod_beta)
qed

text \<open>The beacon test: the consumer is the engine run on the packets so far, and it is silent before the last.\<close>

abbreviation beacon_inputs :: "nat \<Rightarrow> (FlowKey \<times> PacketMeta) list" where
  "beacon_inputs n \<equiv> map (\<lambda>i. (periodic_key, periodic_packet (word_of_nat i))) [0..<n]"

lemma tcpip_step_run:
  "tcpip_step log10 sha256 (\<lparr>tp_engine = e, tp_is_running = False\<rparr>, d, h) i
    = (case ingest_packet log10 sha256 e periodic_key (periodic_packet i) of (res, e') \<Rightarrow>
        (\<lparr>tp_engine = e', tp_is_running = False\<rparr>, d \<or> (\<exists>r. res = Some r \<and> is_c2_beacon r),
         h \<and> (\<forall>r. res = Some r \<and> is_c2_beacon r \<longrightarrow> fle (coefficient_of_variation r) (fround b64 (35 / 100)))))"
  by (auto simp: tcpip_step_def process_packet_def periodic_packet_def Let_def case_prod_beta split: option.splits)

lemma beacon_inputs_result:
  "fst (ingest_packet log10 sha256 (tcn_run log10 sha256 (beacon_inputs n)) periodic_key (periodic_packet (word_of_nat n)))
    = (if 32 \<le> Suc n then evaluate_beacon_rhythm log10 sha256 (flow_of (map (\<lambda>i. periodic_packet (word_of_nat i)) [0..<Suc n])) else None)"
proof -
  have "packets_of periodic_key (beacon_inputs n) = map (\<lambda>i. periodic_packet (word_of_nat i)) [0..<n]"
    by (simp add: packets_of_def filter_map comp_def)
  then show ?thesis
    using tcn_run_flow [of log10 sha256 "beacon_inputs n" periodic_key]
      record_packet_flow_of [of "map (\<lambda>i. periodic_packet (word_of_nat i)) [0..<n]" "periodic_packet (word_of_nat n)"]
    by (simp add: ingest_packet_def Let_def)
qed

lemma tcn_run_snoc: "tcn_run log10 sha256 (xs @ [(k, m)]) = snd (ingest_packet log10 sha256 (tcn_run log10 sha256 xs) k m)"
  by (simp add: tcn_run_def)

lemma tcpip_prefix:
  "n \<le> 31 \<Longrightarrow> foldl (tcpip_step log10 sha256) (tcpip_consumer_new tcn_new, False, True) (map word_of_nat [0..<n])
     = (\<lparr>tp_engine = tcn_run log10 sha256 (beacon_inputs n), tp_is_running = False\<rparr>, False, True)"
proof (induction n)
  case 0
  show ?case by (simp add: tcpip_consumer_new_def tcn_run_def)
next
  case (Suc n)
  then show ?case
    using beacon_inputs_result [of log10 sha256 n] tcn_run_snoc [of log10 sha256 "beacon_inputs n"]
    by (simp add: tcpip_step_run case_prod_beta)
qed

lemma tcpip_test_passes: "test_tcpip_consumer_pipeline log10 sha256"
proof -
  let ?fw = "flow_of (map (\<lambda>i. periodic_packet (word_of_nat i)) [0..<32])"
  have "steady_window 1000 (packets ?fw)" using periodic_list by (simp add: flow_of_def last_n_def)
  from steady_flow_flagged [OF this] obtain r where r: "evaluate_beacon_rhythm log10 sha256 ?fw = Some r" "is_c2_beacon r" by auto
  have "fle (coefficient_of_variation r) (fround b64 (35 / 100))"
    using rhythm_scores(4,5) [OF r(1)] r(2) jitter_half [of "mean_delta_ms r" "coefficient_of_variation r"] by (simp add: JITTER_CV_MAX_def)
  moreover have upt: "[0..<32] = [0..<31] @ [31 :: nat]" using upt_Suc_append [of 0 31] by simp
  moreover have "fst (ingest_packet log10 sha256 (tcn_run log10 sha256 (beacon_inputs 31)) periodic_key (periodic_packet 31)) = Some r"
    using beacon_inputs_result [of log10 sha256 31] r(1) by simp
  ultimately show ?thesis
    unfolding test_tcpip_consumer_pipeline_def upt map_append foldl_append tcpip_prefix [OF order.refl]
    using r(2) by (simp add: tcpip_step_run case_prod_beta)
qed

end
