(* ===== verification/Kavach_Regression_Wsl.thy ===== *)
theory Kavach_Regression_Wsl
  imports Kavach_Correlator Kavach_Wsl_Guest
begin

section \<open>The unit tests of the WSL side\<close>

text \<open>
  The unit tests the sources carry for the clock synchronizer (\<open>crates/kavach-wsl/src/clock_sync.rs\<close>) and the
  correlator (\<open>correlator.rs\<close>) on the host and for the guest agent (\<open>crates/kavach-wsl-guest\<close>), as definitions that compute whether their assertions hold of the model, and the
  lemmas that they do, for every hash function and every reading of the guest's clocks.
\<close>

subsection \<open>Clock synchronization\<close>

definition test_challenge :: "u8 \<Rightarrow> ClockChallenge" where
  "test_challenge n = \<lparr>challenge_nonce = replicate 16 n, t0_host_monotonic_ns = 1000000000\<rparr>"

definition test_response :: "u8 \<Rightarrow> u64 \<Rightarrow> u64 \<Rightarrow> ClockResponse" where
  "test_response n g1 g2 = \<lparr>response_nonce = replicate 16 n, g1_guest_monotonic_ns = g1, g2_guest_monotonic_ns = g2\<rparr>"

definition test_clock_synchronization_success :: bool where
  "test_clock_synchronization_success \<longleftrightarrow>
    (let t3 = 1010000000;
         (est, sync) = process_response (synchronizer_new (replicate 16 0x55)) (test_challenge 0x11)
           (test_response 0x11 504000000 506000000) t3
     in (case est of
           Ok e \<Rightarrow> estimate_distribution_id e = replicate 16 0x55 \<and> uncertainty_ns e \<le> 10000000
         | Err _ \<Rightarrow> False)
        \<and> get_valid_estimate sync 1050000000 \<noteq> None
        \<and> get_valid_estimate sync (t3 + CLOCK_SYNC_VALIDITY_NS + 1) = None)"

definition test_high_rtt_rejected :: bool where
  "test_high_rtt_rejected \<longleftrightarrow>
    (case fst (process_response (synchronizer_new (replicate 16 0)) (test_challenge 0x22)
       (test_response 0x22 1000000000 1000000000) 1101000000) of
       Err (RttTooHigh _ _) \<Rightarrow> True | _ \<Rightarrow> False)"

definition test_nonce_mismatch_rejected :: bool where
  "test_nonce_mismatch_rejected \<longleftrightarrow>
     fst (process_response (synchronizer_new (replicate 16 0)) (test_challenge 0x11)
       (test_response 0x22 1000000000 1000000000) 1010000000) = Err NonceMismatch"

definition test_non_monotonic_host_timestamps_rejected :: bool where
  "test_non_monotonic_host_timestamps_rejected \<longleftrightarrow>
     fst (process_response (synchronizer_new (replicate 16 0)) (test_challenge 0x11)
       (test_response 0x11 1000000000 1000000000) 1000000000) = Err NonMonotonicTimestamps"

definition test_non_monotonic_guest_timestamps_rejected :: bool where
  "test_non_monotonic_guest_timestamps_rejected \<longleftrightarrow>
     fst (process_response (synchronizer_new (replicate 16 0)) (test_challenge 0x11)
       (test_response 0x11 1000000000 999999999) 1010000000) = Err NonMonotonicTimestamps"

definition test_consecutive_failures_invalidate_estimate :: bool where
  "test_consecutive_failures_invalidate_estimate \<longleftrightarrow>
    (let c = test_challenge 0x11;
         (est, sync) = process_response (synchronizer_new (replicate 16 0x33)) c (test_response 0x11 504000000 506000000) 1010000000;
         bad = (\<lambda>s. snd (process_response s c (test_response 0x99 504000000 506000000) 1020000000))
     in is_ok est \<and> get_valid_estimate sync 1020000000 \<noteq> None
        \<and> get_valid_estimate (bad (bad (bad sync))) 1020000000 = None)"

definition rolling_step :: "ClockSynchronizer \<times> bool \<Rightarrow> u64 \<Rightarrow> ClockSynchronizer \<times> bool" where
  \<comment> \<open>an iteration of the test's loop, and whether every assertion held so far\<close>
  "rolling_step st i = (case st of (sync, held) \<Rightarrow>
     let base = 1000000000 + i * 100000000;
         challenge = \<lparr>challenge_nonce = replicate 16 (ucast i), t0_host_monotonic_ns = base\<rparr>;
         response = \<lparr>response_nonce = replicate 16 (ucast i), g1_guest_monotonic_ns = 500000000 + i * 100000000,
           g2_guest_monotonic_ns = 500000000 + i * 100000000 + 2000000\<rparr>;
         (est, sync) = process_response sync challenge response (base + 10000000)
     in (sync, held \<and> (case est of Ok e \<Rightarrow> uncertainty_ns e \<le> 10000000 | Err _ \<Rightarrow> False)))"

definition test_five_sample_rolling_buffer :: bool where
  "test_five_sample_rolling_buffer \<longleftrightarrow>
    (let (sync, held) = foldl rolling_step (synchronizer_new (replicate 16 0x44), True) [0, 1, 2, 3, 4, 5]
     in held \<and> get_valid_estimate sync 1600000000 \<noteq> None)"

lemmas clock_tests = test_clock_synchronization_success_def test_high_rtt_rejected_def test_nonce_mismatch_rejected_def
  test_non_monotonic_host_timestamps_rejected_def test_non_monotonic_guest_timestamps_rejected_def
  test_consecutive_failures_invalidate_estimate_def test_challenge_def test_response_def

lemmas clock_defs = process_response_def synchronizer_new_def make_sample_def make_estimate_def min_by_key_def
  get_valid_estimate_def record_failure_def push_drop_first_def as_i64_def i64_unsigned_abs_def kavach_const Let_def

lemma clock_tests_pass:
  "test_clock_synchronization_success" "test_high_rtt_rejected" "test_nonce_mismatch_rejected"
  "test_non_monotonic_host_timestamps_rejected" "test_non_monotonic_guest_timestamps_rejected"
  "test_consecutive_failures_invalidate_estimate"
  by (simp_all add: clock_tests clock_defs)

lemma rolling_test_passes: "test_five_sample_rolling_buffer"
  by (simp add: test_five_sample_rolling_buffer_def rolling_step_def clock_defs)

subsection \<open>Correlation\<close>

definition win_path :: "string \<Rightarrow> string" where
  \<comment> \<open>a Windows path written with slashes\<close>
  "win_path x = replace_char (CHR ''/'') backslash x"

definition test_mnt_to_windows_path_translation :: bool where
  "test_mnt_to_windows_path_translation \<longleftrightarrow>
     translate_mnt_to_windows_path ''/mnt/c/Users/victim/test.txt'' = Some (win_path ''C:/Users/victim/test.txt'')
     \<and> translate_mnt_to_windows_path ''/mnt/d/projects/code/'' = Some (win_path ''D:/projects/code/'')
     \<and> translate_mnt_to_windows_path ''/home/user/file'' = None"

definition test_guest_record :: "u64 \<Rightarrow> u32 \<Rightarrow> bytes \<Rightarrow> string \<Rightarrow> u64 \<Rightarrow> GuestWriteRecord" where
  "test_guest_record t pid distro path len = \<lparr>version = \<lparr>major = 1, minor = 0\<rparr>, sequence_number = 1, guest_monotonic_ns = t,
     guest_realtime_ns = 0, guest_process_id = pid, guest_process_start_ticks = 100, distribution_id = distro,
     mount_namespace_id = 1, executable_sha256 = replicate 32 0, cgroup_sha256 = replicate 32 0, operation = Write,
     normalized_path = path, byte_range_start = 0, byte_range_length = len, record_flags = 0\<rparr>"

definition synchronized_correlator :: "bytes \<Rightarrow> u8 \<Rightarrow> WslCorrelator" where
  \<comment> \<open>a correlator after the exchange the tests begin with\<close>
  "synchronized_correlator distro n = (let c = correlator_new distro 250 in
     c\<lparr>clock_sync := snd (process_response (clock_sync c) (test_challenge n) (test_response n 1000000000 1000000000) 1005000000)\<rparr>)"

definition test_high_confidence_attribution :: bool where
  "test_high_confidence_attribution \<longleftrightarrow>
    (let c = record_host_event (synchronized_correlator (replicate 16 0x77) 0xAA) \<lparr>host_timestamp_ns = 2000000000,
           canonical_windows_path = win_path ''C:/Users/victim/doc.txt'', is_vmmem_process = True, bytes_written = 4096\<rparr>;
         result = fst (correlate_guest_record c
           (test_guest_record 1995000000 4321 (replicate 16 0x77) ''/mnt/c/Users/victim/doc.txt'' 4096) 2010000000)
     in confidence result = High \<and> allow_pid_enforcement result \<and> attributed_process_id result = 4321)"

definition test_stale_clock_sync_downgrades_to_low :: bool where
  "test_stale_clock_sync_downgrades_to_low \<longleftrightarrow>
    (let result = fst (correlate_guest_record (correlator_new (replicate 16 0x88) 250)
           (test_guest_record 1000000000 5555 (replicate 16 0x88) ''/mnt/c/file.txt'' 100) 1000000000)
     in confidence result = Low \<and> \<not> allow_pid_enforcement result)"

definition test_no_matching_host_event_yields_low_confidence :: bool where
  "test_no_matching_host_event_yields_low_confidence \<longleftrightarrow>
    (let result = fst (correlate_guest_record (synchronized_correlator (replicate 16 0x99) 0xBB)
           (test_guest_record 1000000000 1234 (replicate 16 0x99) ''/mnt/c/unmatched.txt'' 512) 1010000000)
     in confidence result = Low \<and> \<not> allow_pid_enforcement result)"

definition test_correlation_window_capped_at_maximum :: bool where
  "test_correlation_window_capped_at_maximum \<longleftrightarrow>
     correlation_window_ms (correlator_new (replicate 16 0) 999) = MAX_CORRELATION_WINDOW_MS"

lemmas correlator_defs = correlate_guest_record_def classify_def windows_path_of_def adjusted_host_ts_def
  matching_events_def abs_diff_def record_host_event_def synchronized_correlator_def correlator_new_def test_guest_record_def
  push_then_trim_def test_challenge_def test_response_def

lemma translation_test_passes: "test_mnt_to_windows_path_translation"
  by (simp add: test_mnt_to_windows_path_translation_def translate_mnt_to_windows_path_def splitn2_def win_path_def
      replace_char_def to_ascii_uppercase_char_def starts_with_def char_of_eval Let_def)

lemma correlator_tests_pass:
  "test_stale_clock_sync_downgrades_to_low" "test_no_matching_host_event_yields_low_confidence"
  "test_correlation_window_capped_at_maximum"
  by (simp_all add: test_stale_clock_sync_downgrades_to_low_def test_no_matching_host_event_yields_low_confidence_def
      test_correlation_window_capped_at_maximum_def correlator_defs clock_defs case_prod_beta)

lemma high_confidence_test_passes: "test_high_confidence_attribution"
  by (simp add: test_high_confidence_attribution_def correlator_defs clock_defs translate_mnt_to_windows_path_def splitn2_def
      win_path_def replace_char_def to_ascii_uppercase_char_def starts_with_def char_of_eval eq_ignore_ascii_case_def case_prod_beta)

subsection \<open>The guest agent\<close>

definition test_request :: "u32 \<Rightarrow> string \<Rightarrow> string \<Rightarrow> u64 \<Rightarrow> u64 \<Rightarrow> u64 \<Rightarrow> guest_request" where
  "test_request pid exe path len mono_ns real_ns = \<lparr>req_pid = pid, req_executable_path = exe, req_normalized_path = path,
     req_operation = Write, req_range_start = 0, req_range_length = len, req_monotonic_ns = mono_ns, req_realtime_ns = real_ns\<rparr>"

definition test_backoff_progression :: bool where
  "test_backoff_progression \<longleftrightarrow> compute_backoff_ms 0 60000 = 1000 \<and> compute_backoff_ms 1 60000 = 2000
     \<and> compute_backoff_ms 2 60000 = 4000 \<and> compute_backoff_ms 5 60000 = 32000 \<and> compute_backoff_ms 10 60000 = 60000"

definition test_guest_clock_response_generation :: "u64 \<Rightarrow> u64 \<Rightarrow> bool" where
  "test_guest_clock_response_generation g1 g2 \<longleftrightarrow>
    (let response = respond_to_challenge \<lparr>challenge_nonce = replicate 16 0x7A, t0_host_monotonic_ns = 1000000\<rparr> g1 g2
     in response_nonce response = replicate 16 0x7A \<and> g1_guest_monotonic_ns response \<le> g2_guest_monotonic_ns response)"

definition test_guest_audit_record_creation :: "(bytes \<Rightarrow> bytes) \<Rightarrow> u64 \<Rightarrow> u64 \<Rightarrow> bool" where
  "test_guest_audit_record_creation sha256 mono_ns real_ns \<longleftrightarrow>
    (case fst (record_operation sha256 (audit_source_new (replicate 16 0x42))
        (test_request 1234 ''/usr/bin/python3'' ''/mnt/c/Users/test/data.csv'' 4096 mono_ns real_ns)) of
       Err _ \<Rightarrow> False
     | Ok r \<Rightarrow> sequence_number r = 1 \<and> guest_process_id r = 1234 \<and> normalized_path r = ''/mnt/c/Users/test/data.csv''
         \<and> operation r = Write \<and> (case to_frame r of Ok frame \<Rightarrow> frame \<noteq> [] | Err _ \<Rightarrow> False))"

definition test_non_normalized_path_rejected :: "(bytes \<Rightarrow> bytes) \<Rightarrow> u64 \<Rightarrow> u64 \<Rightarrow> bool" where
  "test_non_normalized_path_rejected sha256 mono_ns real_ns \<longleftrightarrow>
     \<not> is_ok (fst (record_operation sha256 (audit_source_new (replicate 16 0x42))
        (test_request 1234 ''/usr/bin/bash'' ''/home/user/test.txt'' 100 mono_ns real_ns)))"

definition test_guest_agent_full_flow :: "(bytes \<Rightarrow> bytes) \<Rightarrow> u64 \<Rightarrow> u64 \<Rightarrow> u64 \<Rightarrow> u64 \<Rightarrow> bool" where
  "test_guest_agent_full_flow sha256 mono_ns real_ns g1 g2 \<longleftrightarrow>
    (case fst (record_operation sha256 (audit_source_new (replicate 16 0x42))
        (test_request 9999 ''/bin/bash'' ''/mnt/c/Windows/Temp/test.log'' 512 mono_ns real_ns)) of
       Err _ \<Rightarrow> False
     | Ok record \<Rightarrow> (case prepare_wire_frame record of
           Err _ \<Rightarrow> False
         | Ok frame \<Rightarrow> 150 \<le> length frame
             \<and> (case from_frame frame of
                  Err _ \<Rightarrow> False
                | Ok decoded \<Rightarrow> guest_process_id decoded = 9999 \<and> normalized_path decoded = ''/mnt/c/Windows/Temp/test.log'')))
     \<and> response_nonce (respond_to_challenge \<lparr>challenge_nonce = replicate 16 0xAA, t0_host_monotonic_ns = 50000000\<rparr> g1 g2)
         = replicate 16 0xAA"

lemma guest_tests_pass:
  "test_backoff_progression" "g1 \<le> g2 \<Longrightarrow> test_guest_clock_response_generation g1 g2"
  by (simp_all add: test_backoff_progression_def compute_backoff_ms_def test_guest_clock_response_generation_def
      respond_to_challenge_def)

lemma test_paths:
  "is_normalized_mnt_path ''/mnt/c/Users/test/data.csv''" "is_normalized_mnt_path ''/mnt/c/Windows/Temp/test.log''"
  "\<not> is_normalized_mnt_path ''/home/user/test.txt''"
proof -
  have a: "''/mnt/c/Users/test/data.csv'' = ''/mnt/'' @ (''c'' @ CHR ''/'' # ''Users'' @ CHR ''/'' # ''test'' @ CHR ''/'' # ''data.csv'')"
    and b: "''/mnt/c/Windows/Temp/test.log'' = ''/mnt/'' @ (''c'' @ CHR ''/'' # ''Windows'' @ CHR ''/'' # ''Temp'' @ CHR ''/'' # ''test.log'')"
    by simp_all
  show "is_normalized_mnt_path ''/mnt/c/Users/test/data.csv''" "is_normalized_mnt_path ''/mnt/c/Windows/Temp/test.log''"
    unfolding a b normalized_segments
    by (simp_all add: split_on_append split_on_absent Let_def del: split_on.simps append.simps)
  show "\<not> is_normalized_mnt_path ''/home/user/test.txt''" by (simp add: is_normalized_mnt_path_def starts_with_def)
qed

lemma test_paths_utf8:
  "valid_utf8 (as_bytes ''/mnt/c/Users/test/data.csv'')" "valid_utf8 (as_bytes ''/mnt/c/Windows/Temp/test.log'')"
  by (simp_all add: as_bytes_def byte_of_def)

text \<open>A record the agent makes of a request for a normalized, short path goes over the wire unchanged.\<close>

lemma recorded_frame:
  assumes "\<And>b. length (sha256 b) = 32" "is_normalized_mnt_path path" "valid_utf8 (as_bytes path)" "length path \<le> 4096"
  obtains r b where "fst (record_operation sha256 (audit_source_new (replicate 16 0x42)) (test_request pid exe path len m t)) = Ok r"
    "sequence_number r = 1" "guest_process_id r = pid" "normalized_path r = path" "operation r = Write"
    "to_frame r = Ok b" "from_frame b = Ok r" "153 \<le> length b"
proof -
  define r where "r = projr (fst (record_operation sha256 (audit_source_new (replicate 16 0x42)) (test_request pid exe path len m t)))"
  have rec: "fst (record_operation sha256 (audit_source_new (replicate 16 0x42)) (test_request pid exe path len m t)) = Ok r"
    and fields: "sequence_number r = 1" "guest_process_id r = pid" "normalized_path r = path" "operation r = Write"
    and wf: "wf_record r" and valid: "valid_record r"
    using assms by (simp_all add: r_def record_operation_def test_request_def audit_source_new_def wf_record_def valid_record_def
        kavach_const Let_def)
  obtain b where b: "to_frame r = Ok b" "from_frame b = Ok r" using from_frame_to_frame [OF wf valid] by blast
  have "153 \<le> length b" using b(1) to_frame_layout [OF valid] length_payload_layout [OF wf] by auto
  with that rec fields b show thesis by blast
qed

lemma guest_flow_tests_pass:
  assumes "\<And>b. length (sha256 b) = 32"
  shows "test_guest_audit_record_creation sha256 mono_ns real_ns" "test_guest_agent_full_flow sha256 mono_ns real_ns g1 g2"
    "test_non_normalized_path_rejected sha256 mono_ns real_ns"
proof -
  show "test_guest_audit_record_creation sha256 mono_ns real_ns"
    by (rule recorded_frame [of sha256, OF assms test_paths(1) test_paths_utf8(1), where pid = 1234 and exe = "''/usr/bin/python3''" and len = 4096
          and m = mono_ns and t = real_ns])
      (auto simp: test_guest_audit_record_creation_def)
  show "test_guest_agent_full_flow sha256 mono_ns real_ns g1 g2"
    by (rule recorded_frame [of sha256, OF assms test_paths(2) test_paths_utf8(2), where pid = 9999 and exe = "''/bin/bash''" and len = 512
          and m = mono_ns and t = real_ns])
      (auto simp: test_guest_agent_full_flow_def prepare_wire_frame_def respond_to_challenge_def)
  show "test_non_normalized_path_rejected sha256 mono_ns real_ns"
    using record_refused [of "test_request 1234 ''/usr/bin/bash'' ''/home/user/test.txt'' 100 mono_ns real_ns" sha256] test_paths(3)
    by (auto simp: test_non_normalized_path_rejected_def test_request_def record_operation_def)
qed

end
