(* ===== verification/Kavach_Regression_Wire.thy ===== *)
theory Kavach_Regression_Wire
  imports Kavach_Regression Kavach_Regression_Wsl
begin

section \<open>The unit tests of the guest record format\<close>

text \<open>
  The unit tests of \<open>crates/kavach-wsl/src/wire.rs\<close> as definitions that compute whether their assertions hold of the
  model, and the lemmas that they do: the round trip of a record and the refusal of one corrupted field at a time.
\<close>

definition wire_sample_record :: GuestWriteRecord where
  "wire_sample_record = \<lparr>version = \<lparr>major = 1, minor = 0\<rparr>, sequence_number = 1, guest_monotonic_ns = 12345678,
     guest_realtime_ns = 1700000000000000, guest_process_id = 1024, guest_process_start_ticks = 99999,
     distribution_id = replicate 16 0xdd, mount_namespace_id = 4026531840, executable_sha256 = replicate 32 0xee,
     cgroup_sha256 = replicate 32 0, operation = Write, normalized_path = ''/mnt/c/Users/victim/Documents/thesis.docx'',
     byte_range_start = 0, byte_range_length = 4096, record_flags = 0\<rparr>"

definition after_change :: "(bytes \<Rightarrow> bytes) \<Rightarrow> (VsockWireError + GuestWriteRecord) option" where
  \<comment> \<open>what decoding answers after the frame of the sample has been changed; \<open>None\<close> when \<open>unwrap\<close> panics\<close>
  "after_change change = (case to_frame wire_sample_record of Ok frame \<Rightarrow> Some (from_frame (change frame)) | Err _ \<Rightarrow> None)"

definition test_guest_write_record_roundtrip :: bool where
  "test_guest_write_record_roundtrip \<longleftrightarrow>
    (case to_frame wire_sample_record of
       Ok frame \<Rightarrow> length frame = LENGTH_PREFIX_SIZE + FIXED_HEADER_SIZE + length (normalized_path wire_sample_record)
         \<and> from_frame frame = Ok wire_sample_record
     | Err _ \<Rightarrow> False)"

definition test_zero_sequence_number_rejected :: bool where
  "test_zero_sequence_number_rejected \<longleftrightarrow> after_change (copy_at 8 (u64_to_be_bytes 0)) = Some (Err ZeroSequenceNumber)"

definition test_unsupported_major_rejected :: bool where
  "test_unsupported_major_rejected \<longleftrightarrow>
     after_change (copy_at 4 (u16_to_be_bytes 2)) = Some (Err (VsockWireError.UnsupportedMajorVersion 2))"

definition test_invalid_operation_rejected :: bool where
  "test_invalid_operation_rejected \<longleftrightarrow> after_change (\<lambda>frame. frame[132 := 4]) = Some (Err (InvalidOperation 4))"

definition test_nonzero_record_flags_rejected :: bool where
  "test_nonzero_record_flags_rejected \<longleftrightarrow> after_change (\<lambda>frame. frame[149 := 1]) = Some (Err (VsockWireError.NonzeroFlags 0x0100))"

definition test_non_normalized_paths_rejected :: bool where
  "test_non_normalized_paths_rejected \<longleftrightarrow>
     \<not> is_normalized_mnt_path ''/home/user/file'' \<and> \<not> is_normalized_mnt_path ''/mnt/c/../etc/passwd''
     \<and> \<not> is_normalized_mnt_path ''/mnt/c/./file.txt'' \<and> \<not> is_normalized_mnt_path ''/mnt/''
     \<and> \<not> is_normalized_mnt_path ''/mnt//c/file'' \<and> is_normalized_mnt_path ''/mnt/c/file.txt''
     \<and> is_normalized_mnt_path ''/mnt/d/projects/code/''"

definition test_payload_length_mismatch_rejected :: bool where
  "test_payload_length_mismatch_rejected \<longleftrightarrow>
     (case after_change (copy_at 0 (u32_to_be_bytes 500)) of
        Some (Err (PayloadLengthMismatch _ _)) \<Rightarrow> True | _ \<Rightarrow> False)"

lemma path_test_passes: "test_non_normalized_paths_rejected"
  unfolding test_non_normalized_paths_rejected_def by code_simp

lemma sample_record_path:
  "is_normalized_mnt_path ''/mnt/c/Users/victim/Documents/thesis.docx''" "valid_utf8 (as_bytes ''/mnt/c/Users/victim/Documents/thesis.docx'')"
proof -
  have path: "''/mnt/c/Users/victim/Documents/thesis.docx''
      = ''/mnt/'' @ (''c'' @ CHR ''/'' # ''Users'' @ CHR ''/'' # ''victim'' @ CHR ''/'' # ''Documents'' @ CHR ''/'' # ''thesis.docx'')" by simp
  show "is_normalized_mnt_path ''/mnt/c/Users/victim/Documents/thesis.docx''"
    unfolding path normalized_segments by (simp add: split_on_append split_on_absent Let_def del: split_on.simps append.simps)
  show "valid_utf8 (as_bytes ''/mnt/c/Users/victim/Documents/thesis.docx'')" by (simp add: as_bytes_def byte_of_def)
qed

lemma sample_record_valid: "wf_record wire_sample_record" "valid_record wire_sample_record"
  using sample_record_path by (simp_all add: wf_record_def valid_record_def wire_sample_record_def kavach_const)

lemma sample_frame:
  "to_frame wire_sample_record = Ok (u32_to_be_bytes 190 @ payload_layout wire_sample_record)"
  "length (payload_layout wire_sample_record) = 190"
  using to_frame_layout [OF sample_record_valid(2)] length_payload_layout [OF sample_record_valid(1)]
  by (simp_all add: wire_sample_record_def)

lemma framed: "length p = 190 \<Longrightarrow> from_frame (u32_to_be_bytes 190 @ p) = from_payload p"
  by (simp add: from_frame_def wire_simps Let_def kavach_const)

lemma subslice_copy_at:
  "a \<le> j \<Longrightarrow> j \<le> i \<Longrightarrow> i \<le> length buf \<Longrightarrow> subslice a j (copy_at i src buf) = subslice a j buf"
  "i \<le> length buf \<Longrightarrow> j = i + length src \<Longrightarrow> subslice i j (copy_at i src buf) = src"
  by (simp_all add: subslice_def copy_at_def take_drop)

lemma header_changes:
  assumes "length p = 190"
  shows "copy_at (4 + i) src (u32_to_be_bytes 190 @ p) = u32_to_be_bytes 190 @ copy_at i src p"
    "(u32_to_be_bytes 190 @ p)[4 + i := b] = u32_to_be_bytes 190 @ p[i := b]"
    "copy_at 0 (u32_to_be_bytes n) (u32_to_be_bytes 190 @ p) = u32_to_be_bytes n @ p"
  using assms by (simp_all add: copy_at_def list_update_append)

lemmas change_simps = after_change_def sample_frame framed header_changes [OF sample_frame(2)] from_payload_def subslice_copy_at
  subslice_update payload_layout_slices [OF sample_record_valid(1)] Let_def kavach_const

lemma record_tests_pass:
  "test_guest_write_record_roundtrip" "test_zero_sequence_number_rejected" "test_unsupported_major_rejected"
  "test_invalid_operation_rejected" "test_payload_length_mismatch_rejected"
proof -
  let ?p = "payload_layout wire_sample_record"
  have "from_frame (u32_to_be_bytes 190 @ ?p) = Ok wire_sample_record"
    using from_frame_to_frame [OF sample_record_valid] by (simp add: sample_frame)
  moreover have "length (normalized_path wire_sample_record) = 41" by (simp add: wire_sample_record_def)
  ultimately show test_guest_write_record_roundtrip
    by (simp add: test_guest_write_record_roundtrip_def sample_frame kavach_const)
  show test_zero_sequence_number_rejected
    unfolding test_zero_sequence_number_rejected_def using header_changes(1) [OF sample_frame(2), of 4]
    by (simp add: change_simps) (simp add: wire_sample_record_def)
  show test_unsupported_major_rejected
    unfolding test_unsupported_major_rejected_def using header_changes(1) [OF sample_frame(2), of 0]
    by (simp add: change_simps)
  show test_invalid_operation_rejected
    unfolding test_invalid_operation_rejected_def using header_changes(2) [OF sample_frame(2), of 128]
    by (simp add: change_simps) (simp add: wire_sample_record_def operation_of_u8_def)
  show test_payload_length_mismatch_rejected
    unfolding test_payload_length_mismatch_rejected_def by (simp add: change_simps from_frame_def wire_simps)
qed

lemma flags_test_passes: "test_nonzero_record_flags_rejected"
proof -
  let ?p = "payload_layout wire_sample_record"
  have "subslice 145 147 (?p[145 := 1]) = (subslice 145 147 ?p)[0 := 1]" by (simp add: subslice_def take_update_swap drop_update_swap sample_frame)
  also have "subslice 145 147 ?p = u16_to_be_bytes 0" using payload_layout_slices [OF sample_record_valid(1)] by (simp add: wire_sample_record_def)
  also have "u16_to_be_bytes 0 = [0, 0]" by (simp add: u16_to_be_bytes_def numeral_2_eq_2)
  finally have "u16_from_be_bytes (subslice 145 147 (?p[145 := 1])) = 0x0100" by (simp add: u16_from_be_bytes_def be_val_def)
  then show ?thesis
    unfolding test_nonzero_record_flags_rejected_def using header_changes(2) [OF sample_frame(2), of 145]
    by (simp add: change_simps) (simp add: wire_sample_record_def)
qed

end
