(* ===== verification/Kavach_Regression_Detect.thy ===== *)
theory Kavach_Regression_Detect
  imports Kavach_Cipher_Blocks Kavach_Sensors Kavach_Rhythm
begin

section \<open>The unit tests of the detectors\<close>

text \<open>
  The unit tests of \<open>entropy.rs\<close>, \<open>sliding_window.rs\<close>, \<open>flow.rs\<close>, \<open>detector.rs\<close> and \<open>tensor.rs\<close> and the ransomware test
  of the sensors, each as a definition that computes whether its assertions hold of the model, and the lemma
  that they do, rounding included. The logarithms and SHA-256 are arguments; what a lemma needs of them is a
  hypothesis (accuracy of \<open>log2\<close>, \<open>log2(1) = 0\<close>).
\<close>

subsection \<open>Entropy\<close>

definition test_zero_bytes_entropy_zero :: "(fl \<Rightarrow> fl) \<Rightarrow> bool" where
  "test_zero_bytes_entropy_zero log2 \<longleftrightarrow> shannon_entropy log2 (replicate 4096 0) = Fin 0"

definition test_single_byte_entropy_zero :: "(fl \<Rightarrow> fl) \<Rightarrow> bool" where
  "test_single_byte_entropy_zero log2 \<longleftrightarrow> shannon_entropy log2 (replicate 1000 0x42) = Fin 0"

definition test_empty_input_entropy_zero :: "(fl \<Rightarrow> fl) \<Rightarrow> bool" where
  "test_empty_input_entropy_zero log2 \<longleftrightarrow> shannon_entropy log2 [] = Fin 0"

definition test_two_byte_values_entropy_one :: "(fl \<Rightarrow> fl) \<Rightarrow> bool" where
  "test_two_byte_values_entropy_one log2 \<longleftrightarrow>
    (let data = concat (map (\<lambda>_. [0x00, 0xFF]) [0 ..< 256]);
         h = shannon_entropy log2 data
     in flt (fabs (fsub b64 h (Fin 1))) (fround b64 (1 / 1000)))"

definition test_block_entropy_scan_empty_data :: "(fl \<Rightarrow> fl) \<Rightarrow> bool" where
  "test_block_entropy_scan_empty_data log2 \<longleftrightarrow> block_entropy_scan log2 [] 4096 = []"

definition test_block_entropy_scan_zero_block_size :: "(fl \<Rightarrow> fl) \<Rightarrow> bool" where
  "test_block_entropy_scan_zero_block_size log2 \<longleftrightarrow> block_entropy_scan log2 (replicate 100 0) 0 = []"

definition intermittent_blocks :: "fl list" where
  "intermittent_blocks = (let text_entropy = fround b64 (42 / 10); crypto_entropy = fround b64 (798 / 100)
     in [text_entropy, crypto_entropy, text_entropy, crypto_entropy, text_entropy, crypto_entropy])"

definition test_intermittent_encryption_detection :: bool where
  "test_intermittent_encryption_detection \<longleftrightarrow>
    (let summary = differential_entropy intermittent_blocks
     in total_blocks summary = 6 \<and> fle ENTROPY_RANSOMWARE_THRESHOLD (max_entropy summary)
        \<and> flt (fround b64 (35 / 100)) (intermittent_encryption_score summary) \<and> is_anomalous summary)"

definition test_normal_file_not_anomalous :: bool where
  "test_normal_file_not_anomalous \<longleftrightarrow>
    (let summary = differential_entropy (map (fround b64) [41 / 10, 42 / 10, 4, 43 / 10, 41 / 10])
     in \<not> is_anomalous summary \<and> intermittent_encryption_score summary = Fin 0)"

definition test_differential_entropy_single_block :: bool where
  "test_differential_entropy_single_block \<longleftrightarrow>
    (let summary = differential_entropy [fround b64 (798 / 100)]
     in total_blocks summary = 1 \<and> high_entropy_ratio summary = Fin 1 \<and> is_anomalous summary)"

definition test_differential_entropy_empty_blocks :: bool where
  "test_differential_entropy_empty_blocks \<longleftrightarrow>
    (let summary = differential_entropy []
     in total_blocks summary = 0 \<and> mean_entropy summary = Fin 0 \<and> \<not> is_anomalous summary)"

lemma entropy_edge_tests_pass:
  "test_empty_input_entropy_zero log2" "test_block_entropy_scan_empty_data log2"
  "test_block_entropy_scan_zero_block_size log2" "test_differential_entropy_empty_blocks"
  by (simp_all add: test_empty_input_entropy_zero_def test_block_entropy_scan_empty_data_def
      test_block_entropy_scan_zero_block_size_def test_differential_entropy_empty_blocks_def shannon_entropy_def
      block_entropy_scan_def differential_entropy_def)

lemma constant_counts: "0 < n \<Longrightarrow> positive_counts (replicate n b) = [n]"
proof -
  assume n: "0 < n"
  have c: "length (filter (\<lambda>x. unat x = k) (replicate n b)) = (if k = unat b then n else 0)" for k by (auto simp: filter_replicate)
  have "unat b < 256" using unat_bound [of b] by simp
  then have "[0..<256] = [0..<unat b] @ unat b # [Suc (unat b)..<256]" by (metis le_add1 le_add_same_cancel1 less_imp_le upt_add_eq_append upt_conv_Cons zero_le add_diff_inverse_nat not_less)
  then show ?thesis using n by (simp add: positive_counts_def byte_counts_def c filter_empty_conv)
qed

lemma zero_arithmetic: "fmul f (Fin 1) (Fin 0) = Fin 0" "fadd f (Fin 0) NegZero = Fin 0" "fneg (Fin 0) = NegZero"
  by (simp_all add: fmul_def fadd_def fneg_def is_neg_def is_finite_def fval_def signed_zero_def fround_def)

lemma constant_entropy:
  assumes "log2 (Fin 1) = Fin 0" "0 < n" "n < 2 ^ 53"
  shows "shannon_entropy log2 (replicate n b) = Fin 0"
proof -
  have one: "fdiv b64 (fl_of_nat b64 n) (fl_of_nat b64 n) = Fin 1"
    using assms(2,3) by (simp add: b64_ratio fround_one)
  have "replicate n b \<noteq> []" using assms(2) by simp
  from shannon_fold [OF this, of log2] show ?thesis
    using assms(1,2) by (simp add: constant_counts one Let_def zero_arithmetic)
qed

lemma constant_entropy_tests_pass:
  assumes "log2 (Fin 1) = Fin 0"
  shows "test_zero_bytes_entropy_zero log2" "test_single_byte_entropy_zero log2"
  using constant_entropy [of log2 4096] constant_entropy [of log2 1000] assms
  by (simp_all add: test_zero_bytes_entropy_zero_def test_single_byte_entropy_zero_def)

lemma two_values_entropy: "exact_entropy (concat (map (\<lambda>_. [0x00, 0xFF]) [0 ..< 256])) = 1"
proof -
  let ?bs = "concat (map (\<lambda>_. [0x00, 0xFF]) [0 ..< 256]) :: bytes"
  have c: "length (filter P (concat (map (\<lambda>_. [a, b]) [0 ..< n]))) = n * ((if P a then 1 else 0) + (if P b then 1 else 0))"
    for P a b and n :: nat by (induction n) simp_all
  have counts: "byte_counts ?bs = map (\<lambda>k. if k = 0 \<or> k = 255 then 256 else 0) [0..<256]"
    unfolding byte_counts_def by (intro map_cong refl) (auto simp: c)
  have split: "[0..<256] = 0 # [1..<255] @ [255 :: nat]" using upt_conv_Cons [of 0 256] upt_Suc_append [of 1 255] by simp
  have "positive_counts ?bs = [256, 256]"
    unfolding positive_counts_def counts unfolding split by (simp add: filter_empty_conv del: upt_Suc)
  moreover have "length ?bs = 512" by (simp add: length_concat o_def map_replicate_const sum_list_replicate)
  moreover have "log 2 (1 / 2) = (- 1 :: real)" by (simp add: log_divide)
  ultimately show ?thesis unfolding exact_entropy_positive by simp
qed

lemma two_values_test_passes: "log2_close log2 \<Longrightarrow> test_two_byte_values_entropy_one log2"
proof -
  assume close: "log2_close log2"
  define h where "h = shannon_entropy log2 (concat (map (\<lambda>_. [0x00, 0xFF]) [0 ..< 256]))"
  have len: "length (concat (map (\<lambda>_. [0x00, 0xFF :: u8]) [0 ..< 256])) \<le> 2 ^ 32"
    by (simp add: length_concat o_def map_replicate_const sum_list_replicate)
  have fin: "is_finite h" unfolding h_def using shannon_near [OF close len] by simp
  have "999 / 1000 + 1 / 5000 \<le> fval h" "fval h \<le> 1001 / 1000 - 1 / 5000"
    unfolding h_def by (rule shannon_value [OF close len], simp add: two_values_entropy of_rat_add of_rat_diff of_rat_divide)+
  then have v: "near h 1 (8 / 10000)" using fin unfolding near_def by linarith
  have "near (fsub b64 h (Fin 1)) (1 - 1) (8 / 10000 + 0 + 4 * (1 / 2 ^ 53))"
    by (rule f64.near_sub [OF v near_exact]) simp_all
  then have d: "is_finite (fsub b64 h (Fin 1))" "\<bar>fval (fsub b64 h (Fin 1))\<bar> \<le> 9 / 10000"
    unfolding near_def by (simp_all add: field_simps)
  have abs: "is_finite (fabs a) \<and> fval (fabs a) = \<bar>fval a\<bar>" if "is_finite a" for a
    using that by (cases a) (auto simp: fabs_def is_neg_def fneg_def is_finite_def fval_def)
  have lim: "near (fround b64 (1 / 1000)) (1 / 1000) (1 / 100000)"
    by (rule near_weaken [OF f64.near_round [of "1 / 1000" "1 / 1000" 0 2]]) simp_all
  have "\<bar>fval (fsub b64 h (Fin 1))\<bar> < fval (fround b64 (1 / 1000))" using d(2) nearD(2) [OF lim] by linarith
  then have "\<not> fle (fround b64 (1 / 1000)) (fabs (fsub b64 h (Fin 1)))"
    using abs [OF d(1)] nearD(1) [OF lim] by (simp add: fle_finite)
  moreover have "fabs (fsub b64 h (Fin 1)) \<noteq> NaN" "fround b64 (1 / 1000) \<noteq> NaN"
    using abs [OF d(1)] nearD(1) [OF lim] by (auto simp: is_finite_def)
  ultimately show ?thesis by (simp add: test_two_byte_values_entropy_one_def flt_def h_def [symmetric] Let_def)
qed

lemma flt_finite: "is_finite a \<Longrightarrow> is_finite b \<Longrightarrow> flt a b \<longleftrightarrow> fval a < fval b"
  by (auto simp: flt_def fle_finite is_finite_def)

lemma round64:
  assumes "0 \<le> x" "x \<le> 8"
  shows "is_finite (fround b64 x)" "\<bar>fval (fround b64 x) - x\<bar> \<le> 1 / 2 ^ 40"
    "x - 1 / 1000 \<le> fval (fround b64 x)" "fval (fround b64 x) \<le> x + 1 / 1000"
proof -
  have near: "near (fround b64 x) x (1 / 2 ^ 40)"
    by (rule near_weaken [OF f64.near_round [of x x 0 9]]) (use assms in simp_all)
  then show "is_finite (fround b64 x)" "\<bar>fval (fround b64 x) - x\<bar> \<le> 1 / 2 ^ 40" by (simp_all add: near_def)
  have "1 / 2 ^ 40 \<le> (1 / 1000 :: rat)" by simp
  then show "x - 1 / 1000 \<le> fval (fround b64 x)" "fval (fround b64 x) \<le> x + 1 / 1000" using nearD(2) [OF near] by linarith+
qed

lemma rounded_block:
  assumes "0 \<le> x" "x \<le> 8"
  shows "entropy_range (fround b64 x)" "x \<le> 5 \<Longrightarrow> plain_block (fround b64 x)" "796 / 100 \<le> x \<Longrightarrow> encrypted_block (fround b64 x)"
proof -
  note r = round64 [OF assms]
  have "1 / 2 ^ 40 \<le> (1 / 2 ^ 20 :: rat)" by simp
  then show "entropy_range (fround b64 x)" using r assms unfolding entropy_range_def by linarith
  show "plain_block (fround b64 x)" if "x \<le> 5"
  proof -
    have "fval (fround b64 x) \<le> 11 / 2" using r(4) that by linarith
    then show ?thesis using r(1) by (simp add: plain_block_def fle_finite is_finite_def [of "Fin q" for q] fval_def [of "Fin q" for q])
  qed
  show "encrypted_block (fround b64 x)" if "796 / 100 \<le> x"
  proof -
    have "fval ENTROPY_RANSOMWARE_THRESHOLD \<le> fval (fround b64 x)" using r(3) that nearD(2) [OF threshold_value] by linarith
    then show ?thesis using r(1) nearD(1) [OF threshold_value] by (simp add: encrypted_block_def fle_finite)
  qed
qed

lemma intermittent_test_passes: "test_intermittent_encryption_detection"
proof -
  let ?p = "fround b64 (42 / 10)" and ?e = "fround b64 (798 / 100)"
  have p: "entropy_range ?p" "plain_block ?p" by (rule rounded_block; simp)+
  have e: "entropy_range ?e" "encrypted_block ?e" by (rule rounded_block; simp)+
  have "is_finite ?p" using p(1) by (simp add: entropy_range_def)
  from plain_not_encrypted [OF p(2) this] have ne: "\<not> encrypted_block ?p" .
  have blocks: "intermittent_blocks = [?p, ?e, ?p, ?e, ?p, ?e]" by (simp add: intermittent_blocks_def Let_def)
  have pattern: "entropy_range a \<and> (plain_block a \<or> encrypted_block a)" if "a \<in> set intermittent_blocks" for a
    using that p e by (auto simp: blocks)
  have counts: "length intermittent_blocks \<le> 2 ^ 28" "2 \<le> high_blocks intermittent_blocks"
    "3 * (length intermittent_blocks - 1) \<le> 5 * switches encrypted_block intermittent_blocks"
    using e(2) ne by (simp_all add: blocks high_blocks_def encrypted_block_def [symmetric])
  note score = mixed_blocks_score [OF pattern counts] and anomalous = intermittent_anomalous [OF pattern counts]
  have "fval (fround b64 (35 / 100)) < fval (intermittent_encryption_score (differential_entropy intermittent_blocks))"
    using round64(4) [of "35 / 100"] score(3) by linarith
  then have "flt (fround b64 (35 / 100)) (intermittent_encryption_score (differential_entropy intermittent_blocks))"
    using round64(1) [of "35 / 100"] score(2) by (simp add: flt_finite)
  moreover have "total_blocks (differential_entropy intermittent_blocks) = 6" by (simp add: blocks differential_entropy_def Let_def)
  ultimately show ?thesis
    using score(1) anomalous by (simp add: test_intermittent_encryption_detection_def encrypted_block_def Let_def)
qed

lemma no_high_blocks:
  assumes "blocks \<noteq> []" "\<And>a. a \<in> set blocks \<Longrightarrow> plain_block a \<and> is_finite a" "length blocks < 2 ^ 53"
  shows "\<not> is_anomalous (differential_entropy blocks)" "intermittent_encryption_score (differential_entropy blocks) = Fin 0"
proof -
  have "\<not> encrypted_block a" if "a \<in> set blocks" for a using that assms(2) plain_not_encrypted by blast
  then have none: "high_blocks blocks = 0" by (simp add: high_blocks_def encrypted_block_def [symmetric] filter_empty_conv)
  have "plain_block (foldl (\<lambda>m e. if flt m e then e else m) m bl) \<and> is_finite (foldl (\<lambda>m e. if flt m e then e else m) m bl)"
    if "plain_block m \<and> is_finite m" "\<And>a. a \<in> set bl \<Longrightarrow> plain_block a \<and> is_finite a" for m bl
    using that by (induction bl arbitrary: m) auto
  moreover have "plain_block (Fin 0) \<and> is_finite (Fin 0)" by (simp add: plain_block_def fle_def is_finite_def fval_def)
  ultimately have "\<not> fle ENTROPY_RANSOMWARE_THRESHOLD (max_entropy (differential_entropy blocks))"
    unfolding summary_max(1) [OF assms(1)] using assms(2) plain_not_encrypted unfolding encrypted_block_def by blast
  then show "intermittent_encryption_score (differential_entropy blocks) = Fin 0"
    unfolding summary_max(2) [OF assms(1)] by (simp add: intermittent_score_def)
  have "high_entropy_ratio (differential_entropy blocks) = Fin 0"
    using assms(1,3) none by (simp add: differential_entropy_def Let_def b64_ratio fround_def)
  moreover have "\<not> fle (fround b64 (7 / 10)) (Fin 0)"
    using round64(1,3) [of "7 / 10"] by (simp add: fle_finite is_finite_def [of "Fin 0"] fval_def [of "Fin 0"])
  ultimately show "\<not> is_anomalous (differential_entropy blocks)" unfolding summary_max(3) [OF assms(1)] by (simp add: none)
qed

lemma normal_test_passes: "test_normal_file_not_anomalous"
proof -
  let ?bl = "map (fround b64) [41 / 10, 42 / 10, 4, 43 / 10, 41 / 10]"
  have plain: "plain_block a \<and> is_finite a" if "a \<in> set ?bl" for a using that rounded_block(2) round64(1) by auto
  have "?bl \<noteq> []" "length ?bl < 2 ^ 53" by simp_all
  from no_high_blocks [OF this(1) plain this(2)] show ?thesis
    by (simp only: test_normal_file_not_anomalous_def Let_def simp_thms)
qed

lemma single_block_test_passes: "test_differential_entropy_single_block"
proof -
  have "encrypted_block (fround b64 (798 / 100))" by (rule rounded_block; simp)
  then have "high_blocks [fround b64 (798 / 100)] = 1" by (simp add: high_blocks_def encrypted_block_def)
  moreover from this have "is_anomalous (differential_entropy [fround b64 (798 / 100)])" by (intro sustained_anomalous) simp_all
  ultimately show ?thesis
    by (simp add: test_differential_entropy_single_block_def differential_entropy_def Let_def b64_ratio [of 1 1, simplified] fround_one)
qed

subsection \<open>The sliding window\<close>

definition make_pseudo_crypto_block :: bytes where
  "make_pseudo_crypto_block = lcg 4096 (6364136223846793005 :: u64) 1 33 0xdeadbeef12345678"

abbreviation record_write ::
    "(fl \<Rightarrow> fl) \<Rightarrow> u32 \<Rightarrow> u64 \<Rightarrow> string \<Rightarrow> bool \<Rightarrow> u64 \<Rightarrow> WriteBurstTracker \<Rightarrow> WriteBurstTracker" where
  "record_write log2 pid ts file rename now t \<equiv>
     record_event t (make_write_event log2 pid ts file make_pseudo_crypto_block rename) now"

definition locked_doc :: "string \<Rightarrow> string" where
  "locked_doc name = ''C:'' @ [CHR 0x5C] @ ''Users'' @ [CHR 0x5C] @ ''victim'' @ [CHR 0x5C] @ name @ ''.locked''"

definition test_tracker_burst_suspension_threshold :: "(fl \<Rightarrow> fl) \<Rightarrow> (bytes \<Rightarrow> bytes) \<Rightarrow> bool" where
  "test_tracker_burst_suspension_threshold log2 sha256 \<longleftrightarrow>
    (let t = record_write log2 1337 1000 (locked_doc ''doc1'') True 1030 tracker_new;
         t = record_write log2 1337 1010 (locked_doc ''doc2'') True 1030 t;
         t = record_write log2 1337 1020 (locked_doc ''doc3'') True 1030 t
     in case evaluate_pid sha256 t 1337 1030 of
          None \<Rightarrow> False
        | Some eval \<Rightarrow> length (distinct_files eval) = 3 \<and> total_renames eval = 3 \<and> is_anomalous (entropy_summary eval)
            \<and> recommended_action eval = SuspendAndAlert \<and> burst_evidence_count eval \<ge> 3)"

definition test_tracker_purges_old_events :: "(fl \<Rightarrow> fl) \<Rightarrow> (bytes \<Rightarrow> bytes) \<Rightarrow> bool" where
  "test_tracker_purges_old_events log2 sha256 \<longleftrightarrow>
    (let t = record_write log2 100 1000 (''C:'' @ [CHR 0x5C] @ ''doc1.txt'') False 1000 tracker_new;
         t = purge_expired t 1100
     in evaluate_pid sha256 t 100 1100 = None)"

definition test_tensor_matrix_format :: "(fl \<Rightarrow> fl) \<Rightarrow> (bytes \<Rightarrow> bytes) \<Rightarrow> bool" where
  "test_tensor_matrix_format log2 sha256 \<longleftrightarrow>
    (let t = record_write log2 200 1020 (''C:'' @ [CHR 0x5C] @ ''test.bin'') False 1030 tracker_new
     in case evaluate_pid sha256 t 200 1030 of
          None \<Rightarrow> False
        | Some eval \<Rightarrow> length (tensor_matrix eval) = NPU_TIME_SLOTS
            \<and> length (tensor_matrix eval ! 0) = NPU_FEATURES_PER_SLOT)"

lemma one_block_scan:
  assumes "log2_close log2" "length bs = 4096" "795 / 100 + 1 / 2 ^ 20 \<le> exact_entropy bs"
  obtains e where "block_entropy_scan log2 bs DEFAULT_BLOCK_SIZE = [e]" "encrypted_block e" "entropy_range e"
proof
  have "chunks 4096 bs = [bs]" using chunks_concat [of 4096 "[bs]"] assms(2) by simp
  moreover have "bs \<noteq> []" using assms(2) by auto
  ultimately show "block_entropy_scan log2 bs DEFAULT_BLOCK_SIZE = [shannon_entropy log2 bs]"
    by (simp add: block_entropy_scan_def kavach_const)
  show "encrypted_block (shannon_entropy log2 bs)" by (rule encrypted_by_entropy [OF assms(1)]) (use assms(2,3) in simp_all)
  show "entropy_range (shannon_entropy log2 bs)" by (rule shannon_range [OF assms(1)]) (use assms(2) in simp)
qed

lemma encrypted_blocks_anomalous:
  assumes "bl \<noteq> []" "\<And>a. a \<in> set bl \<Longrightarrow> encrypted_block a" "length bl < 2 ^ 53"
  shows "is_anomalous (differential_entropy bl)"
proof -
  have "high_blocks bl = length bl" using assms(2) by (simp add: high_blocks_def encrypted_block_def)
  then show ?thesis using assms by (intro sustained_anomalous) simp_all
qed

lemma encrypted_maximum:
  assumes "encrypted_block e" "entropy_range e" "e \<in> set bl" "\<And>a. a \<in> set bl \<Longrightarrow> entropy_range a"
  shows "fle ENTROPY_RANSOMWARE_THRESHOLD (max_entropy (differential_entropy bl))"
proof -
  have "encrypted_block (foldl (\<lambda>m e. if flt m e then e else m) (Fin 0) bl)"
    by (rule running_max [OF assms(1)]) (use assms in \<open>auto simp: entropy_range_def is_finite_def [of "Fin 0"]\<close>)
  moreover have "bl \<noteq> []" using assms(3) by auto
  ultimately show ?thesis by (simp add: encrypted_block_def differential_entropy_def Let_def)
qed

lemma burst_test_passes: "log2_close log2 \<Longrightarrow> test_tracker_burst_suspension_threshold log2 sha256"
proof -
  assume close: "log2_close log2"
  obtain e where scan: "block_entropy_scan log2 make_pseudo_crypto_block DEFAULT_BLOCK_SIZE = [e]" and e: "encrypted_block e" "entropy_range e"
    by (rule one_block_scan [OF close, of make_pseudo_crypto_block]) (use cipher_entropy_64 in \<open>simp_all add: make_pseudo_crypto_block_def\<close>)
  have "is_anomalous (differential_entropy [e, e, e])" by (rule encrypted_blocks_anomalous) (use e in auto)
  moreover have "fle (fround b64 (795 / 100)) (max_entropy (differential_entropy [e, e, e]))"
    using encrypted_maximum [OF e, of "[e, e, e]"] e by (simp add: ENTROPY_RANSOMWARE_THRESHOLD_def)
  ultimately show ?thesis
    by (simp add: test_tracker_burst_suspension_threshold_def evaluate_pid_def make_write_event_def scan [unfolded kavach_const] locked_doc_def
        tracker_new_def saturating_sub_def kavach_const count_if_def Let_def)
qed

lemma window_tests_pass: "test_tracker_purges_old_events log2 sha256" "test_tensor_matrix_format log2 sha256"
  by (simp_all add: test_tracker_purges_old_events_def test_tensor_matrix_format_def evaluate_pid_def make_write_event_def
      purge_expired_def tracker_new_def saturating_sub_def kavach_const slot_matrix_def bucket_row_def Let_def)

subsection \<open>The kernel file consumer\<close>

definition pipeline_event :: "u32 \<Rightarrow> nat \<Rightarrow> KernelFileEvent" where
  "pipeline_event pid i = \<lparr>kf_process_id = pid, kf_file_path = ''C:'' @ [CHR 0x5C] @ ''data'' @ [CHR 0x5C] @ ''file_'' @ show_nat i @ ''.locked'',
     kf_is_rename = False, kf_payload = lcg 4096 1664525 1013904223 16 (0x12345678 + word_of_nat i * 17 :: u32),
     kf_timestamp_unix_ms = 1700000000000 + word_of_nat i * 10\<rparr>"

fun pipeline_alert :: "(fl \<Rightarrow> fl) \<Rightarrow> (bytes \<Rightarrow> bytes) \<Rightarrow> u32 \<Rightarrow> KernelFileConsumer \<Rightarrow> nat list \<Rightarrow> bool" where
  \<comment> \<open>the loop of the test: \<open>alert_fired\<close> when it ends, with the assertion on the process\<close>
  "pipeline_alert log2 sha256 pid c [] \<longleftrightarrow> False"
| "pipeline_alert log2 sha256 pid c (i # is) \<longleftrightarrow>
    (case process_kernel_event log2 sha256 c (pipeline_event pid i) of
       (Some burst, c') \<Rightarrow>
         if recommended_action burst = SuspendAndAlert then burst_pid burst = pid else pipeline_alert log2 sha256 pid c' is
     | (None, c') \<Rightarrow> pipeline_alert log2 sha256 pid c' is)"

definition test_kernel_file_consumer_pipeline :: "(fl \<Rightarrow> fl) \<Rightarrow> (bytes \<Rightarrow> bytes) \<Rightarrow> bool" where
  "test_kernel_file_consumer_pipeline log2 sha256 \<longleftrightarrow>
     pipeline_alert log2 sha256 5000 (kernel_consumer_new entropy_engine_new) [1 ..< 5]"

lemma pipeline_blocks:
  assumes "log2_close log2" "i \<in> {1, 2, 3}"
  shows "\<exists>e. block_entropy_scan log2 (kf_payload (pipeline_event pid i)) DEFAULT_BLOCK_SIZE = [e] \<and> encrypted_block e"
proof -
  have "795 / 100 + 1 / 2 ^ 20 \<le> exact_entropy (kf_payload (pipeline_event pid i))"
    using assms(2) cipher_entropy(2-4) by (auto simp: pipeline_event_def generate_lcg)
  from one_block_scan [OF assms(1) _ this] show ?thesis by (auto simp: pipeline_event_def)
qed

definition pipeline_write :: "(fl \<Rightarrow> fl) \<Rightarrow> nat \<Rightarrow> FileOperationEvent" where
  "pipeline_write log2 i = (let ev = pipeline_event 5000 i in make_write_event log2 (kf_process_id ev) (kf_timestamp_unix_ms ev) (kf_file_path ev) (kf_payload ev) False)"

definition pipeline_state :: "(fl \<Rightarrow> fl) \<Rightarrow> nat list \<Rightarrow> KernelFileConsumer" where
  "pipeline_state log2 is = kernel_consumer_new \<lparr>tracker = tracker_new\<lparr>events := map (pipeline_write log2) is\<rparr>\<rparr>"

lemma pipeline_write_fields [simp]:
  "file_pid (pipeline_write log2 i) = 5000" "file_path (pipeline_write log2 i) = kf_file_path (pipeline_event 5000 i)"
  "file_timestamp_ms (pipeline_write log2 i) = 1700000000000 + word_of_nat i * 10"
  "block_entropies (pipeline_write log2 i) = block_entropy_scan log2 (kf_payload (pipeline_event 5000 i)) DEFAULT_BLOCK_SIZE"
  by (simp_all add: pipeline_write_def make_write_event_def pipeline_event_def)

lemma pipeline_step:
  assumes "set (is @ [i]) \<subseteq> {1, 2, 3}"
  shows "\<exists>burst. process_kernel_event log2 sha256 (pipeline_state log2 is) (pipeline_event 5000 i) = (Some burst, pipeline_state log2 (is @ [i]))
    \<and> burst_pid burst = 5000 \<and> recommended_action burst
      = (if is_anomalous (differential_entropy (concat (map (block_entropies \<circ> pipeline_write log2) (is @ [i]))))
          \<and> 3 \<le> length (remdups (map (\<lambda>i. kf_file_path (pipeline_event 5000 i)) (is @ [i]))) then SuspendAndAlert else Alert)"
proof -
  have "saturating_sub (1700000000000 + word_of_nat i * 10) 50 \<le> (1700000000000 + word_of_nat j * 10 :: u64)"
    if "j \<in> set (is @ [i])" for j using that assms by (auto simp: saturating_sub_def)
  then have "record_event (tracker (kf_engine (pipeline_state log2 is))) (pipeline_write log2 i) (kf_timestamp_unix_ms (pipeline_event 5000 i))
      = tracker (kf_engine (pipeline_state log2 (is @ [i])))"
    by (simp add: record_event_def purge_expired_def pipeline_state_def kernel_consumer_new_def tracker_new_def kavach_const
        pipeline_event_def [of 5000 i] filter_id_conv Let_def)
  moreover have "make_write_event log2 (kf_process_id (pipeline_event 5000 i)) (kf_timestamp_unix_ms (pipeline_event 5000 i))
      (kf_file_path (pipeline_event 5000 i)) (kf_payload (pipeline_event 5000 i)) (kf_is_rename (pipeline_event 5000 i)) = pipeline_write log2 i"
    "kf_process_id (pipeline_event 5000 i) = 5000" by (simp_all add: pipeline_write_def pipeline_event_def)
  ultimately show ?thesis
    by (simp add: process_kernel_event_def ingest_operation_def evaluate_pid_def Let_def o_def
        pipeline_state_def kernel_consumer_new_def tracker_new_def kavach_const filter_id_conv del: record_event_fields)
qed

lemma pipeline_test_passes: "log2_close log2 \<Longrightarrow> test_kernel_file_consumer_pipeline log2 sha256"
proof -
  assume close: "log2_close log2"
  let ?bl = "concat (map (block_entropies \<circ> pipeline_write log2) [1, 2, 3])" and ?p = "\<lambda>i. kf_file_path (pipeline_event 5000 i)"
  obtain e1 e2 e3 where e: "?bl = [e1, e2, e3]" "encrypted_block e1" "encrypted_block e2" "encrypted_block e3"
    using pipeline_blocks [OF close, of 1 5000] pipeline_blocks [OF close, of 2 5000] pipeline_blocks [OF close, of 3 5000] by auto
  have "is_anomalous (differential_entropy ?bl)"
    unfolding e(1) by (rule encrypted_blocks_anomalous) (use e(2-4) in auto)
  moreover have "show_nat 1 = ''1''" "show_nat 2 = ''2''" "show_nat 3 = ''3''" by code_simp+
  then have "length (remdups (map ?p [1, 2, 3])) = 3" by (simp add: pipeline_event_def)
  moreover have "[1 ..< 5] = [1, 2, 3, 4 :: nat]" "kernel_consumer_new entropy_engine_new = pipeline_state log2 []"
    by (simp_all add: upt_rec pipeline_state_def entropy_engine_new_def tracker_new_def)
  ultimately show ?thesis
    using pipeline_step [of "[]" 1 log2 sha256] pipeline_step [of "[1]" 2 log2 sha256] pipeline_step [of "[1, 2]" 3 log2 sha256]
    unfolding test_kernel_file_consumer_pipeline_def by (auto split: option.split)
qed

end
