(* ===== verification/Kavach_Regression_Net.thy ===== *)
theory Kavach_Regression_Net
  imports Kavach_Rhythm Kavach_Tensor
begin

section \<open>The unit tests of the flow analysis and the tensors\<close>

text \<open>
  The unit tests of \<open>flow.rs\<close>, \<open>detector.rs\<close> and \<open>tensor.rs\<close> as definitions that compute whether their assertions
  hold of the model, and the lemmas that they do, for every \<open>log10\<close> and every digest function.
\<close>

subsection \<open>Flows\<close>

definition packets_recorded :: "PacketMeta list \<Rightarrow> RollingFlow" where
  \<comment> \<open>a new flow with these packets recorded\<close>
  "packets_recorded ps = foldl (\<lambda>fw p. snd (record_packet fw p)) flow_new ps"

definition test_flow_key_creation :: bool where
  "test_flow_key_creation \<longleftrightarrow>
    (let key = \<lparr>local_addr = V4 0xC0A80164, local_port = 54321, remote_addr = V4 0x68153702,
           remote_port = 443, protocol = 6\<rparr>
     in local_port key = 54321 \<and> remote_port key = 443 \<and> protocol key = 6)"

definition window_packet :: "u64 \<Rightarrow> PacketDirection \<Rightarrow> PacketMeta" where
  "window_packet i dir = \<lparr>timestamp_ns = i * 1000000000, payload_bytes = 64, packet_direction = dir\<rparr>"

definition test_rolling_flow_window_accumulation :: bool where
  "test_rolling_flow_window_accumulation \<longleftrightarrow>
    (let first = map (\<lambda>i. window_packet (word_of_nat i) Outbound) [0 ..< 31];
         (ready, fw) = record_packet (packets_recorded first) (window_packet 31 Inbound);
         (_, fw') = record_packet fw (window_packet 32 Outbound)
     in \<not> is_full flow_new \<and> length (packets flow_new) = 0
        \<and> list_all (\<lambda>n. \<not> fst (record_packet (packets_recorded (take n first)) (first ! n))) [0 ..< 31]
        \<and> ready \<and> is_full fw \<and> length (packets fw) = FLOW_WINDOW_SIZE \<and> length (packets fw') = FLOW_WINDOW_SIZE)"

definition range_packet :: "nat \<Rightarrow> PacketMeta" where
  "range_packet i = \<lparr>timestamp_ns = 1000000000000 + word_of_nat i * 50000000,
     payload_bytes = (if even i then 128 else 1024), packet_direction = (if even i then Outbound else Inbound)\<rparr>"

definition test_tensor_matrix_dimensions_and_ranges :: "(fl \<Rightarrow> fl) \<Rightarrow> bool" where
  "test_tensor_matrix_dimensions_and_ranges log10 \<longleftrightarrow>
    (case flow_tensor_matrix log10 (packets_recorded (map range_packet [0 ..< FLOW_WINDOW_SIZE])) of
       None \<Rightarrow> False
     | Some matrix \<Rightarrow> length matrix = FLOW_WINDOW_SIZE \<and> length (matrix ! 0) = FLOW_FEATURES_PER_PACKET
         \<and> list_all (\<lambda>row. unit_score (row ! 0) \<and> unit_score (row ! 1)
             \<and> (row ! 2 = Fin 1 \<or> row ! 2 = Fin (- 1)) \<and> unit_score (row ! 3)) matrix)"

lemma recorded_flow: "packets_recorded ps = flow_of ps"
  by (induction ps rule: rev_induct) (simp_all add: packets_recorded_def flow_of_Nil record_packet_flow_of)

lemma window_test_passes: "test_rolling_flow_window_accumulation"
  by (simp add: test_rolling_flow_window_accumulation_def recorded_flow record_packet_flow_of list_all_iff Let_def del: upt_Suc)
    (simp add: flow_of_def is_full_def flow_new_def kavach_const)

lemma key_test_passes: "test_flow_key_creation"
  by (simp add: test_flow_key_creation_def)

lemma fadd_one_ge: "nonneg d \<Longrightarrow> fle (Fin 1) (fadd b64 (Fin 1) d)"
proof -
  assume d: "nonneg d"
  have "fle (Fin 1) (fround b64 (1 + r))" if "0 \<le> r" for r using fround_mono_nonneg [of 1 "1 + r" b64] that fround_one by (simp add: b64_def)
  from this [of 0] this [of "fval d"] d show ?thesis by (cases d) (auto simp: fadd_def fval_def is_finite_def fle_def)
qed

lemma span_pos: "\<exists>r. 0 < r \<and> fl_of_nat b32 (unat (max w 1)) = Fin r" for w :: u64
proof -
  define x where "x = (of_nat (unat (max w 1)) :: rat)"
  have "1 \<le> unat (max w 1)" "unat (max w 1) < 2 ^ 64" using unat_bound [of "max w 1"] by (simp_all add: word_le_nat_alt max_def)
  then have x: "1 \<le> x" "x < 2 ^ 64" unfolding x_def by (metis of_nat_1 of_nat_le_iff, metis of_nat_less_iff of_nat_numeral of_nat_power)
  then have "rpow2 (- 120) \<le> x" "x \<le> rpow2 120" by (simp_all add: rpow2_def)
  note e = b32_error [OF this]
  have "0 < rnd b32 x" using e(2) x(1) by linarith
  then show ?thesis using e(1) by (simp add: fl_of_nat_def x_def)
qed

lemma unit_score_cast: "unit_score a \<Longrightarrow> unit_score (fcast b32 a)"
proof -
  assume a: "unit_score a"
  have "unit_score (fround b32 x)" if "0 \<le> x" "x \<le> 1" for x using that fround_one(1) by (intro unit_score_fround) (simp_all add: b32_def)
  then show ?thesis using a by (cases a) (auto simp: fcast_def unit_score_def fle_def fval_def)
qed

definition row_in_range :: "fl list \<Rightarrow> bool" where
  "row_in_range row \<longleftrightarrow> length row = 4 \<and> unit_score (row ! 0) \<and> unit_score (row ! 1)
     \<and> (row ! 2 = Fin 1 \<or> row ! 2 = Fin (- 1)) \<and> unit_score (row ! 3)"

lemma packet_row_range:
  assumes "\<forall>a. fle (Fin 1) a \<longrightarrow> nonneg (log10 a)" "nonneg d" "0 < r"
  shows "row_in_range (packet_row log10 first (Fin r) d p)"
proof -
  have unit: "unit_score (fclamp (fdiv f a (Fin q)) (Fin 0) (Fin 1))" if "nonneg a" "0 < q" for f a q
    using nonneg_not_NaN [OF nonneg_fdiv [OF that, of f]] by (intro unit_score_clamp) simp
  have "nonneg (log10 (fadd b64 (Fin 1) d))" using assms(1) fadd_one_ge [OF assms(2)] by blast
  then show ?thesis using assms(3)
    by (simp add: row_in_range_def packet_row_def unit_score_cast unit fl_of_nat_nonneg split: PacketDirection.split)
qed

lemma ranges_test_passes:
  assumes "\<forall>a. fle (Fin 1) a \<longrightarrow> nonneg (log10 a)"
  shows "test_tensor_matrix_dimensions_and_ranges log10"
proof -
  let ?fw = "flow_of (map range_packet [0 ..< 32])"
  have full: "is_full ?fw" by (simp add: is_full_def flow_of_def kavach_const)
  obtain r where r: "0 < r" "fl_of_nat b32 (unat (max (saturating_sub (timestamp_ns (packets ?fw ! 31)) (timestamp_ns (packets ?fw ! 0))) 1)) = Fin r"
    using span_pos by blast
  have "nonneg (delta_ms p p')" for p p' unfolding delta_ms_def by (intro nonneg_fdiv fl_of_nat_nonneg) simp
  then have row: "row_in_range (packet_row log10 first (Fin r) (delta_ms p p') q)" "row_in_range (packet_row log10 first (Fin r) (Fin 0) q)" for first p p' q
    by (intro packet_row_range [OF assms _ r(1)]; simp)+
  have "length (packets ?fw) = 32" by (simp add: flow_of_def)
  then obtain m where m: "flow_tensor_matrix log10 ?fw = Some m" "length m = 32" "list_all row_in_range m"
    using full r(2) row by (auto simp: flow_tensor_matrix_def kavach_const Let_def list_all_iff case_prod_beta)
  then have "row_in_range (m ! 0)" by (simp add: list_all_length)
  then show ?thesis using m by (simp add: test_tensor_matrix_dimensions_and_ranges_def recorded_flow kavach_const row_in_range_def list_all_iff del: upt_Suc)
qed

subsection \<open>Rhythm\<close>

fun timed_packets :: "u64 \<Rightarrow> nat \<Rightarrow> u64 list \<Rightarrow> (nat \<Rightarrow> PacketDirection) \<Rightarrow> u32 \<Rightarrow> PacketMeta list" where
  \<comment> \<open>the loop of both tests: \<open>current_ts += int_ms * 1_000_000\<close>, one packet per interval\<close>
  "timed_packets current_ts i [] dir bytes = []"
| "timed_packets current_ts i (int_ms # is) dir bytes =
    (let current_ts = current_ts + int_ms * 1000000
     in \<lparr>timestamp_ns = current_ts, payload_bytes = bytes, packet_direction = dir i\<rparr> # timed_packets current_ts (Suc i) is dir bytes)"

definition intervals_ms :: "u64 list" where
  "intervals_ms = [9800, 10200, 10500, 9500, 10100, 9900, 10400, 9600, 10000, 10300, 9700, 10100, 9900, 10200, 9800, 10000,
     10500, 9600, 10200, 9700, 10100, 10400, 9800, 9900, 10000, 10300, 9700, 10200, 9800, 10100, 9900, 10000]"

definition beacon_packets :: "PacketMeta list" where
  "beacon_packets = timed_packets 1000000000000 0 intervals_ms (\<lambda>i. if even i then Outbound else Inbound) 128"

definition test_periodic_c2_beacon_detection :: "(fl \<Rightarrow> fl) \<Rightarrow> (bytes \<Rightarrow> bytes) \<Rightarrow> bool" where
  "test_periodic_c2_beacon_detection log10 sha256 \<longleftrightarrow>
    (case evaluate_beacon_rhythm log10 sha256 (packets_recorded beacon_packets) of
       None \<Rightarrow> False
     | Some r \<Rightarrow> flt (Fin 9500) (mean_delta_ms r) \<and> flt (mean_delta_ms r) (Fin 10500)
         \<and> flt (coefficient_of_variation r) (fround b64 (15 / 100)) \<and> flt (fround b64 (6 / 10)) (jitter_score r)
         \<and> is_c2_beacon r \<and> flt (fround b64 (6 / 10)) (beacon_confidence r))"

definition human_packets :: "PacketMeta list" where
  "human_packets = timed_packets 1000000000000 0 (map (\<lambda>i. if i = 20 then 30000 else 2) [0 ..< FLOW_WINDOW_SIZE]) (\<lambda>_. Inbound) 1400"

definition test_human_browsing_burst_not_flagged :: "(fl \<Rightarrow> fl) \<Rightarrow> (bytes \<Rightarrow> bytes) \<Rightarrow> bool" where
  "test_human_browsing_burst_not_flagged log10 sha256 \<longleftrightarrow>
    (case evaluate_beacon_rhythm log10 sha256 (packets_recorded human_packets) of
       None \<Rightarrow> False
     | Some r \<Rightarrow> flt (Fin 1) (coefficient_of_variation r) \<and> jitter_score r = Fin 0 \<and> \<not> is_c2_beacon r)"

lemma length_timed [simp]: "length (timed_packets t i is dir bytes) = length is"
  by (induction "is" arbitrary: t i) (simp_all add: Let_def)

lemma beacon_steady: "steady_window 10000 beacon_packets"
  by (simp add: steady_window_def beacon_packets_def intervals_ms_def interval_ms_def saturating_sub_def)

lemma beacon_average: "average interval_ms (zip beacon_packets (tl beacon_packets)) = 310400 / 31"
  by (simp add: average_def beacon_packets_def intervals_ms_def interval_ms_def saturating_sub_def)

lemma beacon_symmetry: "exact_symmetry (tl beacon_packets) = 31 / 32"
  by (simp add: exact_symmetry_def exact_balance_def beacon_packets_def intervals_ms_def)

lemma near_flt: "near a x e \<Longrightarrow> near b y d \<Longrightarrow> x + e < y - d \<Longrightarrow> flt a b"
  by (cases a; cases b) (auto simp: near_def flt_def fle_def is_finite_def fval_def)

lemma near_const: "0 \<le> x \<Longrightarrow> x \<le> 1 \<Longrightarrow> near (fround b64 x) x (1 / 1000)"
  by (rule near_weaken [OF f64.near_round [of x x 0 2]]) simp_all

lemma confidence_near:
  assumes "evaluate_beacon_rhythm log10 sha256 fw = Some r" "near (jitter_score r) 1 (37 / 100)" "near (symmetry_score r) (31 / 32) (1 / 1000)"
  shows "flt (fround b64 (6 / 10)) (beacon_confidence r)"
proof -
  have conf: "beacon_confidence r = fclamp (fadd b64 (fmul b64 (jitter_score r) (fround b64 (6 / 10)))
      (fmul b64 (symmetry_score r) (fround b64 (4 / 10)))) (Fin 0) (Fin 1)"
    using assms(1) by (auto simp: evaluate_beacon_rhythm_def Let_def split: if_splits option.splits)
  have j: "near (fmul b64 (jitter_score r) (fround b64 (6 / 10))) (1 * (6 / 10)) (225 / 1000)"
    by (rule near_weaken [OF f64.near_mul [OF assms(2) near_const, of _ 4]]) simp_all
  have s: "near (fmul b64 (symmetry_score r) (fround b64 (4 / 10))) (31 / 32 * (4 / 10)) (2 / 1000)"
    by (rule near_weaken [OF f64.near_mul [OF assms(3) near_const, of _ 4]]) simp_all
  have "near (fadd b64 (fmul b64 (jitter_score r) (fround b64 (6 / 10))) (fmul b64 (symmetry_score r) (fround b64 (4 / 10))))
      (1 * (6 / 10) + 31 / 32 * (4 / 10)) (23 / 100)"
    by (rule near_weaken [OF f64.near_add [OF j s, of 4]]) simp_all
  from near_flt [OF near_const near_clamp [OF this]] show ?thesis by (simp add: conf)
qed

lemma beacon_test_passes: "test_periodic_c2_beacon_detection log10 sha256"
proof -
  let ?fw = "flow_of beacon_packets"
  have ps: "packets ?fw = beacon_packets" by (simp add: flow_of_def last_n_def beacon_packets_def intervals_ms_def)
  have "steady_window 10000 (packets ?fw)" unfolding ps by (rule beacon_steady)
  from steady_flow_scores [OF this, of log10 sha256] steady_flow_flagged [OF this, of log10 sha256]
  obtain r where r: "evaluate_beacon_rhythm log10 sha256 ?fw = Some r" "is_c2_beacon r" "near (mean_delta_ms r) (310400 / 31) (1 / 2 ^ 22)"
    "near (coefficient_of_variation r) 0 (1 / 8)" "near (jitter_score r) 1 (37 / 100)" "near (symmetry_score r) (31 / 32) (1 / 1000)"
    by (auto simp: ps beacon_average beacon_symmetry)
  have "flt (Fin 9500) (mean_delta_ms r)" "flt (mean_delta_ms r) (Fin 10500)"
    "flt (coefficient_of_variation r) (fround b64 (15 / 100))" "flt (fround b64 (6 / 10)) (jitter_score r)"
    using near_flt [OF near_exact r(3)] near_flt [OF r(3) near_exact] near_flt [OF r(4) near_const] near_flt [OF near_const r(5)] by simp_all
  moreover have "flt (fround b64 (6 / 10)) (beacon_confidence r)" by (rule confidence_near [OF r(1,5,6)])
  ultimately show ?thesis using r(1,2) by (simp add: test_periodic_c2_beacon_detection_def recorded_flow)
qed

lemma timed_intervals:
  assumes "unat current_ts + 1000000 * sum_list (map unat is) < 2 ^ 64" "timestamp_ns p = current_ts"
  shows "map interval_ms (zip (p # timed_packets current_ts i is dir bytes) (timed_packets current_ts i is dir bytes))
    = map (\<lambda>d. of_nat (unat d)) is"
  using assms
proof (induction "is" arbitrary: current_ts i p)
  case (Cons d ds)
  have m: "unat (d * 1000000) = unat d * 1000000" using Cons.prems(1) by (simp add: unat_word_ariths)
  then have t: "unat (current_ts + d * 1000000) = unat current_ts + unat d * 1000000"
    using Cons.prems(1) by (subst unat_add_no_wrap) simp_all
  have "interval_ms (p, \<lparr>timestamp_ns = current_ts + d * 1000000, payload_bytes = bytes, packet_direction = dir i\<rparr>) = of_nat (unat d)"
    using Cons.prems(2) t by (simp add: interval_ms_def unat_saturating_sub)
  then show ?case using Cons.IH [of "current_ts + d * 1000000"] Cons.prems(1) t by (simp add: Let_def algebra_simps)
qed simp

lemma human_intervals:
  "map interval_ms (zip human_packets (tl human_packets)) = replicate 19 2 @ 30000 # replicate 11 2"
proof -
  let ?is = "map (\<lambda>i. if i = 20 then 30000 else 2) [1 ..< 32] :: u64 list"
  have split: "[0 ..< 32] = 0 # [1 ..< 32]" "[1 ..< 32] = [1 ..< 20] @ 20 # [21 ..< 32 :: nat]"
    using upt_conv_Cons [of 0 32] upt_add_eq_append [of 1 20 12] upt_conv_Cons [of 20 32] by simp_all
  then have ps: "human_packets = \<lparr>timestamp_ns = 1000002000000, payload_bytes = 1400, packet_direction = Inbound\<rparr> # timed_packets 1000002000000 1 ?is (\<lambda>_. Inbound) 1400"
    by (simp add: human_packets_def kavach_const del: upt_Suc)
  have const: "map (\<lambda>i. if i = 20 then 30000 else 2) [m ..< n] = replicate (n - m) (2 :: u64)" if "20 < m \<or> n \<le> 20" for m n
  proof -
    have "map (\<lambda>i. if i = 20 then 30000 else 2) [m ..< n] = map (\<lambda>_. 2 :: u64) [m ..< n]" using that by (intro map_cong) auto
    then show ?thesis by (simp add: map_replicate_const)
  qed
  have "20 < (21 :: nat)" by simp
  then have "?is = replicate (20 - 1) 2 @ 30000 # replicate (32 - 21) 2"
    unfolding split(2) by (simp only: map_append list.map const order.refl if_True simp_thms)
  then have "?is = replicate 19 2 @ 30000 # replicate 11 2" by simp
  then show ?thesis unfolding ps list.sel(3) by (subst timed_intervals) (simp_all add: sum_list_replicate)
qed

lemma human_average: "average f (zip human_packets (tl human_packets)) = h" if "f = (\<lambda>z. g (interval_ms z))" "h = (30 * g 2 + g 30000) / 31"
proof -
  have "map f zs = map g (map interval_ms zs)" for zs using that(1) by simp
  then have "map f (zip human_packets (tl human_packets)) = map g (replicate 19 2 @ 30000 # replicate 11 2)" by (simp only: human_intervals)
  moreover have "length (zip human_packets (tl human_packets)) = 31" using arg_cong [OF human_intervals, of length] by simp
  ultimately show ?thesis using that(2) by (simp add: average_def sum_list_replicate)
qed

lemma human_test_passes: "test_human_browsing_burst_not_flagged log10 sha256"
proof -
  let ?fw = "flow_of human_packets" and ?zs = "zip human_packets (tl human_packets)" and ?g = "\<lambda>(p, p'). delta_ms p p'"
  have len: "length human_packets = 32" by (simp add: human_packets_def kavach_const)
  then have ps: "packets ?fw = human_packets" by (simp add: flow_of_def last_n_def)
  obtain r where r: "evaluate_beacon_rhythm log10 sha256 ?fw = Some r" using full_evaluates [of ?fw] len by (auto simp: is_full_def ps kavach_const)
  have vals: "interval_ms z \<in> {2, 30000}" if "z \<in> set ?zs" for z
  proof -
    have "interval_ms z \<in> set (map interval_ms ?zs)" using that by simp
    then show ?thesis unfolding human_intervals by auto
  qed
  have avg: "average interval_ms ?zs = 30060 / 31" by (rule human_average [of _ "\<lambda>x. x"]) simp_all
  have delta: "near (?g z) (interval_ms z) (1 / 2 ^ 28)" if "z \<in> set ?zs" for z
    using delta_ms_near [of "fst z" "snd z"] vals [OF that] by (auto simp: case_prod_beta)
  have "near (float_mean ?g ?zs) (average interval_ms ?zs) (1 / 2 ^ 28 + 2 ^ 20 / 2 ^ 52)"
    by (rule float_mean_near [where B = 30000, OF delta]) (use vals len in force)+
  then have mean: "near (float_mean ?g ?zs) (30060 / 31) (1 / 2 ^ 22)" unfolding avg by (rule near_weaken) simp
  then obtain c where c: "float_mean ?g ?zs = Fin c" "960 \<le> c" "c \<le> 980" using near_pos_Fin [OF mean] by force
  have "near (float_variance ?g ?zs) (average (\<lambda>z. (interval_ms z - average interval_ms ?zs) * (interval_ms z - average interval_ms ?zs)) ?zs) 6"
    by (rule interval_variance_near) (use delta vals len mean in \<open>force simp: avg\<close>)+
  moreover have "average (\<lambda>z. (interval_ms z - 30060 / 31) * (interval_ms z - 30060 / 31)) ?zs = (30 * ((2 - 30060 / 31) * (2 - 30060 / 31)) + (30000 - 30060 / 31) * (30000 - 30060 / 31)) / 31"
    by (rule human_average [of _ "\<lambda>x. (x - 30060 / 31) * (x - 30060 / 31)"]) simp_all
  ultimately have v: "near (float_variance ?g ?zs) (26996400120 / 961) 6" unfolding avg by simp
  have "\<bar>26996400120 / 961 - 28091987\<bar> \<le> (1 :: rat)" by simp
  from near_shift [OF v this] have var: "is_finite (float_variance ?g ?zs)" "5000 * 5000 \<le> fval (float_variance ?g ?zs)" "fval (float_variance ?g ?zs) \<le> 6000 * 6000"
    unfolding near_def by linarith+
  have sd: "is_finite (fsqrt b64 (float_variance ?g ?zs))" "4999 \<le> fval (fsqrt b64 (float_variance ?g ?zs))" "fval (fsqrt b64 (float_variance ?g ?zs)) \<le> 6001"
    using fsqrt_upper [OF var(1) _ var(3)] fsqrt_lower [OF var(1,2)] var(2,3) by simp_all
  let ?q = "fval (fsqrt b64 (float_variance ?g ?zs)) / c"
  have q: "5 \<le> ?q" "?q \<le> 7" using sd(2,3) c(2,3) by (simp_all add: pos_le_divide_eq pos_divide_le_eq)
  have "(\<bar>fval (fsqrt b64 (float_variance ?g ?zs))\<bar> + 0) / c + 1 = ?q + 1" using sd(2) by simp
  also have "\<dots> \<le> 8" using q(2) by linarith
  finally have M: "(\<bar>fval (fsqrt b64 (float_variance ?g ?zs))\<bar> + 0) / c + 1 \<le> 8" .
  have "0 < c" using c(2) by simp
  have "near (fdiv b64 (fsqrt b64 (float_variance ?g ?zs)) (Fin c)) ?q (0 / c + 8 * (1 / 2 ^ 53))"
    by (rule f64.near_div [OF near_self [OF sd(1)] \<open>0 < c\<close> M]) simp
  then have "near (fdiv b64 (fsqrt b64 (float_variance ?g ?zs)) (Fin c)) ?q (1 / 100)" by (rule near_weaken) simp
  then have cv: "near (coefficient_of_variation r) ?q (1 / 100)"
    using rhythm_statistics(2) [OF r \<open>0 < c\<close>] c(1) by (simp only: ps)
  have J: "near JITTER_CV_MAX (35 / 100) (1 / 1000)" unfolding JITTER_CV_MAX_def by (rule near_const) simp_all
  have far: "35 / 100 + 1 / 1000 < ?q - 1 / 100" "1 + 0 < ?q - 1 / 100" using q(1) by linarith+
  have "\<not> fle (coefficient_of_variation r) JITTER_CV_MAX" by (rule near_le_fle [OF J cv far(1)])
  then have "jitter_score r = Fin 0" by (simp add: rhythm_scores(4) [OF r] jitter_of_def)
  moreover have "flt (Fin 1) (coefficient_of_variation r)" by (rule near_flt [OF near_exact cv far(2)])
  ultimately show ?thesis
    using r rhythm_scores(5) [OF r] by (simp add: test_human_browsing_burst_not_flagged_def recorded_flow fle_def fval_def)
qed

subsection \<open>Tensors\<close>

definition test_quantize_dequantize_roundtrip :: bool where
  "test_quantize_dequantize_roundtrip \<longleftrightarrow>
    (let params = \<lparr>scale = fround b32 (1 / 100), zero_point = 0\<rparr>;
         original = Fin (1 / 2);
         q = quantize_f32_to_i8 original params;
         recovered = dequantize_i8_to_f32 q params
     in q = 50 \<and> flt (fabs (fsub b32 recovered original)) (fround b32 (1 / 10000)))"

definition test_quantize_clamping_limits :: bool where
  "test_quantize_clamping_limits \<longleftrightarrow>
    (let params = \<lparr>scale = Fin 1, zero_point = 0\<rparr>
     in quantize_f32_to_i8 (Fin 200) params = 127 \<and> quantize_f32_to_i8 (Fin (- 200)) params = - 128)"

definition test_io_input_tensor_byte_layout :: bool where
  "test_io_input_tensor_byte_layout \<longleftrightarrow>
    (let bytes = io_as_bytes (io_from_f32_matrix (replicate 10 (replicate 4 (Fin (1 / 2)))) quantization_default)
     in length bytes = 40 \<and> bytes ! 0 = bytes ! 39)"

definition test_net_input_tensor_byte_layout :: bool where
  "test_net_input_tensor_byte_layout \<longleftrightarrow>
     length (net_as_bytes (net_from_f32_matrix (replicate 32 (replicate 4 (Fin (1 / 4)))) quantization_default)) = 128"

definition test_audit_input_tensor_byte_layout :: bool where
  "test_audit_input_tensor_byte_layout \<longleftrightarrow>
     length (audit_as_bytes (audit_from_f32_matrix (replicate 16 (replicate 4 (Fin (3 / 4)))) quantization_default)) = 64"

lemma constant_bytes: "rows_as_bytes (quantize_matrix (replicate n (replicate m v)) p) = replicate (n * m) (word_of_int (quantize_f32_to_i8 v p))"
  by (induction n) (simp_all add: rows_as_bytes_def quantize_matrix_def replicate_add)

lemma layout_tests_pass: "test_io_input_tensor_byte_layout" "test_net_input_tensor_byte_layout" "test_audit_input_tensor_byte_layout"
  by (simp_all add: test_io_input_tensor_byte_layout_def test_net_input_tensor_byte_layout_def test_audit_input_tensor_byte_layout_def
      io_as_bytes_def net_as_bytes_def audit_as_bytes_def io_from_f32_matrix_def net_from_f32_matrix_def audit_from_f32_matrix_def
      constant_bytes Let_def)

lemma round_away_near:
  assumes "near a (of_int k) (45 / 100)" "k \<noteq> 0"
  shows "fround_away a = Fin (of_int k)"
proof -
  have "1 \<le> \<bar>of_int k :: rat\<bar>" using assms(2) by (metis abs_ge_self of_int_1_le_iff of_int_abs zero_less_abs_iff int_one_le_iff_zero_less)
  then obtain r where r: "a = Fin r" "\<bar>r - of_int k\<bar> \<le> 45 / 100" using assms(1) by (cases a) (auto simp: near_def is_finite_def fval_def)
  consider "0 < k" "0 < r" "floor (\<bar>r\<bar> + 1 / 2) = k" | "k < 0" "r < 0" "floor (\<bar>r\<bar> + 1 / 2) = - k"
  proof (cases "0 < k")
    case True
    then have "1 \<le> (of_int k :: rat)" by simp
    then have "0 < r" "of_int k \<le> \<bar>r\<bar> + 1 / 2" "\<bar>r\<bar> + 1 / 2 < of_int k + 1" using r(2) by linarith+
    then show thesis using that(1) [OF True] by (simp add: floor_unique)
  next
    case False
    then have k: "k < 0" "of_int k \<le> (- 1 :: rat)" using assms(2) by (simp, metis of_int_le_iff of_int_minus of_int_1 linorder_neqE_linordered_idom zle_diff1_eq diff_0)
    then have "r < 0" "of_int (- k) \<le> \<bar>r\<bar> + 1 / 2" "\<bar>r\<bar> + 1 / 2 < of_int (- k) + 1" using r(2) by linarith+
    then show thesis using that(2) [OF k(1)] by (simp add: floor_unique)
  qed
  then show ?thesis by cases (simp_all add: r(1) fround_away_def Let_def)
qed

lemma quantize_int:
  assumes "near (fdiv b32 v (scale p)) (of_int k) (45 / 100)" "zero_point p = 0" "k \<noteq> 0" "\<bar>k\<bar> \<le> 1000"
  shows "quantize_f32_to_i8 v p = max (- 128) (min 127 k)"
proof -
  have "fadd b32 (Fin (of_int k)) (fl_of_int b32 0) = Fin (of_int k)"
    using fl_of_int_exact [of k] assms(3,4) by (simp add: fl_of_int_exact [of 0] fl_of_int_def [of b32 k] fadd_def is_finite_def fval_def)
  then show ?thesis
    using assms(2) by (simp add: quantize_f32_to_i8_def round_away_near [OF assms(1,3)] Let_def fclamp_def flt_def fle_def fval_def fl_trunc_def)
qed

lemma clamping_test_passes: "test_quantize_clamping_limits"
proof -
  have "near (fdiv b32 (Fin x) (Fin 1)) (x / 1) (45 / 100)" if "\<bar>x\<bar> \<le> 200" for x
    by (rule near_weaken [OF f32.near_div [OF near_exact, of 1 x 201]]) (use that in simp_all)
  from this [of 200] this [of "- 200"] show ?thesis
    using quantize_int [of "Fin 200" "\<lparr>scale = Fin 1, zero_point = 0\<rparr>" 200] quantize_int [of "Fin (- 200)" "\<lparr>scale = Fin 1, zero_point = 0\<rparr>" "- 200"]
    by (simp add: test_quantize_clamping_limits_def Let_def)
qed

lemma roundtrip_test_passes: "test_quantize_dequantize_roundtrip"
proof -
  let ?s = "fround b32 (1 / 100)"
  have s: "near ?s (1 / 100) (1 / 2 ^ 22)" by (rule near_weaken [OF f32.near_round [of "1 / 100" "1 / 100" 0 2]]) simp_all
  then obtain r where r: "?s = Fin r" "\<bar>r - 1 / 100\<bar> \<le> 1 / 2 ^ 22" using near_pos_Fin [OF s] by (auto simp: near_def fval_def)
  moreover have "1 / 2 ^ 22 \<le> (1 / 4000000 :: rat)" by simp
  ultimately have d: "\<bar>r - 1 / 100\<bar> \<le> 1 / 4000000" by linarith
  then have r': "99 / 10000 \<le> r" "r \<le> 101 / 10000" by linarith+
  have "5 - 500 * r \<le> 1 * r" "500 * r - 5 \<le> 1 * r" using d r'(1) by linarith+
  then have "1 / 2 / r \<le> 50 + 1 / 10" "50 - 1 / 10 \<le> 1 / 2 / r" using r'(1) by (simp_all add: pos_divide_le_eq pos_le_divide_eq algebra_simps)
  then have e: "\<bar>1 / 2 / r - 50\<bar> \<le> 1 / 10" by linarith
  have n: "near (fdiv b32 (Fin (1 / 2)) (Fin r)) (1 / 2 / r) (0 / r + 100 * (1 / 2 ^ 24))"
    by (rule f32.near_div [OF near_exact]) (use r'(1) in \<open>simp_all add: pos_divide_le_eq\<close>)
  have "near (fdiv b32 (Fin (1 / 2)) (Fin r)) 50 (45 / 100)" by (rule near_weaken [OF near_shift [OF n e]]) simp
  then have q: "quantize_f32_to_i8 (Fin (1 / 2)) \<lparr>scale = ?s, zero_point = 0\<rparr> = 50"
    using quantize_int [of "Fin (1 / 2)" "\<lparr>scale = ?s, zero_point = 0\<rparr>" 50] by (simp add: r(1))
  have fifty: "fsub b32 (fl_of_int b32 50) (fl_of_int b32 0) = Fin 50"
    using fl_of_int_exact [of 50] fl_of_int_exact [of 0]
    by (simp add: fl_of_int_def fsub_def fadd_def fneg_def is_finite_def fval_def)
  have n: "near (fmul b32 (Fin 50) (Fin r)) (50 * r) (2 / 2 ^ 24)"
    by (rule near_weaken [OF f32.near_mul [OF near_exact near_exact, of _ _ 2]]) (use r' in simp_all)
  have e: "\<bar>50 * r - 1 / 2\<bar> \<le> 2 / 100000" using d by linarith
  have rec: "near (fmul b32 (Fin 50) (Fin r)) (1 / 2) (3 / 100000)" by (rule near_weaken [OF near_shift [OF n e]]) simp
  have "near (fsub b32 (fmul b32 (Fin 50) (Fin r)) (Fin (1 / 2))) (1 / 2 - 1 / 2) (4 / 100000)"
    by (rule near_weaken [OF f32.near_sub [OF rec near_exact, of _ 3]]) simp_all
  then have "near (fabs (fsub b32 (fmul b32 (Fin 50) (Fin r)) (Fin (1 / 2)))) 0 (4 / 100000)"
    by (cases "fsub b32 (fmul b32 (Fin 50) (Fin r)) (Fin (1 / 2))") (auto simp: near_def fabs_def is_neg_def fneg_def is_finite_def fval_def)
  moreover have "near (fround b32 (1 / 10000)) (1 / 10000) (1 / 100000)"
    by (rule near_weaken [OF f32.near_round [of "1 / 10000" "1 / 10000" 0 2]]) simp_all
  ultimately have "flt (fabs (fsub b32 (fmul b32 (Fin 50) (Fin r)) (Fin (1 / 2)))) (fround b32 (1 / 10000))"
    by (rule near_flt) simp
  then show ?thesis using q fifty by (simp add: test_quantize_dequantize_roundtrip_def dequantize_i8_to_f32_def r(1) Let_def)
qed

end
