(* ===== verification/Kavach_Regression_Core.thy ===== *)
theory Kavach_Regression_Core
  imports Kavach_Alert Kavach_Service Kavach_Sentinel Kavach_Regression_Net
begin

section \<open>The unit tests of configuration, inference and service\<close>

text \<open>
  The unit tests of \<open>config.rs\<close>, \<open>npu.rs\<close>, \<open>npu_backend.rs\<close> and \<open>keys.rs\<close> of the core, of \<open>src/service.rs\<close> and the status
  tests of \<open>src/main.rs\<close> as definitions that compute whether their assertions hold of the model, and the lemmas
  that they do. The TOML reader, the machine and the crypto library are arguments; what a lemma needs of them is a
  hypothesis: the configuration the reader makes of a test's text, or whether the bundle on disk verifies.
\<close>

subsection \<open>Configuration\<close>

definition unlines :: "string list \<Rightarrow> string" where
  "unlines ls = concat (map (\<lambda>l. l @ NL) ls)"

definition SAMPLE_VALID_TOML :: string where
  "SAMPLE_VALID_TOML = NL @ unlines [
     ''artifact_version = { major = 1, minor = 0 }'', [],
     ''[containment]'', ''hard_kill_enabled = false'', ''minimum_corroborating_evidence = 3'', ''suspend_action_ttl_seconds = 3600'', [],
     ''[allowlist]'', ''manifest_path = '' @ [CHR 0x22] @ ''policy/allowlist.json'' @ [CHR 0x22], ''required_policy_generation = 7'', [],
     ''[model]'', ''bundle_directory = '' @ [CHR 0x22] @ ''models/active'' @ [CHR 0x22], ''minimum_rollback_generation = 42'',
     ''minimum_keyring_generation = 9'', ''allow_last_known_good = true'', [],
     ''[wsl]'', ''correlation_window_ms = 250'', ''maximum_clock_uncertainty_ms = 50'', ''clock_sync_interval_seconds = 30'',
     ''clock_sync_stale_after_seconds = 90'', ''ambiguous_vm_containment_enabled = false'']"

definition VERSION_1 :: string where
  "VERSION_1 = ''artifact_version = { major = 1, minor = 0 }''"

definition test_valid_config_parsing :: "(string \<Rightarrow> string + KavachConfig) \<Rightarrow> bool" where
  "test_valid_config_parsing parse_toml \<longleftrightarrow>
    (case from_toml_str parse_toml SAMPLE_VALID_TOML of
       Err _ \<Rightarrow> False
     | Ok cfg \<Rightarrow> major (config_version cfg) = 1 \<and> cfg_minimum_corroborating_evidence (containment cfg) = 3
         \<and> suspend_action_ttl_seconds (containment cfg) = 3600 \<and> required_policy_generation (allowlist cfg) = 7
         \<and> minimum_rollback_generation (model cfg) = 42 \<and> cfg_correlation_window_ms (wsl cfg) = 250
         \<and> maximum_clock_uncertainty_ms (wsl cfg) = 50)"

definition test_minimal_config_uses_defaults :: "(string \<Rightarrow> string + KavachConfig) \<Rightarrow> bool" where
  "test_minimal_config_uses_defaults parse_toml \<longleftrightarrow> from_toml_str parse_toml (unlines [VERSION_1]) = Ok safe_defaults"

definition test_unsupported_major_version :: "(string \<Rightarrow> string + KavachConfig) \<Rightarrow> bool" where
  "test_unsupported_major_version parse_toml \<longleftrightarrow>
     from_toml_str parse_toml (unlines [''artifact_version = { major = 2, minor = 0 }'']) = Err (ConfigError.UnsupportedMajorVersion 2)"

definition invalid_bounds :: "ConfigError + KavachConfig \<Rightarrow> bool" where
  "invalid_bounds r = (case r of Err (InvalidBounds _) \<Rightarrow> True | _ \<Rightarrow> False)"

definition test_invalid_suspend_ttl_bounds :: "(string \<Rightarrow> string + KavachConfig) \<Rightarrow> bool" where
  "test_invalid_suspend_ttl_bounds parse_toml \<longleftrightarrow>
     invalid_bounds (from_toml_str parse_toml (NL @ unlines [VERSION_1, ''[containment]'', ''suspend_action_ttl_seconds = 59'']))"

definition test_invalid_wsl_correlation_window :: "(string \<Rightarrow> string + KavachConfig) \<Rightarrow> bool" where
  "test_invalid_wsl_correlation_window parse_toml \<longleftrightarrow>
     invalid_bounds (from_toml_str parse_toml (NL @ unlines [VERSION_1, ''[wsl]'', ''correlation_window_ms = 300'']))"

definition test_invalid_clock_sync_interval :: "(string \<Rightarrow> string + KavachConfig) \<Rightarrow> bool" where
  "test_invalid_clock_sync_interval parse_toml \<longleftrightarrow>
     invalid_bounds (from_toml_str parse_toml (NL @ unlines [VERSION_1, ''[wsl]'', ''clock_sync_interval_seconds = 60'']))"

definition reads_tests :: "(string \<Rightarrow> string + KavachConfig) \<Rightarrow> bool" where
  \<comment> \<open>TOML with serde: the named fields, the field defaults for the others\<close>
  "reads_tests parse_toml \<longleftrightarrow>
     parse_toml SAMPLE_VALID_TOML = Ok (safe_defaults\<lparr>allowlist := (allowlist safe_defaults)\<lparr>required_policy_generation := 7\<rparr>,
       model := (model safe_defaults)\<lparr>minimum_rollback_generation := 42, minimum_keyring_generation := 9\<rparr>\<rparr>)
   \<and> parse_toml (unlines [VERSION_1]) = Ok safe_defaults
   \<and> parse_toml (unlines [''artifact_version = { major = 2, minor = 0 }'']) = Ok (safe_defaults\<lparr>config_version := \<lparr>major = 2, minor = 0\<rparr>\<rparr>)
   \<and> parse_toml (NL @ unlines [VERSION_1, ''[containment]'', ''suspend_action_ttl_seconds = 59''])
       = Ok (safe_defaults\<lparr>containment := (containment safe_defaults)\<lparr>suspend_action_ttl_seconds := 59\<rparr>\<rparr>)
   \<and> parse_toml (NL @ unlines [VERSION_1, ''[wsl]'', ''correlation_window_ms = 300''])
       = Ok (safe_defaults\<lparr>wsl := (wsl safe_defaults)\<lparr>cfg_correlation_window_ms := 300\<rparr>\<rparr>)
   \<and> parse_toml (NL @ unlines [VERSION_1, ''[wsl]'', ''clock_sync_interval_seconds = 60''])
       = Ok (safe_defaults\<lparr>wsl := (wsl safe_defaults)\<lparr>clock_sync_interval_seconds := 60\<rparr>\<rparr>)"

lemma config_tests_pass:
  assumes "reads_tests parse_toml"
  shows "test_valid_config_parsing parse_toml" "test_minimal_config_uses_defaults parse_toml" "test_unsupported_major_version parse_toml"
    "test_invalid_suspend_ttl_bounds parse_toml" "test_invalid_wsl_correlation_window parse_toml" "test_invalid_clock_sync_interval parse_toml"
  using assms
  by (simp_all add: reads_tests_def test_valid_config_parsing_def test_minimal_config_uses_defaults_def test_unsupported_major_version_def
      test_invalid_suspend_ttl_bounds_def test_invalid_wsl_correlation_window_def test_invalid_clock_sync_interval_def invalid_bounds_def
      from_toml_str_def map_err_def validate_def safe_defaults_def containment_default_def allowlist_default_def model_default_def
      wsl_default_def kavach_const)

subsection \<open>Inference\<close>

definition positive_score :: "fl \<Rightarrow> bool" where
  "positive_score score \<longleftrightarrow> flt (Fin 0) score \<and> fle score (Fin 1)"

definition npu_sample_manifest :: ModelManifest where
  "npu_sample_manifest = (let digest = ''0123456789abcdef0123456789abcdef0123456789abcdef0123456789abcdef'' in
     \<lparr>manifest_version = \<lparr>major = 1, minor = 0\<rparr>, bundle_version = ''1.0.0'', rollback_generation = 42,
      created_at = ''2026-09-09T00:00:00Z'', manifest_key_id = ''reference-model-2026-b'',
      onnx = \<lparr>onnx_file = ''kavach_multitask_int8.onnx'', onnx_sha256 = digest, opset = 21, quantization = ''int8_qdq''\<rparr>,
      tensors = [], compatibility = \<lparr>detector = \<lparr>min_inclusive = ''0.1.0'', max_exclusive = ''0.2.0''\<rparr>,
        onnx_runtime = \<lparr>min_inclusive = ''1.20.0'', max_exclusive = ''1.22.0''\<rparr>\<rparr>,
      evaluation_report_sha256 = digest, sbom_sha256 = digest\<rparr>)"

definition io_test_tensor :: IoInputTensor where
  "io_test_tensor = io_from_f32_matrix (replicate 10 (replicate 4 (fround b32 (8 / 10)))) quantization_default"

definition test_active_session_inference :: "npu_os \<Rightarrow> ('s, 't) ort option \<Rightarrow> ('s, 't) ort \<Rightarrow> ort_state \<Rightarrow> bool" where
  "test_active_session_inference os feature lib st \<longleftrightarrow>
    (let session = fst (new_active os feature st npu_sample_manifest)
     in \<not> is_degraded session
        \<and> (case fst (evaluate_io_head lib session io_test_tensor) of Ok score \<Rightarrow> positive_score score | Err _ \<Rightarrow> False))"

definition test_degraded_session_fails_safe :: "npu_os \<Rightarrow> ('s, 't) ort option \<Rightarrow> ('s, 't) ort \<Rightarrow> ort_state \<Rightarrow> bool" where
  "test_degraded_session_fails_safe os feature lib st \<longleftrightarrow>
    (let session = fst (new_degraded os feature st (ManifestSignatureInvalid ''tampered'') 42 ''reference-model-2026-b'');
         status = format_status_report session
     in is_degraded session
        \<and> (case fst (evaluate_io_head lib session io_test_tensor) of Err (DegradedError _) \<Rightarrow> True | _ \<Rightarrow> False)
        \<and> contains ''Kavach-NPU status: DEGRADED_OBSERVER'' status
        \<and> contains ''model.reason: manifest_signature_invalid'' status
        \<and> contains ''enforcement: DISABLED (model-driven actions denied)'' status)"

definition test_npu_engine_default_fallback :: "npu_os \<Rightarrow> ('s, 't) ort option \<Rightarrow> ort_state \<Rightarrow> bool" where
  "test_npu_engine_default_fallback os feature st \<longleftrightarrow>
    (let eng = fst (engine_new os feature st)
     in active_inferences eng = 0 \<and> show_backend (selected_backend (info eng)) \<noteq> [])"

definition three_scores :: "('s, 't) ort \<Rightarrow> 's NpuEngine \<Rightarrow> bool \<times> 's NpuEngine" where
  "three_scores lib eng =
    (let (score, eng) = run_io_inference lib eng (replicate 10 [64, 0, 0, 32]);
         (net_score, eng) = run_net_inference lib eng (replicate 32 [50, 10, 0, 0]);
         (audit_score, eng) = run_audit_inference lib eng (replicate 16 [40, 0, 0, 0])
     in (positive_score score \<and> positive_score net_score \<and> positive_score audit_score, eng))"

definition test_npu_engine_inference_dispatch :: "npu_os \<Rightarrow> ('s, 't) ort option \<Rightarrow> ('s, 't) ort \<Rightarrow> ort_state \<Rightarrow> bool" where
  "test_npu_engine_inference_dispatch os feature lib st \<longleftrightarrow>
    (let (scores, eng) = three_scores lib (fst (engine_new os feature st))
     in scores \<and> active_inferences eng = 3)"

definition test_npu_engine_with_reference_model :: "npu_os \<Rightarrow> ('s, 't) ort option \<Rightarrow> ('s, 't) ort \<Rightarrow> ort_state \<Rightarrow> bool" where
  "test_npu_engine_with_reference_model os feature lib st \<longleftrightarrow>
     fst (three_scores lib (fst (engine_with_reference_model os feature st)))"

definition test_init_ort_runtime_with_invalid_path :: "npu_os \<Rightarrow> ('s, 't) ort \<Rightarrow> ort_state \<Rightarrow> bool" where
  "test_init_ort_runtime_with_invalid_path os lib st \<longleftrightarrow>
    (case fst (init_ort_runtime os lib st ''nonexistent/invalid_onnxruntime.dll'') of
       Err e \<Rightarrow> contains ''failed to initialize ONNX Runtime'' e | Ok _ \<Rightarrow> True)"

definition test_init_ort_runtime_feature_disabled_stub :: bool where
  "test_init_ort_runtime_feature_disabled_stub \<longleftrightarrow>
    (case init_ort_runtime_disabled ''dummy'' of
       Ok _ \<Rightarrow> False | Err e \<Rightarrow> contains ''npu-hardware feature is not enabled'' e)"

lemma contains_prefix: "contains pat (pat @ s)"
proof (cases "pat @ s")
  case (Cons c cs)
  then have "take (length pat) (c # cs) = pat" by (metis append_eq_conv_conj)
  then show ?thesis by (simp add: Cons)
qed simp

lemma contains_append: "contains pat s \<Longrightarrow> contains pat (xs @ s)"
proof (induction xs)
  case (Cons x xs)
  then show ?case by simp
qed simp

lemma contains_within: "contains pat (xs @ pat @ ys)"
  by (intro contains_append contains_prefix)

lemma near_positive: "near a x e \<Longrightarrow> e < x \<Longrightarrow> x + e \<le> 1 \<Longrightarrow> positive_score a"
  using near_flt [OF near_exact, of a x e 0] near_fle [OF _ near_exact, of a x e 1] by (simp add: positive_score_def)

lemma positive_inference:
  assumes "exact_scorer lib eng"
  shows "positive_score (fst (run_io_inference lib eng (replicate 10 [64, 0, 0, 32])))"
    "positive_score (fst (run_net_inference lib eng (replicate 32 [50, 10, 0, 0])))"
    "positive_score (fst (run_audit_inference lib eng (replicate 16 [40, 0, 0, 0])))"
proof -
  have m: "i8_matrix 10 (replicate 10 [64, 0, 0, 32])" "i8_matrix 32 (replicate 32 [50, 10, 0, 0])" "i8_matrix 16 (replicate 16 [40, 0, 0, 0])"
    by (simp_all add: i8_matrix_def is_i8_def list_all_iff)
  note near = inference_near(1) [OF assms m(1)] inference_near(2) [OF assms m(2)] inference_near(3) [OF assms m(3)]
  show "positive_score (fst (run_io_inference lib eng (replicate 10 [64, 0, 0, 32])))"
    "positive_score (fst (run_net_inference lib eng (replicate 32 [50, 10, 0, 0])))"
    "positive_score (fst (run_audit_inference lib eng (replicate 16 [40, 0, 0, 0])))"
    by (rule near_positive [OF near(1)] near_positive [OF near(2)] near_positive [OF near(3)];
        simp add: exact_mean_def io_term_def first_term_def sum_list_replicate)+
qed

lemma inference_keeps_session:
  "exact_scorer lib (snd (run_io_inference lib eng rows)) = exact_scorer lib eng"
  "exact_scorer lib (snd (run_net_inference lib eng rows)) = exact_scorer lib eng"
  by (simp_all add: run_io_inference_def run_net_inference_def dispatch_or_def exact_scorer_def)

lemma three_scores_positive:
  assumes "exact_scorer lib eng"
  shows "fst (three_scores lib eng)" "active_inferences (snd (three_scores lib eng)) = active_inferences eng + 3"
  using positive_inference(1) [OF assms] positive_inference(2) [of lib "snd (run_io_inference lib eng (replicate 10 [64, 0, 0, 32]))"]
    positive_inference(3) [of lib "snd (run_net_inference lib (snd (run_io_inference lib eng (replicate 10 [64, 0, 0, 32]))) (replicate 32 [50, 10, 0, 0]))"]
  by (simp_all add: three_scores_def case_prod_beta Let_def inference_keeps_session assms)
    (simp add: run_io_inference_def run_net_inference_def run_audit_inference_def dispatch_or_def)

lemma engine_tests_pass:
  assumes "exact_scorer lib (fst (engine_new os feature st))"
  shows "test_npu_engine_inference_dispatch os feature lib st" "test_npu_engine_with_reference_model os feature lib st"
    "test_npu_engine_default_fallback os feature st"
proof -
  have "active_inferences (fst (engine_new os feature st)) = 0"
    by (auto simp: engine_new_def engine_with_onnx_bytes_def Let_def split: option.split prod.split sum.split)
  moreover have "show_backend b \<noteq> []" for b by (cases b) simp_all
  ultimately show "test_npu_engine_default_fallback os feature st" by (simp add: test_npu_engine_default_fallback_def)
  show "test_npu_engine_inference_dispatch os feature lib st"
    using three_scores_positive [OF assms] \<open>active_inferences (fst (engine_new os feature st)) = 0\<close>
    by (simp add: test_npu_engine_inference_dispatch_def case_prod_beta)
  show "test_npu_engine_with_reference_model os feature lib st"
    using three_scores_positive(1) [OF assms] by (simp add: test_npu_engine_with_reference_model_def engine_with_reference_model_def)
qed

lemma init_tests_pass:
  "test_init_ort_runtime_with_invalid_path os lib st" "test_init_ort_runtime_feature_disabled_stub"
proof -
  have "contains ''failed to initialize ONNX Runtime'' (''failed to initialize ONNX Runtime from '' @ s)" for s
    using contains_prefix [of "''failed to initialize ONNX Runtime''" "'' from '' @ s"] by simp
  then show "test_init_ort_runtime_with_invalid_path os lib st"
    by (simp add: test_init_ort_runtime_with_invalid_path_def init_ort_runtime_def split: sum.split)
  show test_init_ort_runtime_feature_disabled_stub
    by (simp add: test_init_ort_runtime_feature_disabled_stub_def init_ort_runtime_disabled_def)
qed

lemma eight_tenths: "quantize_f32_to_i8 (fround b32 (8 / 10)) quantization_default = 102"
proof -
  have v: "near (fround b32 (8 / 10)) (8 / 10) (1 / 2 ^ 20)" by (rule near_weaken [OF f32.near_round [of "8 / 10" "8 / 10" 0 2]]) simp_all
  have "near (fdiv b32 (Fin 1) (Fin 127)) (1 / 127) (0 / 127 + 2 * (1 / 2 ^ 24))" by (rule f32.near_div [OF near_exact]) simp_all
  then have s: "near (fdiv b32 (Fin 1) (Fin 127)) (1 / 127) (1 / 2 ^ 23)" by (rule near_weaken) simp
  then obtain r where r: "fdiv b32 (Fin 1) (Fin 127) = Fin r" "\<bar>r - 1 / 127\<bar> \<le> 1 / 2 ^ 23" using near_pos_Fin [OF s] by (auto simp: near_def fval_def)
  have "1 / 2 ^ 23 \<le> (1 / 8000000 :: rat)" by simp
  then have r': "1 / 127 - 1 / 8000000 \<le> r" "r \<le> 1 / 127 + 1 / 8000000" using r(2) by linarith+
  have r0: "0 < r" "1 / 128 \<le> r" using r'(1) by linarith+
  have "8 / 10 \<le> 10243 / 100 * r" using r' by linarith
  then have q: "8 / 10 / r \<le> 10243 / 100" by (simp only: pos_divide_le_eq [OF r0(1)])
  have "10157 / 100 * r \<le> 8 / 10" using r' by linarith
  then have "10157 / 100 \<le> 8 / 10 / r" by (simp only: pos_le_divide_eq [OF r0(1)])
  then have e: "\<bar>8 / 10 / r - 102\<bar> \<le> 43 / 100" using q by linarith
  have w: "1 / 2 ^ 20 / r \<le> 1 / 1000" unfolding pos_divide_le_eq [OF r0(1)] using r0(2) by simp
  have "(\<bar>8 / 10\<bar> + 1 / 2 ^ 20) / r + 1 = 8 / 10 / r + 1 / 2 ^ 20 / r + 1" by (simp add: add_divide_distrib)
  also have "\<dots> \<le> 200" using q w by linarith
  finally have M: "(\<bar>8 / 10\<bar> + 1 / 2 ^ 20) / r + 1 \<le> 200" .
  have "near (fdiv b32 (fround b32 (8 / 10)) (Fin r)) (8 / 10 / r) (1 / 2 ^ 20 / r + 200 * (1 / 2 ^ 24))"
    by (rule f32.near_div [OF v r0(1) M]) simp
  moreover have "1 / 2 ^ 20 / r + 200 * (1 / 2 ^ 24) \<le> 1 / 100" using add_right_mono [OF w] by (rule order.trans) simp
  ultimately have "near (fdiv b32 (fround b32 (8 / 10)) (Fin r)) (8 / 10 / r) (1 / 100)" by (rule near_weaken)
  from near_weaken [OF near_shift [OF this e]] have "near (fdiv b32 (fround b32 (8 / 10)) (Fin r)) 102 (45 / 100)" by simp
  then show ?thesis
    using quantize_int [of "fround b32 (8 / 10)" quantization_default 102] by (simp add: quantization_default_def r(1))
qed

lemma io_test_data: "io_data io_test_tensor = replicate 10 [102, 102, 102, 102]"
proof -
  have "replicate 4 x = [x, x, x, x]" for x :: fl by (simp add: numeral_eq_Suc)
  then show ?thesis
    by (simp only: io_test_tensor_def io_from_f32_matrix_def quantize_matrix_def map_replicate list.map eight_tenths IoInputTensor.simps)
qed

lemma active_test_passes:
  assumes "exact_scorer lib (fst (engine_new os feature st))"
  shows "test_active_session_inference os feature lib st"
proof -
  let ?rows = "replicate 10 [102, 102, 102, 102]" and ?eng = "fst (engine_new os feature st)"
  have "i8_matrix 10 ?rows" by (simp add: i8_matrix_def is_i8_def list_all_iff)
  from inference_near(1) [OF assms this] have "positive_score (fst (run_io_inference lib ?eng ?rows))"
    by (rule near_positive) (simp_all add: exact_mean_def io_term_def sum_list_replicate)
  then show ?thesis
    by (simp add: test_active_session_inference_def new_active_def is_degraded_def evaluate_io_head_def when_active_def
        io_test_data case_prod_beta Let_def)
qed

lemma contains_two: "contains (x @ y) (x @ y @ s)"
  using contains_prefix [of "x @ y" s] by simp

lemma degraded_report:
  assumes "npu_state sess = DegradedObserver reason m k"
  shows "contains ''Kavach-NPU status: DEGRADED_OBSERVER'' (format_status_report sess)"
    "contains (''model.reason: '' @ reason_code reason) (format_status_report sess)"
    "contains (''model.expected_key_id: '' @ k) (format_status_report sess)"
    "contains ''enforcement: DISABLED (model-driven actions denied)'' (format_status_report sess)"
    "contains ''telemetry: OBSERVER_ONLY'' (format_status_report sess)"
  unfolding format_status_report_def Let_def assms NpuState.case
  by (rule contains_prefix contains_two | rule contains_append)+

lemma active_report:
  assumes "npu_state sess = Active m"
  shows "contains ''Kavach-NPU status: ACTIVE'' (format_status_report sess)"
    "contains (''model.bundle: '' @ onnx_file (onnx m)) (format_status_report sess)"
    "contains ''enforcement: ENABLED'' (format_status_report sess)"
    "contains ''telemetry: CPU_BASELINE'' (format_status_report sess)"
proof -
  obtain b where b: "telemetry_of (selected_backend (info (engine sess))) = ''CPU_BASELINE'' @ b"
    by (cases "selected_backend (info (engine sess))") simp_all
  have "''telemetry: CPU_BASELINE'' = ''telemetry: '' @ ''CPU_BASELINE''" by simp
  then show "contains ''telemetry: CPU_BASELINE'' (format_status_report sess)"
    unfolding format_status_report_def Let_def assms NpuState.case b append_assoc
    by (simp only:) (rule contains_two | rule contains_append)+
  show "contains ''Kavach-NPU status: ACTIVE'' (format_status_report sess)"
    "contains (''model.bundle: '' @ onnx_file (onnx m)) (format_status_report sess)"
    "contains ''enforcement: ENABLED'' (format_status_report sess)"
    unfolding format_status_report_def Let_def assms NpuState.case by (rule contains_prefix contains_two | rule contains_append)+
qed

lemma degraded_test_passes: "test_degraded_session_fails_safe os feature lib st"
  using degraded_report(1,2,4) [of "fst (new_degraded os feature st (ManifestSignatureInvalid ''tampered'') 42 ''reference-model-2026-b'')"
      "ManifestSignatureInvalid ''tampered''" 42 "''reference-model-2026-b''"]
  by (simp add: test_degraded_session_fails_safe_def new_degraded_def is_degraded_def evaluate_io_head_def when_active_def case_prod_beta Let_def)

subsection \<open>Status and keys\<close>

definition test_pinned_reference_key_is_valid :: "('k, 'x) crypto_scheme \<Rightarrow> ('k \<Rightarrow> bytes) \<Rightarrow> bool" where
  "test_pinned_reference_key_is_valid lib to_bytes \<longleftrightarrow>
    (case pinned_reference_verifying_key lib of None \<Rightarrow> False | Some vk \<Rightarrow> to_bytes vk = PINNED_REFERENCE_PUBLIC_KEY)"

definition status_text :: "('k, 's, 't) sentinel_env \<Rightarrow> KavachConfig \<Rightarrow> ort_state \<Rightarrow> string" where
  "status_text env config st = show_status (fst (collect_status env config st))"

definition test_collect_status_active_with_valid_bundle :: "('k, 's, 't) sentinel_env \<Rightarrow> ort_state \<Rightarrow> bool" where
  "test_collect_status_active_with_valid_bundle env st \<longleftrightarrow>
    (let output = status_text env safe_defaults st
     in contains ''Kavach-NPU status: ACTIVE'' output \<and> contains ''model.bundle: kavach_multitask_int8.onnx'' output
        \<and> contains ''enforcement: ENABLED'' output \<and> contains ''telemetry: CPU_BASELINE'' output)"

definition test_collect_status_degraded_contract :: "('k, 's, 't) sentinel_env \<Rightarrow> ort_state \<Rightarrow> bool" where
  "test_collect_status_degraded_contract env st \<longleftrightarrow>
    (let config = safe_defaults\<lparr>model := (model safe_defaults)\<lparr>bundle_directory := ''nonexistent_bundle_dir''\<rparr>\<rparr>;
         output = status_text env config st
     in contains ''Kavach-NPU status: DEGRADED_OBSERVER'' output \<and> contains ''model.reason: bundle_missing'' output
        \<and> contains ''model.expected_key_id: reference-model-2026-b'' output
        \<and> contains ''enforcement: DISABLED (model-driven actions denied)'' output \<and> contains ''telemetry: OBSERVER_ONLY'' output)"

definition test_collect_status_rollback_rejected :: "('k, 's, 't) sentinel_env \<Rightarrow> ort_state \<Rightarrow> bool" where
  "test_collect_status_rollback_rejected env st \<longleftrightarrow>
    (let config = safe_defaults\<lparr>model := (model safe_defaults)\<lparr>minimum_rollback_generation := 999\<rparr>\<rparr>;
         output = status_text env config st
     in contains ''Kavach-NPU status: DEGRADED_OBSERVER'' output \<and> contains ''model.reason: rollback_rejected'' output)"

lemma contains_extend: "contains pat s \<Longrightarrow> contains pat (s @ t)"
proof (induction s)
  case Nil
  then show ?case by (cases t) simp_all
next
  case (Cons c s)
  then consider "take (length pat) (c # s) = pat" | "contains pat s" by auto
  then show ?case
  proof cases
    case 1
    then have "take (length pat) ((c # s) @ t) = pat" by (metis append_assoc append_eq_conv_conj append_take_drop_id)
    then show ?thesis by simp
  qed (use Cons.IH in simp)
qed

lemma contains_status:
  "contains pat (format_status_report (fst (open_session env config st))) \<Longrightarrow> contains pat (status_text env config st)"
  by (simp add: status_text_def show_status_def collect_status_def case_prod_beta contains_extend)

lemma key_test_passes_if_kept:
  "(\<And>k. key_from_bytes lib PINNED_REFERENCE_PUBLIC_KEY = Ok k \<Longrightarrow> to_bytes k = PINNED_REFERENCE_PUBLIC_KEY)
    \<Longrightarrow> is_ok (key_from_bytes lib PINNED_REFERENCE_PUBLIC_KEY) \<Longrightarrow> test_pinned_reference_key_is_valid lib to_bytes"
  by (auto simp: test_pinned_reference_key_is_valid_def pinned_reference_verifying_key_def elim: is_okE)

lemma rollback_raised:
  assumes "verify_bundle_dir lib js fs dir key 0 = Ok m" "rollback_generation m < n"
  shows "verify_bundle_dir lib js fs dir key n = Err (RollbackRejected n (rollback_generation m))"
proof -
  have "verify_manifest_and_onnx lib js mb sg ob key n = Err (RollbackRejected n (rollback_generation m))"
    if "manifest_accepted lib js mb sg ob key 0 m" for mb sg ob
    using that assms(2) by (simp add: manifest_accepted_def verify_manifest_and_onnx_def)
  then show ?thesis using assms(1) unfolding verify_bundle_Ok by (auto simp: verify_bundle_dir_def read_or_missing_def)
qed

lemma status_tests_pass:
  assumes "key_from_bytes (env_crypto env) PINNED_REFERENCE_PUBLIC_KEY = Ok key"
  shows "verify_bundle_dir (env_crypto env) (env_json env) (env_files env) ''models/active'' key 0 = Ok m
      \<Longrightarrow> onnx_file (onnx m) = ''kavach_multitask_int8.onnx'' \<Longrightarrow> test_collect_status_active_with_valid_bundle env st"
    and "read_bytes (env_files env) (path_join (env_files env) ''nonexistent_bundle_dir'' ''manifest.json'') = Err e
      \<Longrightarrow> test_collect_status_degraded_contract env st"
    and "verify_bundle_dir (env_crypto env) (env_json env) (env_files env) ''models/active'' key 0 = Ok m
      \<Longrightarrow> rollback_generation m < 999 \<Longrightarrow> test_collect_status_rollback_rejected env st"
proof -
  note state = open_session_def from_config_parts(1) assms safe_defaults_def model_default_def kavach_const
  show "test_collect_status_active_with_valid_bundle env st"
    if "verify_bundle_dir (env_crypto env) (env_json env) (env_files env) ''models/active'' key 0 = Ok m" "onnx_file (onnx m) = ''kavach_multitask_int8.onnx''"
  proof -
    have "npu_state (fst (open_session env safe_defaults st)) = Active m" using that(1) by (simp add: state)
    from active_report [OF this] show ?thesis
      using that(2) by (simp add: test_collect_status_active_with_valid_bundle_def contains_status Let_def)
  qed
  show "test_collect_status_degraded_contract env st"
    if missing: "read_bytes (env_files env) (path_join (env_files env) ''nonexistent_bundle_dir'' ''manifest.json'') = Err e"
  proof -
    let ?c = "safe_defaults\<lparr>model := (model safe_defaults)\<lparr>bundle_directory := ''nonexistent_bundle_dir''\<rparr>\<rparr>"
    obtain msg where "npu_state (fst (open_session env ?c st)) = DegradedObserver (BundleMissing msg) 0 ''reference-model-2026-b''"
      using missing by (simp add: state verify_bundle_dir_def read_or_missing_def map_err_def)
    from degraded_report [OF this] show ?thesis
      by (simp add: test_collect_status_degraded_contract_def contains_status Let_def)
  qed
  show "test_collect_status_rollback_rejected env st"
    if "verify_bundle_dir (env_crypto env) (env_json env) (env_files env) ''models/active'' key 0 = Ok m" "rollback_generation m < 999"
  proof -
    let ?c = "safe_defaults\<lparr>model := (model safe_defaults)\<lparr>minimum_rollback_generation := 999\<rparr>\<rparr>"
    have "verify_bundle_dir (env_crypto env) (env_json env) (env_files env) ''models/active'' key 999 = Err (RollbackRejected 999 (rollback_generation m))"
      by (rule rollback_raised [OF that])
    then have "npu_state (fst (open_session env ?c st)) = DegradedObserver (RollbackRejected 999 (rollback_generation m)) 999 ''reference-model-2026-b''"
      by (simp add: state)
    from degraded_report [OF this] show ?thesis
      by (simp add: test_collect_status_rollback_rejected_def contains_status Let_def)
  qed
qed

subsection \<open>The service\<close>

definition test_service_constants_validity :: bool where
  "test_service_constants_validity \<longleftrightarrow> SERVICE_NAME = ''KavachNpuSentinel'' \<and> contains ''Kavach-NPU'' SERVICE_DISPLAY_NAME
     \<and> contains ''AMD XDNA NPU'' SERVICE_DESCRIPTION \<and> contains ''ransomware'' SERVICE_DESCRIPTION"

lemma service_test_passes: "test_service_constants_validity"
proof -
  have d: "SERVICE_DESCRIPTION = ''Hardware-accelerated Zero-Trust EDR utilizing '' @ ''AMD XDNA NPU'' @ '' for real-time '' @ ''ransomware''
      @ '', C2, and cross-boundary threat containment.''" by (simp add: SERVICE_DESCRIPTION_def)
  have "contains ''AMD XDNA NPU'' SERVICE_DESCRIPTION" "contains ''ransomware'' SERVICE_DESCRIPTION"
    unfolding d by (rule contains_prefix | rule contains_append)+
  moreover have "contains ''Kavach-NPU'' SERVICE_DISPLAY_NAME" by (simp add: SERVICE_DISPLAY_NAME_def)
  ultimately show ?thesis by (simp add: test_service_constants_validity_def SERVICE_NAME_def)
qed

end
