(* ===== verification/Spec2Isabelle.thy ===== *)
theory Spec2Isabelle
  imports Kavach_Cli Kavach_Pipe Kavach_Wsl_Guest Kavach_Config Kavach_Manifest Kavach_Allowlist Kavach_Onnx
    Kavach_Reference_Onnx Kavach_Events Kavach_Alert Kavach_Rhythm Kavach_Selftest Kavach_Attribution
    Kavach_Regression_Wire Kavach_Regression_Detect Kavach_Regression_Core
begin

text \<open>
  \<^bold>\<open>Kavach-NPU: a verification development.\<close>

  \<^bold>\<open>The program.\<close> Kavach-NPU is an endpoint detector written in Rust. Three detectors watch file writes
  (tripwire), network flows (beacon) and security events; their windows are turned into signed-byte
  tensors which a multi-head model scores; a score of at least 0.85 makes the sentinel daemon send a
  verdict over a named pipe to a privileged broker, which checks it against its policy and acts on the
  target. Guest agents in WSL report file operations over AF\_VSOCK; the host synchronizes their clocks
  and attributes host file events to guest processes. Configuration, model bundles and allowlists are
  read from files, the latter two signed with Ed25519. A pack tool makes keys and bundles, a threat
  injector produces test data, and the program runs as a command or as a Windows service.

  \<^bold>\<open>Theories and sources\<close> (paths under \<open>src/\<close>; a definition has the name of the Rust item, with the
  type's name in front where two items share one):
  \<^item> \<open>Kavach_Prelude\<close>: bytes, words, strings, slices, UTF-8, decimal and hexadecimal texts, the result type
    (\<open>Ok\<close>, \<open>Err\<close>), the locales \<open>strict_codec\<close> (decoding is exactly the inverse of encoding) and \<open>rolling_buffer\<close>
    (bounded window); \<open>Kavach_Float\<close>: IEEE single and double precision arithmetic on rationals.
  \<^item> \<open>Kavach_Verdict\<close>: \<open>kavach-core/lib.rs\<close>, \<open>wire.rs\<close>. \<open>Kavach_Rules\<close>: \<open>kavach-firewall/rule.rs\<close>,
    \<open>lib.rs\<close>, \<open>kavach-sensors/wfp_driver.rs\<close>. \<open>Kavach_Broker\<close>: \<open>kavach-firewall/broker.rs\<close>, with the
    locale \<open>nonce_store\<close>. \<open>Kavach_Pipe\<close>: \<open>kavach-sensors/pipe_broker.rs\<close> (brokers shared by reference
    are addresses in a store; the locale \<open>verdict_dispatcher\<close> is the trait both dispatchers implement).
  \<^item> \<open>Kavach_Wsl_Wire\<close>, \<open>Kavach_Clock_Sync\<close>, \<open>Kavach_Correlator\<close>: \<open>kavach-wsl\<close>. \<open>Kavach_Wsl_Guest\<close>:
    \<open>kavach-wsl-guest\<close>.
  \<^item> \<open>Kavach_Config\<close>, \<open>Kavach_Base64\<close> and \<open>Kavach_Manifest\<close>, \<open>Kavach_Allowlist\<close>: \<open>kavach-core/config.rs\<close>,
    \<open>manifest.rs\<close> and \<open>keys.rs\<close>, \<open>allowlist.rs\<close>.
  \<^item> \<open>Kavach_Tripwire\<close>, \<open>Kavach_Beacon\<close>, \<open>Kavach_Events\<close>: the three detector crates.
    \<open>Kavach_Sensors\<close>: the consumers in \<open>kavach-sensors/etw_*.rs\<close>.
  \<^item> \<open>Kavach_Tensor\<close>: \<open>kavach-core/tensor.rs\<close>. \<open>Kavach_Onnx\<close>: \<open>kavach-pack/onnx_builder.rs\<close>.
    \<open>Kavach_Reference_Onnx\<close> and \<open>Kavach_Npu\<close>: \<open>kavach-core/npu_backend.rs\<close> and \<open>npu.rs\<close>.
  \<^item> \<open>Kavach_Sentinel\<close>: status report and live daemon of \<open>src/main.rs\<close>. \<open>Kavach_Service\<close>: \<open>src/service.rs\<close>.
    \<open>Kavach_Cli\<close>: the other commands of \<open>src/main.rs\<close>. \<open>Kavach_Pack\<close>: \<open>kavach-pack/main.rs\<close>.
    \<open>Kavach_Injector\<close>: \<open>threat-injector/main.rs\<close>.
  \<^item> Numerical analysis: \<open>Kavach_Rounding\<close> (the predicate \<open>near\<close> and the locale \<open>fp_format\<close>, the error bounds of
    the arithmetic operations, interpreted for single and double precision), \<open>Kavach_Entropy\<close> (Shannon entropy
    of a block), \<open>Kavach_Slot\<close> (entropy summary and features of a time slot), \<open>Kavach_Alert\<close> (scorers,
    quantization and the alert threshold of the daemon), \<open>Kavach_Rhythm\<close> (mean, variance, square root and jitter of
    a flow), \<open>Kavach_Intermittent\<close> (score of blocks that alternate between plain and encrypted), \<open>Kavach_Synthetic\<close>
    and \<open>Kavach_Cipher_Blocks\<close> (the pseudo-random blocks of the program and its tests, evaluated bit by bit, with
    bounds of their entropy).
  \<^item> Runs across components: \<open>Kavach_Selftest\<close> (the self-test of the tripwire command), \<open>Kavach_Attribution\<close> (a
    guest write from the agent over the wire to its attribution on the host).
  \<^item> Regression: \<open>Kavach_Regression\<close>, \<open>Kavach_Regression_Wsl\<close>, \<open>Kavach_Regression_Wire\<close>, \<open>Kavach_Regression_Detect\<close>,
    \<open>Kavach_Regression_Net\<close> and \<open>Kavach_Regression_Core\<close>, unit tests of the sources as executable definitions with
    the proofs that the model passes them.
  \<^item> This theory: properties that span components, with the locale \<open>tensor_source\<close>, the contract of the
    detectors with the model; the contract of the model's heads is the locale \<open>inference_head\<close> of \<open>Kavach_Npu\<close>.

  \<^bold>\<open>State and effects.\<close> Structures are records, enumerations datatypes, methods on \<open>&mut self\<close> functions
  that return the new state, \<open>Result\<close> a sum, panics a value of their own where the code can reach one
  (\<open>None\<close>, \<open>Panic\<close>, exit code 101). Machine integers are words of their width with the wrap-around of a
  release build; \<open>i64\<close>, \<open>i8\<close> are integers with the casts written out; \<open>usize\<close> counters are natural
  numbers. Hash maps are association lists with distinct keys. The disk of the pack tool is a map from
  paths to bytes; a failed write is taken to leave the file as it was.

  \<^bold>\<open>Parameters.\<close> What is not in the repository is an argument: SHA-256, Ed25519, hexadecimal, TOML and JSON
  readers, logarithms (entropy bounds assume \<open>log2\<close> accurate to \<open>2 ^ -40\<close>), the file system, clocks, the pipe,
  PowerShell, \<open>sc.exe\<close>, the Windows calls and ONNX
  Runtime. What a theorem needs of them is a hypothesis (\<open>ed25519_sound\<close>, \<open>writable\<close>, injective paths),
  and its witness instantiates them.

  \<^bold>\<open>What is shown.\<close> The broker enforces exactly what its policy authorizes, each verdict at most once, over
  any history and over the pipe; decoding of verdicts and guest records is exactly the inverse of
  encoding; clock estimates are within their bound of the true offset, and an enforceable attribution
  is within the window of the true time; bundles, allowlists and configurations are accepted exactly
  under the stated conditions; detectors evaluate exactly their own window; tensors are well typed and
  scores in range after any telemetry; without a verified bundle the daemon is silent; a bounded run of
  the daemon ends; what the pack tool writes, the detector accepts. Of the floating-point code: block
  entropies are within \<open>2 ^ -30\<close> of Shannon entropy, the built-in scorer and an ONNX session of the reference
  model agree within 1/5000 and with the exact weighted mean, and a flow with intervals within ten percent of
  a nominal one is called a beacon, rounding included; a process that encrypts files in part, switching between
  plain and encrypted blocks, is suspended; the self-test of the tripwire detects its payload; a write in the guest
  reaches the host and is attributed to its process when one host event on its path lies in the window. The reports of the service to the control manager
  are in order. Some theorems show where the code
  misses its purpose: request identifiers of the daemon repeat while they are remembered, the service
  cannot stop, the daemon of the default build is never fed, a verified model is never loaded, the
  signature of an allowlist does not cover its entries, the simulated beacon is too fast to be detected, the
  alert threshold of the daemon is out of reach of the scorers the repository ships, and flows are called
  beacons only up to half of the documented jitter.

  \<^bold>\<open>Bounds and fuel.\<close> The protocol-buffer reader takes the length of its input as fuel: every field uses at
  least one byte. The loop of the live daemon takes fuel; \<open>max_ticks + 1\<close> iterations are enough for a
  bounded run, and no fuel ends a continuous one. Entropy bounds assume inputs of at most \<open>2 ^ 32\<close> bytes (no
  \<open>Vec\<close> of a file write is larger in practice), the alert bound a window of at most \<open>2 ^ 28\<close> blocks, one terabyte
  written in 50 ms, and the rhythm bound nominal intervals between 0.6 seconds and 2.7 hours, within which
  nanosecond counts are exact doubles. The bound for intermittent encryption takes blocks as plain up to 5.5 bits
  and as encrypted from the threshold of the program, with a switch at three of five block borders.

  \<^bold>\<open>Not modelled.\<close> Banners, help texts and measured latencies; the UTF-16 conversion of the service name; the
  generators behind the ETW consumers, which the repository does not contain; benchmarks, integration
  tests and the unit tests that run an ONNX session, sign bundles and allowlists with generated keys or compare
  entropies of long pseudo-random texts, the training crate (one record) and the PowerShell scripts. Debug builds, where overflowing
  arithmetic panics, are not distinguished from release builds.
\<close>

section \<open>Properties across components\<close>

subsection \<open>From telemetry to scores\<close>

text \<open>
  What the model relies on in a detector: its window becomes a matrix with a fixed number of rows of
  four features. Every detector that keeps this contract yields a well-typed tensor.
\<close>

locale tensor_source =
  fixes matrix :: "'d \<Rightarrow> fl list list" and rows :: nat
  assumes row_count: "length (matrix d) = rows"
    and row_length: "row \<in> set (matrix d) \<Longrightarrow> length row = 4"
    and rows_bound: "rows \<le> 32"
begin

lemma quantized_shape: "i8_matrix rows (quantize_matrix (matrix d) p)"
  by (auto simp: i8_matrix_def quantize_matrix_def list_all_iff row_count row_length quantize_range)

lemma quantized_rows: "i8_rows (quantize_matrix (matrix d) p)"
  using quantized_shape [of d p] rows_bound by (simp add: i8_matrix_def i8_rows_def)

end

lemma tripwire_matrix_cases:
  "tripwire_tensor_matrix sha256 t = replicate 10 (replicate 4 (Fin 0))
    \<or> (\<exists>a w es. tripwire_tensor_matrix sha256 t = slot_matrix a w es)"
  by (auto simp: tripwire_tensor_matrix_def kavach_const Let_def evaluate_pid_Some(5) split: option.split)

interpretation tripwire_source: tensor_source "tripwire_tensor_matrix sha256" 10 for sha256
proof unfold_locales
  have m: "length (slot_matrix a w es) = 10" "row \<in> set (slot_matrix a w es) \<Longrightarrow> length row = 4" for row a w es
    by (auto simp: slot_matrix_def bucket_row_def kavach_const Let_def)
  show "length (tripwire_tensor_matrix sha256 t) = 10" for t using tripwire_matrix_cases [of sha256 t] by (auto simp: m)
  show "row \<in> set (tripwire_tensor_matrix sha256 t) \<Longrightarrow> length row = 4" for row t
    using tripwire_matrix_cases [of sha256 t] by (auto simp: m)
qed simp

lemma flow_matrix_shape:
  "flow_tensor_matrix log10 fw = Some m \<Longrightarrow> length m = 32 \<and> (\<forall>row \<in> set m. length row = 4)"
  by (auto simp: flow_tensor_matrix_def is_full_def packet_row_def kavach_const Let_def split: if_splits)

lemma first_matrix_shape: "first_matrix log10 fws = Some m \<Longrightarrow> length m = 32 \<and> (\<forall>row \<in> set m. length row = 4)"
  by (induction fws) (auto dest: flow_matrix_shape split: option.splits)

interpretation beacon_source: tensor_source "tcn_tensor_matrix log10" 32 for log10
  by unfold_locales (auto simp: tcn_tensor_matrix_def kavach_const dest: first_matrix_shape split: option.splits)

interpretation event_source: tensor_source "\<lambda>rs. subscriber_tensor_matrix sha256 (subscriber_run sha256 rs)" 16 for sha256
  using matrix_rows by unfold_locales (auto simp: subscriber_tensor_matrix_def subscriber_window)

text \<open>C9: the tensors the daemon hands to the model are well typed and its scores are sound: after any
  telemetry the three tensors have 10, 32 and 16 rows of four signed bytes, as the fixed-size
  arrays of the program demand, and every head of every session answers them with a number
  between 0 and 1 (NaN only from an ONNX session) or, when degraded, with the reason.\<close>

theorem telemetry_to_score:
  fixes sha256 log10 eng tcn rs ort sess
  defines "io \<equiv> io_from_f32_matrix (tripwire_tensor_matrix sha256 (tracker eng)) quantization_default"
    and "net \<equiv> net_from_f32_matrix (tcn_tensor_matrix log10 tcn) quantization_default"
    and "audit \<equiv> audit_from_f32_matrix (subscriber_tensor_matrix sha256 (subscriber_run sha256 rs)) quantization_default"
  shows "i8_matrix 10 (io_data io) \<and> i8_matrix 32 (net_data net) \<and> i8_matrix 16 (audit_data audit)
    \<and> sound_answer sess (fst (evaluate_io_head ort sess io))
    \<and> sound_answer sess (fst (evaluate_net_head ort sess net))
    \<and> sound_answer sess (fst (evaluate_audit_head ort sess audit))"
proof -
  note defs = io_def net_def audit_def io_from_f32_matrix_def net_from_f32_matrix_def audit_from_f32_matrix_def
  have "i8_matrix 10 (io_data io)" "i8_matrix 32 (net_data net)" "i8_matrix 16 (audit_data audit)"
    unfolding defs by (simp_all add: tripwire_source.quantized_shape beacon_source.quantized_shape event_source.quantized_shape)
  moreover have "i8_rows (io_data io)" "i8_rows (net_data net)" "i8_rows (audit_data audit)"
    unfolding defs by (simp_all add: tripwire_source.quantized_rows beacon_source.quantized_rows event_source.quantized_rows)
  ultimately show ?thesis by (simp add: head_sound)
qed

subsection \<open>The daemon and its broker\<close>

text \<open>C18: without a verified model the live daemon does nothing: unless the pinned key is valid and the
  configured bundle is accepted under it, no number of ticks raises an alert or dispatches a
  verdict, and every broker is as it was created.\<close>

theorem unverified_model_silences_daemon:
  fixes n env config start_ts st
  defines "run \<equiv> sentinel_ticks n env config start_ts 0 (fst (live_sentinel env config st))"
  shows "(\<exists>key m. key_from_bytes (env_crypto env) PINNED_REFERENCE_PUBLIC_KEY = Ok key
            \<and> verify_bundle_dir (env_crypto env) (env_json env) (env_files env) (bundle_directory (model config)) key
                (minimum_rollback_generation (model config)) = Ok m)
    \<or> run = ([], fst (live_sentinel env config st))"
proof (cases "is_degraded (npu_session (fst (live_sentinel env config st)))")
  case True
  then have "sentinel_ticks n env config start_ts tick (fst (live_sentinel env config st))
      = ([], fst (live_sentinel env config st))" for tick
    by (induction n arbitrary: tick) (simp_all add: degraded_tick)
  then show ?thesis by (simp add: run_def)
next
  case False
  then show ?thesis
    by (auto simp: live_sentinel_def open_session_def is_degraded_def from_config_parts case_prod_beta Let_def
        split: sum.splits)
qed

lemma live_broker_policy:
  assumes "broker_trace (live_broker config) es b"
  shows "policy_of b = policy_of (live_broker config)" "cache_inv b"
  using trace_policy [OF assms] trace_cache_inv [OF assms] by (simp_all add: live_broker_def broker_new_inv)

text \<open>C31: the verdicts of the daemon always pass the policy of its own broker: in every reachable state of
  the broker the verdict of a tick is enforced exactly when it has not expired and its request
  identifier is not remembered. Model, policy generation, evidence and target never refuse it:
  the broker is created with the digest the daemon writes and as not degraded.\<close>

theorem live_verdict_enforced_iff:
  assumes "broker_trace (live_broker config) es b"
  shows "is_ok (fst (evaluate_and_enforce b (live_verdict config tick t) now)) \<longleftrightarrow>
     now \<le> t + 10000
     \<and> (case map_of (replay_cache b) (ucast (tick AND 0xFF) # replicate 15 0) of None \<Rightarrow> True | Some r \<Rightarrow> r < now)"
  using live_broker_policy [OF assms]
  by (simp add: evaluate_Ok_iff authorized_def live_verdict_def policy_of_def live_broker_def broker_new_def split: option.split)

lemma tick_id_period: "(tick + 256) AND 0xFF = tick AND 0xFF" for tick :: u64
proof -
  have "x AND 0xFF = take_bit 8 x" for x :: u64 by (simp add: take_bit_eq_mask mask_eq_exp_minus_1)
  moreover have "(unat tick + 256) mod 2 ^ 64 mod 256 = (unat tick + 256) mod 256" by (rule mod_mod_cancel) simp
  ultimately show ?thesis
    by (simp add: word_unat_eq_iff unsigned_take_bit_eq unat_word_ariths take_bit_eq_mod)
qed

theorem live_verdict_enforced_iff_witness:
  "is_ok (fst (evaluate_and_enforce (live_broker safe_defaults) (live_verdict safe_defaults 3 1000) 11000)) \<longleftrightarrow>
     (11000 :: u64) \<le> 1000 + 10000
     \<and> (case map_of (replay_cache (live_broker safe_defaults)) (ucast ((3 :: u64) AND 0xFF) # replicate 15 0) of
           None \<Rightarrow> True | Some r \<Rightarrow> r < 11000)"
  by (rule live_verdict_enforced_iff [OF trace_nil])

text \<open>C32: alerts 256 ticks apart are lost: the request identifier of a tick is its number modulo 256, so
  once a verdict of the daemon was enforced, the verdict of the tick 25.6 seconds later is refused
  as a replay, whatever happens in between, although it reports a new alert and is not expired.\<close>

theorem later_alert_refused_as_replay:
  assumes "broker_trace (live_broker config) (pre @ Evaluated (live_verdict config tick t) now (Ok a) # mid) b"
    and "\<forall>e \<in> set mid. event_time e \<le> t + 70000"
    and "unat t + 70000 < 2 ^ 64" and "now' \<le> t + 35600"
  shows "fst (evaluate_and_enforce b (live_verdict config (tick + 256) (t + 25600)) now') = Err ReplayDetected"
proof -
  have u: "unat (t + k) = unat t + unat k" if "k \<le> 70000" for k
    using assms(3) that by (intro unat_add_no_wrap) (simp add: word_le_nat_alt)
  have known: "map_of (replay_cache b) (ucast (tick AND 0xFF) # replicate 15 0) = Some (t + 70000)" "cache_inv b"
    using nonce_kept_after [OF assms(1)] assms(2) live_broker_policy(2) [OF trace_nil]
    by (simp_all add: live_verdict_def add.assoc)
  have "now' \<le> t + 70000" using assms(4) by (simp add: word_le_nat_alt u)
  from nonces.survives_expire [OF _ known(1) this] have
    "map_of (retain_nonces now' (replay_cache b)) (ucast (tick AND 0xFF) # replicate 15 0) = Some (t + 70000)"
    using known(2) by (simp add: cache_inv_def)
  then show ?thesis
    using assms(4) by (simp add: broker_defs live_verdict_def tick_id_period not_less add.assoc)
qed

theorem later_alert_refused_as_replay_witness:
  "fst (evaluate_and_enforce (snd (evaluate_and_enforce (live_broker safe_defaults) (live_verdict safe_defaults 3 1000) 1000))
     (live_verdict safe_defaults (3 + 256) (1000 + 25600)) 26600) = Err ReplayDetected"
proof -
  let ?v = "live_verdict safe_defaults 3 1000" and ?b = "live_broker safe_defaults"
  have "evaluate_and_enforce ?b ?v 1000 = (Ok (enforced_action ?v), snd (evaluate_and_enforce ?b ?v 1000))"
    by (simp add: broker_defs live_broker_def broker_new_def live_verdict_def retain_nonces_def action_gate_def
        enforced_action_def)
  then have "broker_trace ?b ([] @ Evaluated ?v 1000 (Ok (enforced_action ?v)) # []) (snd (evaluate_and_enforce ?b ?v 1000))"
    by (auto intro: trace_cons [OF broker_step.evaluate trace_nil])
  from later_alert_refused_as_replay [OF this, of 26600] show ?thesis by simp
qed

end
